(* ===== verification/Prelude.thy ===== *)
theory Prelude
  imports Main "HOL-Library.Char_ord" "HOL-Library.List_Lexorder"
begin

text \<open>
  Shared vocabulary of the development: Go's 64-bit signed integers, the parts of the
  packages \<^verbatim>\<open>strings\<close> and \<^verbatim>\<open>strconv\<close> the agent uses, results with an error, and
  the lemma collections the component theories extend.

  A Go string is a list of bytes (\<^typ>\<open>string\<close>). Comparison of strings is the
  lexicographic order of \<^verbatim>\<open>List_Lexorder\<close>, which is Go's byte-wise order.
\<close>

named_theorems go_simps \<open>unfolding rules of the standard-library models\<close>

section \<open>64-bit signed integers\<close>

type_synonym i64 = int

definition min_i64 :: i64 where
  "min_i64 = - 9223372036854775808"

definition max_i64 :: i64 where
  "max_i64 = 9223372036854775807"

definition in_i64 :: "int \<Rightarrow> bool" where
  "in_i64 x \<longleftrightarrow> min_i64 \<le> x \<and> x \<le> max_i64"

text \<open>Two's complement wrap-around of the arithmetic on Go's \<^verbatim>\<open>int\<close> and \<^verbatim>\<open>int64\<close>.\<close>

definition wrap64 :: "int \<Rightarrow> i64" where
  "wrap64 x = (x + 9223372036854775808) mod 18446744073709551616 - 9223372036854775808"

lemma wrap64_in_i64 [simp]: "in_i64 (wrap64 x)"
proof -
  have "0 \<le> (x + 9223372036854775808) mod 18446744073709551616"
    and "(x + 9223372036854775808) mod 18446744073709551616 < 18446744073709551616"
    by simp_all
  then show ?thesis
    by (simp add: in_i64_def wrap64_def min_i64_def max_i64_def)
qed

lemma wrap64_id [simp]: "in_i64 x \<Longrightarrow> wrap64 x = x"
  by (simp add: in_i64_def wrap64_def min_i64_def max_i64_def)

text \<open>Go's integer division truncates towards zero; the remainder has the dividend's sign.\<close>

definition quot64 :: "i64 \<Rightarrow> i64 \<Rightarrow> i64" where
  "quot64 a b = wrap64 (sgn a * sgn b * (\<bar>a\<bar> div \<bar>b\<bar>))"

definition rem64 :: "i64 \<Rightarrow> i64 \<Rightarrow> i64" where
  "rem64 a b = sgn a * (\<bar>a\<bar> mod \<bar>b\<bar>)"

lemma rem64_in_i64:
  assumes "in_i64 a" "b \<noteq> 0"
  shows "in_i64 (rem64 a b)"
proof -
  have "0 \<le> \<bar>a\<bar> mod \<bar>b\<bar>" "\<bar>a\<bar> mod \<bar>b\<bar> \<le> \<bar>a\<bar>"
    using assms(2) by (simp_all add: zmod_le_nonneg_dividend)
  then show ?thesis
    using assms(1) by (auto simp: in_i64_def rem64_def min_i64_def max_i64_def sgn_if)
qed

section \<open>Results\<close>

text \<open>An error that is only ever printed is its message.\<close>

type_synonym gerror = string

text \<open>A fallible operation returns \<^verbatim>\<open>Inl\<close> of an error or \<^verbatim>\<open>Inr\<close> of a value.\<close>

definition rbind :: "'e + 'a \<Rightarrow> ('a \<Rightarrow> 'e + 'b) \<Rightarrow> 'e + 'b" where
  "rbind r f = (case r of Inl e \<Rightarrow> Inl e | Inr a \<Rightarrow> f a)"

lemma rbind_simps [simp]:
  "rbind (Inl e) f = Inl e"
  "rbind (Inr a) f = f a"
  by (simp_all add: rbind_def)

lemma rbind_eq_Inr: "rbind r f = Inr b \<longleftrightarrow> (\<exists>a. r = Inr a \<and> f a = Inr b)"
  by (cases r) simp_all

lemma rbind_eq_Inl: "rbind r f = Inl e \<longleftrightarrow> r = Inl e \<or> (\<exists>a. r = Inr a \<and> f a = Inl e)"
  by (cases r) auto

lemma rbind_cong [fundef_cong]:
  "r = r' \<Longrightarrow> (\<And>a. r' = Inr a \<Longrightarrow> f a = g a) \<Longrightarrow> rbind r f = rbind r' g"
  by (cases r') auto

section \<open>Package strings\<close>

fun has_prefix :: "string \<Rightarrow> string \<Rightarrow> bool" where
  "has_prefix s [] = True"
| "has_prefix [] (p # ps) = False"
| "has_prefix (c # cs) (p # ps) = (c = p \<and> has_prefix cs ps)"

definition has_suffix :: "string \<Rightarrow> string \<Rightarrow> bool" where
  "has_suffix s p = has_prefix (rev s) (rev p)"

text \<open>\<^verbatim>\<open>strings.Index\<close>: the position of the first occurrence, if there is one.\<close>

fun index_of :: "string \<Rightarrow> string \<Rightarrow> nat option" where
  "index_of [] p = (if p = [] then Some 0 else None)"
| "index_of (c # cs) p =
     (if has_prefix (c # cs) p then Some 0 else map_option Suc (index_of cs p))"

definition contains_sub :: "string \<Rightarrow> string \<Rightarrow> bool" where
  "contains_sub s p = (index_of s p \<noteq> None)"

definition trim_prefix :: "string \<Rightarrow> string \<Rightarrow> string" where
  "trim_prefix s p = (if has_prefix s p then drop (length p) s else s)"

text \<open>\<^verbatim>\<open>strings.Split\<close> with a separator of one byte: always at least one piece.\<close>

fun split_on :: "char \<Rightarrow> string \<Rightarrow> string list" where
  "split_on c [] = [[]]"
| "split_on c (x # xs) =
     (if x = c then [] # split_on c xs
      else case split_on c xs of [] \<Rightarrow> [[x]] | p # ps \<Rightarrow> (x # p) # ps)"

fun join_with :: "char \<Rightarrow> string list \<Rightarrow> string" where
  "join_with c [] = []"
| "join_with c [p] = p"
| "join_with c (p # q # ps) = p @ c # join_with c (q # ps)"

text \<open>\<^verbatim>\<open>strings.SplitN(s, sep, 2)[0]\<close>.\<close>

definition before_sep :: "char \<Rightarrow> string \<Rightarrow> string" where
  "before_sep c s = takeWhile (\<lambda>x. x \<noteq> c) s"

definition is_ascii_space :: "char \<Rightarrow> bool" where
  "is_ascii_space c \<longleftrightarrow> of_char c \<in> {9::nat, 10, 11, 12, 13, 32}"

definition trim_space :: "string \<Rightarrow> string" where
  "trim_space s = rev (dropWhile is_ascii_space (rev (dropWhile is_ascii_space s)))"

lemma has_prefix_iff: "has_prefix s p \<longleftrightarrow> (\<exists>t. s = p @ t)"
  by (induction s p rule: has_prefix.induct) auto

lemma has_suffix_iff: "has_suffix s p \<longleftrightarrow> (\<exists>t. s = t @ p)"
proof -
  have "has_prefix (rev s) (rev p) \<longleftrightarrow> (\<exists>t. rev s = rev p @ t)"
    by (rule has_prefix_iff)
  also have "\<dots> \<longleftrightarrow> (\<exists>t. s = t @ p)"
    by (metis rev_append rev_rev_ident)
  finally show ?thesis
    by (simp add: has_suffix_def)
qed

lemma contains_sub_iff: "contains_sub s p \<longleftrightarrow> (\<exists>a b. s = a @ p @ b)"
proof (induction s)
  case Nil
  then show ?case by (auto simp: contains_sub_def)
next
  case (Cons c cs)
  show ?case
  proof (cases "has_prefix (c # cs) p")
    case True
    then obtain t where "c # cs = p @ t"
      by (auto simp: has_prefix_iff)
    then have "\<exists>a b. c # cs = a @ p @ b"
      by (metis append_Nil)
    with True show ?thesis
      by (simp add: contains_sub_def)
  next
    case False
    then have "contains_sub (c # cs) p = contains_sub cs p"
      by (simp add: contains_sub_def)
    moreover have "(\<exists>a b. c # cs = a @ p @ b) \<longleftrightarrow> (\<exists>a b. cs = a @ p @ b)"
      using False by (auto simp: has_prefix_iff Cons_eq_append_conv) 
    ultimately show ?thesis
      using Cons.IH by simp
  qed
qed

lemma split_on_not_Nil [simp]: "split_on c s \<noteq> []"
  by (cases s) (auto split: list.splits)

lemma join_with_Cons_not_Nil: "ps \<noteq> [] \<Longrightarrow> join_with c (p # ps) = p @ c # join_with c ps"
  by (cases ps) simp_all

lemma join_split [simp]: "join_with c (split_on c s) = s"
proof (induction s)
  case (Cons x xs)
  show ?case
  proof (cases "split_on c xs")
    case (Cons p ps)
    with Cons.IH show ?thesis
      by (cases ps) (auto simp: join_with_Cons_not_Nil)
  qed simp
qed simp

lemma split_on_no_sep: "p \<in> set (split_on c s) \<Longrightarrow> c \<notin> set p"
  by (induction s arbitrary: p) (auto split: if_splits list.splits)

lemma split_on_atom: "c \<notin> set s \<Longrightarrow> split_on c s = [s]"
  by (induction s) auto

lemma split_on_append: "c \<notin> set p \<Longrightarrow> split_on c (p @ c # s) = p # split_on c s"
  by (induction p) auto

lemma split_join:
  assumes "ps \<noteq> []" "\<And>p. p \<in> set ps \<Longrightarrow> c \<notin> set p"
  shows "split_on c (join_with c ps) = ps"
  using assms
proof (induction ps)
  case (Cons p ps)
  show ?case
  proof (cases "ps = []")
    case True
    with Cons.prems show ?thesis by (simp add: split_on_atom)
  next
    case False
    with Cons show ?thesis by (simp add: join_with_Cons_not_Nil split_on_append)
  qed
qed simp

text \<open>The byte-wise order of strings, one byte at a time.\<close>

lemma list_lex_Cons [simp]:
  "((x::'a::linorder) # xs < y # ys) \<longleftrightarrow> x < y \<or> x = y \<and> xs < ys"
  "\<not> (xs < ([] :: 'a list))" "([] < ys) \<longleftrightarrow> ys \<noteq> []"
  by (cases ys; auto simp: list_less_def)+

section \<open>Package strconv\<close>

definition digit_char :: "nat \<Rightarrow> char" where
  "digit_char d = char_of (48 + d)"

definition is_digit :: "char \<Rightarrow> bool" where
  "is_digit c \<longleftrightarrow> (48::nat) \<le> of_char c \<and> (of_char c :: nat) \<le> 57"

definition digit_val :: "char \<Rightarrow> nat" where
  "digit_val c = of_char c - 48"

fun nat_str :: "nat \<Rightarrow> string" where
  "nat_str n = (if n < 10 then [digit_char n] else nat_str (n div 10) @ [digit_char (n mod 10)])"

declare nat_str.simps [simp del]

definition itoa :: "int \<Rightarrow> string" where
  "itoa i = (if i < 0 then CHR ''-'' # nat_str (nat (- i)) else nat_str (nat i))"

definition digits_val :: "string \<Rightarrow> nat" where
  "digits_val s = foldl (\<lambda>a c. 10 * a + digit_val c) 0 s"

text \<open>
  \<^verbatim>\<open>strconv.Atoi\<close>: an optional sign and at least one digit, in the range of \<^verbatim>\<open>int\<close>. A syntax
  error returns 0 with the error, a range error the closest bound with the error.
\<close>

datatype num_error = ErrSyntax | ErrRange

definition atoi_full :: "string \<Rightarrow> i64 \<times> num_error option" where
  "atoi_full s =
     (let neg = (case s of c # _ \<Rightarrow> c = CHR ''-'' | [] \<Rightarrow> False);
          ds = (case s of c # cs \<Rightarrow> if c = CHR ''-'' \<or> c = CHR ''+'' then cs else s | [] \<Rightarrow> []);
          v = (if neg then - int (digits_val ds) else int (digits_val ds))
      in if ds = [] \<or> \<not> list_all is_digit ds then (0, Some ErrSyntax)
         else if v < min_i64 then (min_i64, Some ErrRange)
         else if max_i64 < v then (max_i64, Some ErrRange)
         else (v, None))"

definition atoi :: "string \<Rightarrow> num_error + i64" where
  "atoi s = (case atoi_full s of (v, None) \<Rightarrow> Inr v | (_, Some e) \<Rightarrow> Inl e)"

lemma digit_char_numerals [simp]:
  "digit_char 0 = CHR ''0''" "digit_char (Suc 0) = CHR ''1''" "digit_char 1 = CHR ''1''"
  "digit_char 2 = CHR ''2''" "digit_char 3 = CHR ''3''" "digit_char 4 = CHR ''4''"
  "digit_char 5 = CHR ''5''" "digit_char 6 = CHR ''6''" "digit_char 7 = CHR ''7''"
  "digit_char 8 = CHR ''8''" "digit_char 9 = CHR ''9''"
  by code_simp+

lemma of_char_digit_char [simp]: "d < 10 \<Longrightarrow> (of_char (digit_char d) :: nat) = 48 + d"
  by (simp add: digit_char_def)

lemma is_digit_digit_char [simp]: "d < 10 \<Longrightarrow> is_digit (digit_char d)"
  by (simp add: is_digit_def)

lemma digit_val_digit_char [simp]: "d < 10 \<Longrightarrow> digit_val (digit_char d) = d"
  by (simp add: digit_val_def)

lemma nat_str_not_Nil [simp]: "nat_str n \<noteq> []"
  by (subst nat_str.simps) simp

lemma nat_str_digits [simp]: "list_all is_digit (nat_str n)"
proof (induction n rule: nat_str.induct)
  case (1 n)
  then show ?case
    by (subst nat_str.simps) simp
qed

lemma digits_val_snoc: "digits_val (s @ [c]) = 10 * digits_val s + digit_val c"
  by (simp add: digits_val_def)

lemma digits_val_nat_str [simp]: "digits_val (nat_str n) = n"
proof (induction n rule: nat_str.induct)
  case (1 n)
  show ?case
  proof (cases "n < 10")
    case True
    then show ?thesis
      by (subst nat_str.simps) (simp add: digits_val_def)
  next
    case False
    with 1 have "digits_val (nat_str (n div 10)) = n div 10"
      by simp
    with False show ?thesis
      by (subst nat_str.simps) (simp add: digits_val_snoc)
  qed
qed

lemma sign_not_digit:
  "\<not> is_digit CHR ''-''" "\<not> is_digit CHR ''+''" "\<not> is_digit CHR ''.''"
  by (simp_all add: is_digit_def)

lemma nat_str_hd: "nat_str n = c # cs \<Longrightarrow> is_digit c"
  using nat_str_digits[of n] by simp

lemma atoi_nat_str: "int n \<le> max_i64 \<Longrightarrow> atoi (nat_str n) = Inr (int n)"
proof -
  assume le: "int n \<le> max_i64"
  obtain c cs where s: "nat_str n = c # cs"
    by (cases "nat_str n") auto
  then have c: "c \<noteq> CHR ''-''" "c \<noteq> CHR ''+''"
    using nat_str_hd sign_not_digit by metis+
  have d: "list_all is_digit (c # cs)" "digits_val (c # cs) = n"
    using nat_str_digits[of n] digits_val_nat_str[of n] by (simp_all add: s)
  show ?thesis
    using le d c by (simp add: s atoi_def atoi_full_def Let_def min_i64_def)
qed

lemma atoi_itoa: "in_i64 i \<Longrightarrow> atoi (itoa i) = Inr i"
proof (cases "i < 0")
  case True
  assume "in_i64 i"
  with True show ?thesis
    by (simp add: itoa_def atoi_def atoi_full_def in_i64_def max_i64_def)
next
  case False
  assume "in_i64 i"
  with False show ?thesis
    using atoi_nat_str[of "nat i"] by (simp add: itoa_def in_i64_def)
qed

lemma atoi_range: "atoi s = Inr v \<Longrightarrow> in_i64 v"
  by (auto simp: atoi_def atoi_full_def Let_def in_i64_def split: if_splits option.splits prod.splits)

end
