(* ===== verification/Semver.thy ===== *)
theory Semver
  imports Prelude "HOL-Library.Product_Lexorder"
begin

text \<open>
  The version parser and comparison of \<^verbatim>\<open>pkg/version/version_parser.go\<close>.

  The semantic-version regular expression is modelled by a deterministic matcher: every
  group of the expression ends at a character its class excludes, so the groups are the
  maximal runs the matcher takes. \<^verbatim>\<open>MatchString\<close> of the unanchored \<^verbatim>\<open>\d+\<close> holds as soon
  as one digit occurs, and is modelled as that. Input outside ASCII is not represented by
  \<^verbatim>\<open>TrimSpace\<close>.
\<close>

section \<open>Data and accessors\<close>

record ParsedSemVer =
  original :: string
  major :: i64
  minor :: i64
  patch :: i64
  prerelease :: string
  buildMetadata :: string

definition NewParsedSemVer :: "i64 \<Rightarrow> i64 \<Rightarrow> i64 \<Rightarrow> string \<Rightarrow> string \<Rightarrow> ParsedSemVer" where
  "NewParsedSemVer ma mi pa pre meta =
     \<lparr>original = [], major = ma, minor = mi, patch = pa, prerelease = pre, buildMetadata = meta\<rparr>"

definition CoreVersion :: "ParsedSemVer \<Rightarrow> string" where
  "CoreVersion v = itoa (major v) @ CHR ''.'' # itoa (minor v) @ CHR ''.'' # itoa (patch v)"

definition PrereleaseTokens :: "ParsedSemVer \<Rightarrow> string list" where
  "PrereleaseTokens v = (if prerelease v = [] then [] else split_on CHR ''.'' (prerelease v))"

definition VersionWithPrerelease :: "ParsedSemVer \<Rightarrow> string" where
  "VersionWithPrerelease v =
     CoreVersion v @ (if prerelease v \<noteq> [] then CHR ''-'' # prerelease v else [])"

definition VersionWithBuildMetadata :: "ParsedSemVer \<Rightarrow> string" where
  "VersionWithBuildMetadata v =
     CoreVersion v @ (if buildMetadata v \<noteq> [] then CHR ''+'' # buildMetadata v else [])"

definition String :: "ParsedSemVer \<Rightarrow> string" where
  "String v = CoreVersion v
     @ (if prerelease v \<noteq> [] then CHR ''-'' # prerelease v else [])
     @ (if buildMetadata v \<noteq> [] then CHR ''+'' # buildMetadata v else [])"

definition assemblePrereleaseStringFromTokens :: "string list \<Rightarrow> string" where
  "assemblePrereleaseStringFromTokens ts =
     foldl (\<lambda>b t. (if b \<noteq> [] then b @ [CHR ''.''] else b) @ t) [] ts"

fun drop_first_snapshot :: "string list \<Rightarrow> string list \<times> bool" where
  "drop_first_snapshot [] = ([], False)"
| "drop_first_snapshot (t # ts) =
     (if t = ''SNAPSHOT'' then (ts, True)
      else case drop_first_snapshot ts of (r, b) \<Rightarrow> (t # r, b))"

definition ExtractSnapshotFromVersionString :: "ParsedSemVer \<Rightarrow> string \<times> bool" where
  "ExtractSnapshotFromVersionString v =
     (case drop_first_snapshot (PrereleaseTokens v) of (ts, isSnapshot) \<Rightarrow>
        (CoreVersion v
           @ (if ts \<noteq> [] then CHR ''-'' # assemblePrereleaseStringFromTokens ts else [])
           @ (if buildMetadata v \<noteq> [] then CHR ''+'' # buildMetadata v else []),
         isSnapshot))"

definition IsSnapshot :: "ParsedSemVer \<Rightarrow> bool" where
  "IsSnapshot v = (''SNAPSHOT'' \<in> set (PrereleaseTokens v))"

section \<open>Independent releases\<close>

text \<open>The regular expression \<^verbatim>\<open>^build\d{12}\<close>.\<close>

definition independent_match :: "string \<Rightarrow> bool" where
  "independent_match s \<longleftrightarrow>
     has_prefix s ''build'' \<and> 17 \<le> length s \<and> list_all is_digit (take 12 (drop 5 s))"

definition IsIndependentRelease :: "ParsedSemVer \<Rightarrow> bool" where
  "IsIndependentRelease v = independent_match (buildMetadata v)"

definition IndependentBuildID :: "ParsedSemVer \<Rightarrow> string" where
  "IndependentBuildID v =
     (if independent_match (buildMetadata v) then take 17 (buildMetadata v) else [])"

section \<open>Comparison\<close>

definition compareIndependentBuild :: "ParsedSemVer \<Rightarrow> ParsedSemVer \<Rightarrow> bool" where
  "compareIndependentBuild v w =
     (if \<not> IsIndependentRelease v \<and> \<not> IsIndependentRelease w then False
      else if IsIndependentRelease v \<noteq> IsIndependentRelease w then \<not> IsIndependentRelease v
      else IndependentBuildID v < IndependentBuildID w)"

text \<open>\<^verbatim>\<open>numericPrereleaseTokenRegEx.MatchString\<close>; the expression is not anchored.\<close>

definition isTokenNumeric :: "string \<Rightarrow> bool" where
  "isTokenNumeric t = list_ex is_digit t"

text \<open>The first result of \<^verbatim>\<open>strconv.Atoi\<close>, with the error ignored.\<close>

definition atoi_ignore :: "string \<Rightarrow> i64" where
  "atoi_ignore t = fst (atoi_full t)"

fun compareTokens :: "string list \<Rightarrow> string list \<Rightarrow> bool" where
  "compareTokens (t # ts) (u # us) =
     (if isTokenNumeric t \<and> \<not> isTokenNumeric u then True
      else if \<not> isTokenNumeric t \<and> isTokenNumeric u then False
      else if isTokenNumeric t then
        (if atoi_ignore t \<noteq> atoi_ignore u then atoi_ignore t < atoi_ignore u
         else compareTokens ts us)
      else (if t \<noteq> u then t < u else compareTokens ts us))"
| "compareTokens ts us = (length ts < length us)"

definition comparePrerelease :: "ParsedSemVer \<Rightarrow> ParsedSemVer \<Rightarrow> bool" where
  "comparePrerelease v w =
     (if prerelease v \<noteq> [] \<and> prerelease w = [] then True
      else if prerelease v = [] \<and> prerelease w \<noteq> [] then False
      else compareTokens (split_on CHR ''.'' (prerelease v)) (split_on CHR ''.'' (prerelease w)))"

definition Less :: "ParsedSemVer \<Rightarrow> ParsedSemVer \<Rightarrow> bool" where
  "Less v w =
     (if major v \<noteq> major w then major v < major w
      else if minor v \<noteq> minor w then minor v < minor w
      else if patch v \<noteq> patch w then patch v < patch w
      else if IsIndependentRelease v \<or> IsIndependentRelease w then compareIndependentBuild v w
      else comparePrerelease v w)"

definition Equal :: "ParsedSemVer \<Rightarrow> ParsedSemVer \<Rightarrow> bool" where
  "Equal v w \<longleftrightarrow> \<not> Less v w \<and> \<not> Less w v"

definition CompareParsedSemVer :: "ParsedSemVer \<Rightarrow> ParsedSemVer \<Rightarrow> int" where
  "CompareParsedSemVer v w = (if Less v w then - 1 else if Less w v then 1 else 0)"

definition CompareNillableParsedSemVer :: "ParsedSemVer option \<Rightarrow> ParsedSemVer option \<Rightarrow> int" where
  "CompareNillableParsedSemVer a b =
     (case a of None \<Rightarrow> - 1
      | Some v \<Rightarrow> (case b of None \<Rightarrow> 1 | Some w \<Rightarrow> CompareParsedSemVer v w))"

section \<open>Parsing\<close>

definition is_alpha :: "char \<Rightarrow> bool" where
  "is_alpha c \<longleftrightarrow> (65 \<le> (of_char c :: nat) \<and> (of_char c :: nat) \<le> 90)
     \<or> (97 \<le> (of_char c :: nat) \<and> (of_char c :: nat) \<le> 122)"

definition is_ident_char :: "char \<Rightarrow> bool" where
  "is_ident_char c \<longleftrightarrow> is_digit c \<or> is_alpha c \<or> c = CHR ''-''"

text \<open>The alternatives \<^verbatim>\<open>0|[1-9]\d*\<close>, one prerelease identifier and one build identifier.\<close>

definition numeric_id :: "string \<Rightarrow> bool" where
  "numeric_id s \<longleftrightarrow> s \<noteq> [] \<and> list_all is_digit s \<and> (s = ''0'' \<or> hd s \<noteq> CHR ''0'')"

definition prerelease_id :: "string \<Rightarrow> bool" where
  "prerelease_id s \<longleftrightarrow> s \<noteq> [] \<and> list_all is_ident_char s
     \<and> (list_all is_digit s \<longrightarrow> numeric_id s)"

definition build_id :: "string \<Rightarrow> bool" where
  "build_id s \<longleftrightarrow> s \<noteq> [] \<and> list_all is_ident_char s"

definition prerelease_ok :: "string \<Rightarrow> bool" where
  "prerelease_ok s = list_all prerelease_id (split_on CHR ''.'' s)"

definition build_ok :: "string \<Rightarrow> bool" where
  "build_ok s = list_all build_id (split_on CHR ''.'' s)"

text \<open>One numeric group with the rest of the input after it.\<close>

definition take_number :: "string \<Rightarrow> (string \<times> string) option" where
  "take_number s =
     (let n = takeWhile is_digit s in if numeric_id n then Some (n, dropWhile is_digit s) else None)"

definition take_dot :: "string \<Rightarrow> string option" where
  "take_dot s = (case s of c # r \<Rightarrow> if c = CHR ''.'' then Some r else None | [] \<Rightarrow> None)"

definition take_build :: "string \<Rightarrow> string option" where
  "take_build s = (case s of [] \<Rightarrow> Some []
     | c # r \<Rightarrow> if c = CHR ''+'' \<and> build_ok r then Some r else None)"

definition take_tail :: "string \<Rightarrow> (string \<times> string) option" where
  "take_tail s = (case s of
       c # r \<Rightarrow>
         if c = CHR ''-'' then
           (let pre = takeWhile (\<lambda>x. x \<noteq> CHR ''+'') r; r' = dropWhile (\<lambda>x. x \<noteq> CHR ''+'') r
            in if prerelease_ok pre then map_option (\<lambda>b. (pre, b)) (take_build r') else None)
         else map_option (\<lambda>b. ([], b)) (take_build s)
     | [] \<Rightarrow> Some ([], []))"

definition semVerMatch :: "string \<Rightarrow> (string \<times> string \<times> string \<times> string \<times> string) option" where
  "semVerMatch s =
     Option.bind (take_number s) (\<lambda>(ma, r1).
     Option.bind (take_dot r1) (\<lambda>r2.
     Option.bind (take_number r2) (\<lambda>(mi, r3).
     Option.bind (take_dot r3) (\<lambda>r4.
     Option.bind (take_number r4) (\<lambda>(pa, r5).
     map_option (\<lambda>(pre, b). (ma, mi, pa, pre, b)) (take_tail r5))))))"

datatype version_error = VErrNoMatch | VErrMajor num_error | VErrMinor num_error | VErrPatch num_error

definition ParseVersion :: "string \<Rightarrow> version_error + ParsedSemVer" where
  "ParseVersion version =
     (case semVerMatch (trim_space version) of
        None \<Rightarrow> Inl VErrNoMatch
      | Some (ma, mi, pa, pre, b) \<Rightarrow>
          (case atoi ma of Inl e \<Rightarrow> Inl (VErrMajor e) | Inr vma \<Rightarrow>
          (case atoi mi of Inl e \<Rightarrow> Inl (VErrMinor e) | Inr vmi \<Rightarrow>
          (case atoi pa of Inl e \<Rightarrow> Inl (VErrPatch e) | Inr vpa \<Rightarrow>
             Inr \<lparr>original = version, major = vma, minor = vmi, patch = vpa,
                  prerelease = pre, buildMetadata = b\<rparr>))))"

section \<open>The order is the order of a key\<close>

text \<open>
  Each token is ranked by whether it holds a digit, then by its number or its text; the
  release kind ranks prereleases below releases below independent releases.
\<close>

definition token_key :: "string \<Rightarrow> nat \<times> int \<times> string" where
  "token_key t = (if isTokenNumeric t then (0, atoi_ignore t, []) else (1, 0, t))"

definition kind_key :: "ParsedSemVer \<Rightarrow> nat \<times> (nat \<times> int \<times> string) list \<times> string" where
  "kind_key v =
     (if IsIndependentRelease v then (2, [], IndependentBuildID v)
      else if prerelease v = [] then (1, [], [])
      else (0, map token_key (split_on CHR ''.'' (prerelease v)), []))"

definition sem_key ::
  "ParsedSemVer \<Rightarrow> int \<times> int \<times> int \<times> nat \<times> (nat \<times> int \<times> string) list \<times> string" where
  "sem_key v = (major v, minor v, patch v, kind_key v)"

lemma compareTokens_key: "compareTokens ts us \<longleftrightarrow> map token_key ts < map token_key us"
  by (induction ts us rule: compareTokens.induct) (auto simp: token_key_def)

lemma Less_iff_key: "Less v w \<longleftrightarrow> sem_key v < sem_key w"
  by (auto simp: Less_def sem_key_def kind_key_def compareIndependentBuild_def
      comparePrerelease_def compareTokens_key)

lemma Equal_iff_key: "Equal v w \<longleftrightarrow> sem_key v = sem_key w"
  by (auto simp: Equal_def Less_iff_key)

section \<open>Printing and parsing\<close>

lemma digit_char_digit_val [simp]: "is_digit c \<Longrightarrow> digit_char (digit_val c) = c"
  by (simp add: is_digit_def digit_char_def digit_val_def)

lemma digit_val_less [simp]: "is_digit c \<Longrightarrow> digit_val c < 10"
  by (auto simp: is_digit_def digit_val_def)

lemma digit_val_zero: "is_digit c \<Longrightarrow> digit_val c = 0 \<longleftrightarrow> c = CHR ''0''"
proof
  assume "is_digit c" "digit_val c = 0"
  then have "c = digit_char 0"
    by (metis digit_char_digit_val)
  then show "c = CHR ''0''"
    by simp
qed (simp add: digit_val_def)

lemma digits_val_pos:
  assumes "list_all is_digit s" "s \<noteq> []" "hd s \<noteq> CHR ''0''"
  shows "0 < digits_val s"
  using assms
proof (induction s rule: rev_induct)
  case (snoc c s)
  then show ?case
    using digit_val_zero[of c]
    by (cases "s = []") (auto simp: digits_val_snoc digits_val_def)
qed simp

lemma nat_str_digits_val:
  assumes "numeric_id s"
  shows "nat_str (digits_val s) = s"
proof -
  have "nat_str (digits_val s) = s"
    if "list_all is_digit s" "s \<noteq> []" "length s = 1 \<or> hd s \<noteq> CHR ''0''" for s
    using that
  proof (induction s rule: rev_induct)
    case (snoc c s)
    show ?case
    proof (cases "s = []")
      case True
      with snoc.prems show ?thesis
        by (subst nat_str.simps) (simp add: digits_val_def)
    next
      case False
      with snoc.prems have s: "list_all is_digit s" "hd s \<noteq> CHR ''0''" "is_digit c"
        by auto
      with False have "0 < digits_val s"
        by (simp add: digits_val_pos)
      with s False snoc.IH show ?thesis
        by (subst nat_str.simps) (simp add: digits_val_snoc)
    qed
  qed simp
  moreover have "list_all is_digit s" "s \<noteq> []" "length s = 1 \<or> hd s \<noteq> CHR ''0''"
    using assms by (auto simp: numeric_id_def)
  ultimately show ?thesis .
qed

lemma numeric_id_nat_str [simp]: "numeric_id (nat_str n)"
proof -
  have "hd (nat_str n) \<noteq> CHR ''0''" if "n \<noteq> 0"
    using that
  proof (induction n rule: nat_str.induct)
    case (1 n)
    show ?case
    proof (cases "n < 10")
      case True
      have "digit_char n \<noteq> CHR ''0''"
      proof
        assume "digit_char n = CHR ''0''"
        then have "digit_val (digit_char n) = 0"
          by (simp add: digit_val_def)
        with True 1 show False by simp
      qed
      with True show ?thesis
        by (subst nat_str.simps) simp
    next
      case False
      with 1 show ?thesis
        by (subst nat_str.simps) simp
    qed
  qed
  moreover have "nat_str 0 = ''0''"
    by (subst nat_str.simps) simp
  ultimately show ?thesis
    by (cases "n = 0") (simp_all add: numeric_id_def is_digit_def)
qed

lemma numeric_id_sign: "numeric_id s \<Longrightarrow> s \<noteq> [] \<and> hd s \<noteq> CHR ''-'' \<and> hd s \<noteq> CHR ''+''"
  by (cases s) (auto simp: numeric_id_def sign_not_digit)

lemma atoi_numeric_id:
  assumes "numeric_id s" "atoi s = Inr v"
  shows "v = int (digits_val s)"
proof -
  obtain c cs where s: "s = c # cs" "c \<noteq> CHR ''-''" "c \<noteq> CHR ''+''"
    using numeric_id_sign[OF assms(1)] by (cases s) auto
  then show ?thesis
    using assms(2)
    by (auto simp: atoi_def atoi_full_def Let_def split: if_splits)
qed

lemma itoa_atoi: "numeric_id s \<Longrightarrow> atoi s = Inr v \<Longrightarrow> itoa v = s"
  using atoi_numeric_id[of s v] nat_str_digits_val[of s] by (simp add: itoa_def)

lemma take_number_eq: "take_number s = Some (n, r) \<Longrightarrow> numeric_id n \<and> s = n @ r"
  by (auto simp: take_number_def Let_def split: if_splits)

lemma take_dot_eq: "take_dot s = Some r \<Longrightarrow> s = CHR ''.'' # r"
  by (auto simp: take_dot_def split: list.splits if_splits)

lemma take_build_eq:
  "take_build s = Some b \<Longrightarrow> s = (if b \<noteq> [] then CHR ''+'' # b else [])"
  by (auto simp: take_build_def build_ok_def build_id_def split: list.splits if_splits)

lemma prerelease_ok_not_Nil: "prerelease_ok pre \<Longrightarrow> pre \<noteq> []"
  by (auto simp: prerelease_ok_def prerelease_id_def)

lemma take_tail_eq:
  assumes "take_tail s = Some (pre, b)"
  shows "s = (if pre \<noteq> [] then CHR ''-'' # pre else []) @ (if b \<noteq> [] then CHR ''+'' # b else [])"
proof (cases s)
  case Nil
  with assms show ?thesis by (simp add: take_tail_def)
next
  case (Cons c r)
  show ?thesis
  proof (cases "c = CHR ''-''")
    case True
    with assms Cons have
      "pre = takeWhile (\<lambda>x. x \<noteq> CHR ''+'') r" "prerelease_ok pre"
      and b: "take_build (dropWhile (\<lambda>x. x \<noteq> CHR ''+'') r) = Some b"
      by (auto simp: take_tail_def Let_def split: if_splits)
    moreover have "r = takeWhile (\<lambda>x. x \<noteq> CHR ''+'') r @ dropWhile (\<lambda>x. x \<noteq> CHR ''+'') r"
      by simp
    ultimately have "r = pre @ (if b \<noteq> [] then CHR ''+'' # b else [])" "pre \<noteq> []"
      using take_build_eq[OF b] prerelease_ok_not_Nil by metis+
    with Cons True show ?thesis by simp
  next
    case False
    with assms Cons have "pre = []" "take_build s = Some b"
      by (auto simp: take_tail_def)
    then show ?thesis
      using take_build_eq by simp
  qed
qed

lemma semVerMatch_eq:
  assumes "semVerMatch s = Some (ma, mi, pa, pre, b)"
  shows "numeric_id ma \<and> numeric_id mi \<and> numeric_id pa \<and>
    s = ma @ CHR ''.'' # mi @ CHR ''.'' # pa
      @ (if pre \<noteq> [] then CHR ''-'' # pre else []) @ (if b \<noteq> [] then CHR ''+'' # b else [])"
  using assms
  by (auto simp: semVerMatch_def bind_eq_Some_conv
      dest!: take_number_eq take_dot_eq take_tail_eq)

text \<open>C39: A version that parses prints back to the text that was parsed, up to the white space
  around it.\<close>

theorem semver_parse_print:
  assumes "ParseVersion s = Inr v"
  shows "String v = trim_space s"
proof -
  obtain ma mi pa pre b where m: "semVerMatch (trim_space s) = Some (ma, mi, pa, pre, b)"
    using assms by (auto simp: ParseVersion_def split: option.splits)
  then have "atoi ma = Inr (major v)" "atoi mi = Inr (minor v)" "atoi pa = Inr (patch v)"
    "prerelease v = pre" "buildMetadata v = b"
    using assms by (auto simp: ParseVersion_def split: sum.splits)
  moreover from this have "itoa (major v) = ma" "itoa (minor v) = mi" "itoa (patch v) = pa"
    using semVerMatch_eq[OF m] itoa_atoi by blast+
  ultimately show ?thesis
    using semVerMatch_eq[OF m] by (simp add: String_def CoreVersion_def)
qed

theorem semver_parse_print_witness:
  "ParseVersion '' 9.3.0-SNAPSHOT+build1 '' =
     Inr \<lparr>original = '' 9.3.0-SNAPSHOT+build1 '', major = 9, minor = 3, patch = 0,
          prerelease = ''SNAPSHOT'', buildMetadata = ''build1''\<rparr>
   \<and> String \<lparr>original = '' 9.3.0-SNAPSHOT+build1 '', major = 9, minor = 3, patch = 0,
          prerelease = ''SNAPSHOT'', buildMetadata = ''build1''\<rparr> = ''9.3.0-SNAPSHOT+build1''"
proof -
  have parse: "ParseVersion '' 9.3.0-SNAPSHOT+build1 '' =
     Inr \<lparr>original = '' 9.3.0-SNAPSHOT+build1 '', major = 9, minor = 3, patch = 0,
          prerelease = ''SNAPSHOT'', buildMetadata = ''build1''\<rparr>"
    by code_simp
  moreover have "trim_space '' 9.3.0-SNAPSHOT+build1 '' = ''9.3.0-SNAPSHOT+build1''"
    by code_simp
  ultimately show ?thesis
    using semver_parse_print[OF parse] by simp
qed

text \<open>What a version that the parser can return looks like.\<close>

definition wf_version :: "ParsedSemVer \<Rightarrow> bool" where
  "wf_version v \<longleftrightarrow> 0 \<le> major v \<and> major v \<le> max_i64 \<and> 0 \<le> minor v \<and> minor v \<le> max_i64
     \<and> 0 \<le> patch v \<and> patch v \<le> max_i64
     \<and> (prerelease v = [] \<or> prerelease_ok (prerelease v))
     \<and> (buildMetadata v = [] \<or> build_ok (buildMetadata v))"

lemma itoa_nonneg: "0 \<le> i \<Longrightarrow> itoa i = nat_str (nat i)"
  by (simp add: itoa_def)

lemma take_number_nat_str:
  assumes "r = [] \<or> \<not> is_digit (hd r)"
  shows "take_number (nat_str n @ r) = Some (nat_str n, r)"
proof -
  have all: "\<forall>c\<in>set (nat_str n). is_digit c"
    using nat_str_digits[of n] by (simp add: list_all_iff)
  then have "takeWhile is_digit (nat_str n @ r) = nat_str n @ takeWhile is_digit r"
    "dropWhile is_digit (nat_str n @ r) = dropWhile is_digit r"
    by (simp_all add: takeWhile_append2 dropWhile_append2)
  moreover have "takeWhile is_digit r = []" "dropWhile is_digit r = r"
    using assms by (cases r; simp)+
  ultimately show ?thesis
    by (simp add: take_number_def Let_def)
qed

lemma ident_chars_split:
  assumes "list_all P (split_on c s)" "\<And>p. P p \<Longrightarrow> list_all Q p" "Q c"
  shows "list_all Q s"
proof -
  have "x = c \<or> (\<exists>p\<in>set (split_on c s). x \<in> set p)" if "x \<in> set s" for x
    using that by (induction s) (auto split: list.splits)
  then show ?thesis
    using assms by (fastforce simp: list_all_iff)
qed

lemma prerelease_chars: "prerelease_ok s \<Longrightarrow> list_all (\<lambda>c. is_ident_char c \<or> c = CHR ''.'') s"
  unfolding prerelease_ok_def
  by (rule ident_chars_split) (auto simp: prerelease_id_def list_all_iff)

lemma build_chars: "build_ok s \<Longrightarrow> list_all (\<lambda>c. is_ident_char c \<or> c = CHR ''.'') s"
  unfolding build_ok_def
  by (rule ident_chars_split) (auto simp: build_id_def list_all_iff)

lemma plus_not_ident: "\<not> is_ident_char CHR ''+''"
  by (simp add: is_ident_char_def is_digit_def is_alpha_def)

lemma ident_not_space: "is_ident_char c \<or> c = CHR ''.'' \<Longrightarrow> \<not> is_ascii_space c"
  by (auto simp: is_ident_char_def is_digit_def is_alpha_def is_ascii_space_def)

lemma prerelease_no_plus: "prerelease_ok s \<Longrightarrow> CHR ''+'' \<notin> set s"
  using prerelease_chars[of s] plus_not_ident by (auto simp: list_all_iff)

lemma take_tail_print:
  assumes "pre = [] \<or> prerelease_ok pre" "b = [] \<or> build_ok b"
  shows "take_tail ((if pre \<noteq> [] then CHR ''-'' # pre else [])
           @ (if b \<noteq> [] then CHR ''+'' # b else [])) = Some (pre, b)"
proof -
  have tb: "take_build (if b \<noteq> [] then CHR ''+'' # b else []) = Some b"
    using assms(2) by (auto simp: take_build_def)
  show ?thesis
  proof (cases "pre = []")
    case True
    then show ?thesis
      using tb by (cases "b = []") (auto simp: take_tail_def)
  next
    case False
    with assms(1) have ok: "prerelease_ok pre" and no: "CHR ''+'' \<notin> set pre"
      by (auto dest: prerelease_no_plus)
    have "\<forall>c\<in>set pre. c \<noteq> CHR ''+''"
      using no by auto
    then have "takeWhile (\<lambda>x. x \<noteq> CHR ''+'') (pre @ (if b \<noteq> [] then CHR ''+'' # b else [])) = pre"
      "dropWhile (\<lambda>x. x \<noteq> CHR ''+'') (pre @ (if b \<noteq> [] then CHR ''+'' # b else []))
        = (if b \<noteq> [] then CHR ''+'' # b else [])"
      by (auto simp: takeWhile_append2 dropWhile_append2)
    with False ok tb show ?thesis
      by (simp add: take_tail_def Let_def)
  qed
qed

lemma trim_space_id: "list_all (\<lambda>c. \<not> is_ascii_space c) s \<Longrightarrow> trim_space s = s"
proof -
  assume a: "list_all (\<lambda>c. \<not> is_ascii_space c) s"
  have drop: "dropWhile is_ascii_space t = t" if "list_all (\<lambda>c. \<not> is_ascii_space c) t" for t
    using that by (cases t) auto
  have "list_all (\<lambda>c. \<not> is_ascii_space c) (rev s)"
    using a by (simp add: list_all_iff)
  then show ?thesis
    using a by (simp add: trim_space_def drop)
qed

lemma punct_not_space [simp]:
  "\<not> is_ascii_space CHR ''.''" "\<not> is_ascii_space CHR ''-''" "\<not> is_ascii_space CHR ''+''"
  by (simp_all add: is_ascii_space_def)

lemma digits_no_space: "list_all (\<lambda>c. \<not> is_ascii_space c) (nat_str n)"
proof -
  have "\<not> is_ascii_space c" if "is_digit c" for c
    using that by (intro ident_not_space) (simp add: is_ident_char_def)
  then show ?thesis
    using nat_str_digits[of n] by (simp add: list_all_iff)
qed

lemma print_no_space:
  assumes "wf_version v"
  shows "list_all (\<lambda>c. \<not> is_ascii_space c) (String v)"
proof -
  have sub: "list_all (\<lambda>c. \<not> is_ascii_space c) s"
    if "list_all (\<lambda>c. is_ident_char c \<or> c = CHR ''.'') s" for s
    using that ident_not_space by (simp add: list_all_iff)
  have "prerelease v = [] \<or> list_all (\<lambda>c. \<not> is_ascii_space c) (prerelease v)"
    "buildMetadata v = [] \<or> list_all (\<lambda>c. \<not> is_ascii_space c) (buildMetadata v)"
    using assms sub prerelease_chars build_chars unfolding wf_version_def by blast+
  then show ?thesis
    using assms digits_no_space
    by (auto simp: String_def CoreVersion_def wf_version_def itoa_nonneg)
qed

text \<open>Printing a well-formed version and parsing the text gives the version back.\<close>

theorem semver_print_parse:
  assumes "wf_version v"
  shows "ParseVersion (String v) = Inr (v\<lparr>original := String v\<rparr>)"
proof -
  let ?tail = "(if prerelease v \<noteq> [] then CHR ''-'' # prerelease v else [])
    @ (if buildMetadata v \<noteq> [] then CHR ''+'' # buildMetadata v else [])"
  have str: "String v = nat_str (nat (major v)) @ CHR ''.'' # nat_str (nat (minor v))
      @ CHR ''.'' # nat_str (nat (patch v)) @ ?tail"
    using assms by (simp add: String_def CoreVersion_def wf_version_def itoa_nonneg)
  have tail: "take_tail ?tail = Some (prerelease v, buildMetadata v)"
    using assms by (intro take_tail_print) (auto simp: wf_version_def)
  have hd: "?tail = [] \<or> \<not> is_digit (hd ?tail)"
    by (auto simp: is_digit_def)
  have "semVerMatch (String v) = Some (nat_str (nat (major v)), nat_str (nat (minor v)),
      nat_str (nat (patch v)), prerelease v, buildMetadata v)"
    unfolding str semVerMatch_def
    using take_number_nat_str[OF hd] tail
    by (simp add: take_number_nat_str take_dot_def sign_not_digit)
  moreover have "atoi (nat_str (nat i)) = Inr i" if "0 \<le> i" "i \<le> max_i64" for i
    using atoi_nat_str[of "nat i"] that by simp
  ultimately show ?thesis
    using assms print_no_space[OF assms]
    by (simp add: ParseVersion_def trim_space_id wf_version_def)
qed

theorem semver_print_parse_witness:
  "ParseVersion (String (NewParsedSemVer 9 4 0 ''rc.1'' ''build202605290902''))
   = Inr ((NewParsedSemVer 9 4 0 ''rc.1'' ''build202605290902'')
       \<lparr>original := String (NewParsedSemVer 9 4 0 ''rc.1'' ''build202605290902'')\<rparr>)"
proof -
  have "wf_version (NewParsedSemVer 9 4 0 ''rc.1'' ''build202605290902'')"
    by code_simp
  then show ?thesis
    by (rule semver_print_parse)
qed

section \<open>The order of versions\<close>

text \<open>C40: \<^verbatim>\<open>Less\<close> is a strict weak order: it is irreflexive and transitive, the versions neither of
  which is less than the other form an equivalence, and the three-way comparison agrees with
  it in both directions.\<close>

theorem semver_less_strict_weak_order:
  "\<not> Less v v \<and> (Less u v \<and> Less v w \<longrightarrow> Less u w) \<and> (Equal u v \<and> Equal v w \<longrightarrow> Equal u w)
   \<and> (Equal u v \<and> Less v w \<longrightarrow> Less u w)
   \<and> CompareParsedSemVer v w = - CompareParsedSemVer w v
   \<and> (CompareParsedSemVer v w = 0 \<longleftrightarrow> Equal v w) \<and> (CompareParsedSemVer v w < 0 \<longleftrightarrow> Less v w)"
  by (auto simp: Less_iff_key Equal_iff_key CompareParsedSemVer_def)

theorem semver_less_strict_weak_order_witness:
  "Less (NewParsedSemVer 9 3 0 ''SNAPSHOT'' []) (NewParsedSemVer 9 3 0 [] [])
   \<and> Less (NewParsedSemVer 9 3 0 [] []) (NewParsedSemVer 9 3 0 [] ''build202605290902'')
   \<and> Less (NewParsedSemVer 9 3 0 ''SNAPSHOT'' []) (NewParsedSemVer 9 3 0 [] ''build202605290902'')"
proof -
  have "Less (NewParsedSemVer 9 3 0 ''SNAPSHOT'' []) (NewParsedSemVer 9 3 0 [] [])"
    "Less (NewParsedSemVer 9 3 0 [] []) (NewParsedSemVer 9 3 0 [] ''build202605290902'')"
    by code_simp+
  then show ?thesis
    using semver_less_strict_weak_order[of "NewParsedSemVer 9 3 0 [] []"
        "NewParsedSemVer 9 3 0 ''SNAPSHOT'' []" "NewParsedSemVer 9 3 0 [] ''build202605290902''"]
    by simp
qed

text \<open>
  The precedence of prerelease identifiers as semver.org states it: identifiers of digits only
  compare as numbers, the others as text, a number is below a text, and of two lists with a
  common prefix the shorter one is below.
\<close>

fun semver_org_less :: "string list \<Rightarrow> string list \<Rightarrow> bool" where
  "semver_org_less [] us = (us \<noteq> [])"
| "semver_org_less (t # ts) [] = False"
| "semver_org_less (t # ts) (u # us) =
     (if t = u then semver_org_less ts us
      else if list_all is_digit t \<and> list_all is_digit u then digits_val t < digits_val u
      else if list_all is_digit t then True
      else if list_all is_digit u then False
      else t < u)"

text \<open>A token that is a number the comparison can read, or that has no digit at all.\<close>

definition plain_token :: "string \<Rightarrow> bool" where
  "plain_token t \<longleftrightarrow> numeric_id t \<and> int (digits_val t) \<le> max_i64
     \<or> t \<noteq> [] \<and> list_all (\<lambda>c. \<not> is_digit c) t"

lemma numeric_id_inj: "numeric_id s \<Longrightarrow> numeric_id t \<Longrightarrow> digits_val s = digits_val t \<longleftrightarrow> s = t"
  by (metis nat_str_digits_val)

lemma plain_token_cases:
  assumes "plain_token t"
  obtains (number) "isTokenNumeric t" "list_all is_digit t" "atoi_ignore t = int (digits_val t)"
      "numeric_id t"
    | (word) "\<not> isTokenNumeric t" "\<not> list_all is_digit t"
proof -
  consider (num) "numeric_id t" "int (digits_val t) \<le> max_i64"
    | (wrd) "t \<noteq> []" "list_all (\<lambda>c. \<not> is_digit c) t"
    using assms by (auto simp: plain_token_def)
  then show thesis
  proof cases
    case num
    have "list_all is_digit t" "isTokenNumeric t"
      using num by (cases t; auto simp: numeric_id_def isTokenNumeric_def)+
    moreover have "atoi t = Inr (int (digits_val t))"
      using atoi_nat_str[OF num(2)] nat_str_digits_val[OF num(1)] by simp
    then have "atoi_ignore t = int (digits_val t)"
      by (auto simp: atoi_def atoi_ignore_def split: prod.splits option.splits)
    ultimately show thesis
      using num number by blast
  next
    case wrd
    then show thesis
      using word by (cases t) (auto simp: isTokenNumeric_def list_ex_iff list_all_iff)
  qed
qed

lemma compareTokens_org:
  assumes "list_all plain_token ts" "list_all plain_token us"
  shows "compareTokens ts us = semver_org_less ts us"
  using assms
proof (induction ts us rule: semver_org_less.induct)
  case (3 t ts u us)
  then have p: "plain_token t" "plain_token u" and IH: "t = u \<Longrightarrow> compareTokens ts us = semver_org_less ts us"
    by simp_all
  from p(1) show ?case
    by (cases rule: plain_token_cases; cases rule: plain_token_cases[OF p(2)])
      (use IH in \<open>auto simp: numeric_id_inj\<close>)
qed auto

text \<open>On two versions with the same core and no independent build whose prerelease tokens
  are numbers or words without digits, \<^verbatim>\<open>Less\<close> is the precedence of semver.org: a prerelease is
  below its release and two prereleases compare token by token.\<close>

theorem semver_less_is_org_precedence:
  assumes "\<not> IsIndependentRelease v" "\<not> IsIndependentRelease w"
    and "major v = major w" "minor v = minor w" "patch v = patch w"
    and "list_all plain_token (PrereleaseTokens v)" "list_all plain_token (PrereleaseTokens w)"
  shows "Less v w \<longleftrightarrow>
    (if PrereleaseTokens w = [] then PrereleaseTokens v \<noteq> []
     else PrereleaseTokens v \<noteq> [] \<and> semver_org_less (PrereleaseTokens v) (PrereleaseTokens w))"
proof (cases "prerelease v = [] \<or> prerelease w = []")
  case True
  with assms show ?thesis
    by (auto simp: Less_def PrereleaseTokens_def comparePrerelease_def isTokenNumeric_def)
next
  case False
  with assms show ?thesis
    by (simp add: Less_def PrereleaseTokens_def comparePrerelease_def compareTokens_org)
qed

theorem semver_less_is_org_precedence_witness:
  "Less (NewParsedSemVer 1 0 0 ''alpha.2'' []) (NewParsedSemVer 1 0 0 ''alpha.11'' [])
   \<and> semver_org_less [''alpha'', ''2''] [''alpha'', ''11'']"
proof -
  have "\<not> IsIndependentRelease (NewParsedSemVer 1 0 0 ''alpha.2'' [])"
    "\<not> IsIndependentRelease (NewParsedSemVer 1 0 0 ''alpha.11'' [])"
    "list_all plain_token (PrereleaseTokens (NewParsedSemVer 1 0 0 ''alpha.2'' []))"
    "list_all plain_token (PrereleaseTokens (NewParsedSemVer 1 0 0 ''alpha.11'' []))"
    "PrereleaseTokens (NewParsedSemVer 1 0 0 ''alpha.2'' []) = [''alpha'', ''2'']"
    "PrereleaseTokens (NewParsedSemVer 1 0 0 ''alpha.11'' []) = [''alpha'', ''11'']"
    "semver_org_less [''alpha'', ''2''] [''alpha'', ''11'']"
    by code_simp+
  then show ?thesis
    using semver_less_is_org_precedence[of "NewParsedSemVer 1 0 0 ''alpha.2'' []"
        "NewParsedSemVer 1 0 0 ''alpha.11'' []"]
    by (simp add: NewParsedSemVer_def)
qed

lemma digit_in_nat_str: "isTokenNumeric (w @ nat_str n)"
  using nat_str_digits[of n] nat_str_not_Nil[of n]
  by (cases "nat_str n") (auto simp: isTokenNumeric_def list_ex_iff)

lemma atoi_ignore_word: "\<not> is_digit c \<Longrightarrow> c \<noteq> CHR ''-'' \<Longrightarrow> c \<noteq> CHR ''+'' \<Longrightarrow> atoi_ignore (c # s) = 0"
  by (simp add: atoi_ignore_def atoi_full_def Let_def)

text \<open>The release candidates \<^verbatim>\<open>rc\<close>n of one core version all compare equal, whatever their
  numbers: a token that holds a digit but is not a number is read as 0.\<close>

theorem semver_release_candidates_equal:
  "Equal (NewParsedSemVer ma mi pa (''rc'' @ nat_str n) []) (NewParsedSemVer ma mi pa (''rc'' @ nat_str m) [])"
proof -
  have "CHR ''.'' \<notin> set (nat_str k)" for k
    using nat_str_digits[of k] sign_not_digit(3) by (auto simp: list_all_iff)
  then have "split_on CHR ''.'' (''rc'' @ nat_str k) = [''rc'' @ nat_str k]" for k
    by (intro split_on_atom) simp
  moreover have "token_key (''rc'' @ nat_str k) = (0, 0, [])" for k
    using digit_in_nat_str[of "''rc''" k] atoi_ignore_word[of "CHR ''r''" "CHR ''c'' # nat_str k"]
    by (simp add: token_key_def is_digit_def)
  ultimately have "sem_key (NewParsedSemVer ma mi pa (''rc'' @ nat_str k) []) = (ma, mi, pa, 0, [(0, 0, [])], [])" for k
    by (simp add: sem_key_def kind_key_def NewParsedSemVer_def IsIndependentRelease_def independent_match_def)
  then show ?thesis
    by (simp add: Equal_iff_key)
qed

end
