(* ===== verification/Float64.thy ===== *)
theory Float64
  imports Prelude Complex_Main
begin

text \<open>
  Go's \<^verbatim>\<open>float64\<close>, as far as the agent uses it: the IEEE 754 binary64 values with rounding to
  the nearest even, their arithmetic and comparison, conversion from an integer, reading a
  decimal literal, and the formats \<^verbatim>\<open>%f\<close>, \<^verbatim>\<open>'f'\<close> with the fewest digits and \<^verbatim>\<open>'E'\<close> with the
  fewest digits of \<^verbatim>\<open>strconv.FormatFloat\<close>.

  A finite value is a sign and a rational magnitude, so that -0 is kept apart from 0.
\<close>

datatype f64 = NaN | Infty bool | Fin bool rat

fun bitlen :: "nat \<Rightarrow> nat" where
  "bitlen n = (if n = 0 then 0 else Suc (bitlen (n div 2)))"

declare bitlen.simps [simp del]

definition pow2 :: "int \<Rightarrow> rat" where
  "pow2 e = (if 0 \<le> e then 2 ^ nat e else 1 / 2 ^ nat (- e))"

definition pow10 :: "int \<Rightarrow> rat" where
  "pow10 e = (if 0 \<le> e then 10 ^ nat e else 1 / 10 ^ nat (- e))"

text \<open>The exponent of the binade of a positive rational.\<close>

definition ilog2 :: "rat \<Rightarrow> int" where
  "ilog2 r = (case quotient_of r of (n, d) \<Rightarrow>
     let e = int (bitlen (nat n)) - int (bitlen (nat d)) in if r < pow2 e then e - 1 else e)"

definition round_even :: "rat \<Rightarrow> int" where
  "round_even q = (let f = \<lfloor>q\<rfloor>; d = q - of_int f in
     if d < 1 / 2 then f else if 1 / 2 < d then f + 1 else if even f then f else f + 1)"

text \<open>Rounding a magnitude: 53 bits of precision, subnormal below 2 to the -1022.\<close>

definition round_f64 :: "bool \<Rightarrow> rat \<Rightarrow> f64" where
  "round_f64 s r =
     (if r = 0 then Fin s 0
      else let u = pow2 (max (ilog2 r) (- 1022) - 52);
               m = of_int (round_even (r / u)) * u
           in if pow2 1024 \<le> m then Infty s else Fin s m)"

section \<open>Arithmetic and comparison\<close>

definition f64_of_int :: "int \<Rightarrow> f64" where
  "f64_of_int i = round_f64 (i < 0) (of_int \<bar>i\<bar>)"

definition fin_val :: "bool \<Rightarrow> rat \<Rightarrow> rat" where
  "fin_val s m = (if s then - m else m)"

fun f64_add :: "f64 \<Rightarrow> f64 \<Rightarrow> f64" where
  "f64_add (Fin s a) (Fin t b) =
     (let v = fin_val s a + fin_val t b
      in if v = 0 then Fin (s \<and> t) 0 else round_f64 (v < 0) \<bar>v\<bar>)"
| "f64_add (Infty s) (Infty t) = (if s = t then Infty s else NaN)"
| "f64_add (Infty s) (Fin _ _) = Infty s"
| "f64_add (Fin _ _) (Infty t) = Infty t"
| "f64_add _ _ = NaN"

fun f64_neg :: "f64 \<Rightarrow> f64" where
  "f64_neg NaN = NaN"
| "f64_neg (Infty s) = Infty (\<not> s)"
| "f64_neg (Fin s m) = Fin (\<not> s) m"

definition f64_sub :: "f64 \<Rightarrow> f64 \<Rightarrow> f64" where
  "f64_sub a b = f64_add a (f64_neg b)"

fun f64_mul :: "f64 \<Rightarrow> f64 \<Rightarrow> f64" where
  "f64_mul (Fin s a) (Fin t b) = round_f64 (s \<noteq> t) (a * b)"
| "f64_mul (Infty s) (Infty t) = Infty (s \<noteq> t)"
| "f64_mul (Infty s) (Fin t b) = (if b = 0 then NaN else Infty (s \<noteq> t))"
| "f64_mul (Fin s a) (Infty t) = (if a = 0 then NaN else Infty (s \<noteq> t))"
| "f64_mul _ _ = NaN"

fun f64_div :: "f64 \<Rightarrow> f64 \<Rightarrow> f64" where
  "f64_div (Fin s a) (Fin t b) =
     (if b = 0 then (if a = 0 then NaN else Infty (s \<noteq> t)) else round_f64 (s \<noteq> t) (a / b))"
| "f64_div (Infty s) (Fin t _) = Infty (s \<noteq> t)"
| "f64_div (Fin s _) (Infty t) = Fin (s \<noteq> t) 0"
| "f64_div _ _ = NaN"

fun f64_eq :: "f64 \<Rightarrow> f64 \<Rightarrow> bool" where
  "f64_eq (Fin s a) (Fin t b) = (fin_val s a = fin_val t b)"
| "f64_eq (Infty s) (Infty t) = (s = t)"
| "f64_eq _ _ = False"

fun f64_lt :: "f64 \<Rightarrow> f64 \<Rightarrow> bool" where
  "f64_lt (Fin s a) (Fin t b) = (fin_val s a < fin_val t b)"
| "f64_lt (Infty s) (Infty t) = (s \<and> \<not> t)"
| "f64_lt (Infty s) (Fin _ _) = s"
| "f64_lt (Fin _ _) (Infty t) = (\<not> t)"
| "f64_lt _ _ = False"

definition f64_le :: "f64 \<Rightarrow> f64 \<Rightarrow> bool" where
  "f64_le a b \<longleftrightarrow> f64_lt a b \<or> f64_eq a b"

lemma f64_lt_irrefl [simp]: "\<not> f64_lt a a"
  by (cases a) auto

lemma f64_eq_sym: "f64_eq a b \<longleftrightarrow> f64_eq b a"
  by (cases "(a, b)" rule: f64_eq.cases) auto

lemma f64_trichotomy:
  "a \<noteq> NaN \<Longrightarrow> b \<noteq> NaN \<Longrightarrow> f64_lt a b \<or> f64_eq a b \<or> f64_lt b a"
  by (cases "(a, b)" rule: f64_eq.cases) auto

section \<open>Reading decimals\<close>

text \<open>
  \<^verbatim>\<open>strconv.ParseFloat\<close> on the shape the expression grammar gives it: an optional sign,
  digits, a point, digits. A value beyond the largest finite one is a range error.
\<close>

definition parse_float :: "string \<Rightarrow> num_error + f64" where
  "parse_float s =
     (let neg = (case s of c # _ \<Rightarrow> c = CHR ''-'' | [] \<Rightarrow> False);
          t = (case s of c # cs \<Rightarrow> if c = CHR ''-'' \<or> c = CHR ''+'' then cs else s | [] \<Rightarrow> []);
          whole = takeWhile is_digit t; rest = dropWhile is_digit t;
          frac = (case rest of c # cs \<Rightarrow> if c = CHR ''.'' then cs else rest | [] \<Rightarrow> [])
      in if whole @ frac = [] \<or> \<not> list_all is_digit frac then Inl ErrSyntax
         else case round_f64 neg (of_nat (digits_val (whole @ frac)) / 10 ^ length frac) of
             Fin sg m \<Rightarrow> Inr (Fin sg m) | _ \<Rightarrow> Inl ErrRange)"

section \<open>Formatting\<close>

definition pad_left :: "nat \<Rightarrow> string \<Rightarrow> string" where
  "pad_left n s = replicate (n - length s) CHR ''0'' @ s"

definition sign_str :: "bool \<Rightarrow> string" where
  "sign_str s = (if s then ''-'' else [])"

definition inf_str :: "bool \<Rightarrow> string" where
  "inf_str s = (if s then ''-Inf'' else ''+Inf'')"

text \<open>\<^verbatim>\<open>fmt.Sprintf("%f", v)\<close>: six digits after the point.\<close>

fun fmt_f :: "f64 \<Rightarrow> string" where
  "fmt_f NaN = ''NaN''"
| "fmt_f (Infty s) = inf_str s"
| "fmt_f (Fin s m) =
     (let n = nat (round_even (m * 1000000))
      in sign_str s @ nat_str (n div 1000000) @ CHR ''.'' # pad_left 6 (nat_str (n mod 1000000)))"

text \<open>The decimal exponent of a positive rational, with fuel above the range of the type.\<close>

fun ilog10_up :: "nat \<Rightarrow> int \<Rightarrow> rat \<Rightarrow> int" where
  "ilog10_up 0 p r = p"
| "ilog10_up (Suc k) p r = (if pow10 (p + 1) \<le> r then ilog10_up k (p + 1) r else p)"

fun ilog10_down :: "nat \<Rightarrow> int \<Rightarrow> rat \<Rightarrow> int" where
  "ilog10_down 0 p r = p"
| "ilog10_down (Suc k) p r = (if r < pow10 p then ilog10_down k (p - 1) r else p)"

definition ilog10 :: "rat \<Rightarrow> int" where
  "ilog10 r = (if 1 \<le> r then ilog10_up 400 0 r else ilog10_down 400 0 r)"

definition reads_back :: "rat \<Rightarrow> rat \<Rightarrow> bool" where
  "reads_back m c = (case round_f64 False c of Fin _ x \<Rightarrow> x = m | _ \<Rightarrow> False)"

text \<open>
  The fewest digits that read back as the value, the closest such decimal: 17 digits are
  always enough. The result is the digits' number and the exponent of its last digit.
\<close>

fun shortest_from :: "nat \<Rightarrow> nat \<Rightarrow> int \<Rightarrow> rat \<Rightarrow> int \<times> int" where
  "shortest_from 0 n p m = (round_even (m / pow10 (p + 1 - int n)), p + 1 - int n)"
| "shortest_from (Suc k) n p m =
     (let e = p + 1 - int n; q = m / pow10 e; lo = \<lfloor>q\<rfloor>; hi = lo + 1;
          oklo = reads_back m (of_int lo * pow10 e); okhi = reads_back m (of_int hi * pow10 e)
      in if oklo \<and> okhi then (round_even q, e)
         else if oklo then (lo, e) else if okhi then (hi, e)
         else shortest_from k (n + 1) p m)"

fun strip_zeros :: "string \<Rightarrow> string" where
  "strip_zeros s = (if s \<noteq> [] \<and> last s = CHR ''0'' then strip_zeros (butlast s) else s)"

declare strip_zeros.simps [simp del]

text \<open>The digits d1 d2 ... and the exponent dp with value 0.d1d2... * 10^dp; none for zero.\<close>

definition shortest :: "rat \<Rightarrow> string \<times> int" where
  "shortest m =
     (if m = 0 then ([], 0)
      else case shortest_from 16 1 (ilog10 m) m of (d, e) \<Rightarrow>
        let ds = nat_str (nat d) in (strip_zeros ds, int (length ds) + e))"

fun format_f :: "f64 \<Rightarrow> string" where
  "format_f NaN = ''NaN''"
| "format_f (Infty s) = inf_str s"
| "format_f (Fin s m) =
     (case shortest m of (ds, dp) \<Rightarrow>
        let k = nat dp; whole = take k ds @ replicate (k - length ds) CHR ''0'';
            frac = replicate (nat (- dp)) CHR ''0'' @ drop k ds
        in sign_str s @ (if whole = [] then ''0'' else whole)
             @ (if drop k ds = [] then [] else CHR ''.'' # frac))"

fun format_E :: "f64 \<Rightarrow> string" where
  "format_E NaN = ''NaN''"
| "format_E (Infty s) = inf_str s"
| "format_E (Fin s m) =
     (case shortest m of (ds, dp) \<Rightarrow>
        let e = (if ds = [] then 0 else dp - 1)
        in sign_str s @ (case ds of [] \<Rightarrow> ''0'' | [d] \<Rightarrow> [d] | d # r \<Rightarrow> d # CHR ''.'' # r)
             @ CHR ''E'' # (if e < 0 then CHR ''-'' else CHR ''+'') # pad_left 2 (nat_str (nat \<bar>e\<bar>)))"

end
