(* ===== verification/Go_Value.thy ===== *)
theory Go_Value
  imports Float64
begin

text \<open>
  The dynamic values (\<^verbatim>\<open>interface{}\<close>) that configuration, variables and conditions are made of.

  A Go map is an association list with its keys in strictly increasing order, so two maps are
  equal exactly when their entries are; reading, writing and iterating are defined on it. The
  order in which Go ranges over a map is not fixed by the language: an iteration takes a ranking
  of the keys as an argument, and the theorems hold for every ranking.
\<close>

datatype gval = GNil | GNull | GStr string | GInt i64 | GUint nat | GFloat f64 | GBool bool
  | GList "gval list" | GMap "(string \<times> gval) list"

text \<open>\<^verbatim>\<open>GNil\<close> is the nil interface, \<^verbatim>\<open>GNull\<close> the pointer \<^verbatim>\<open>eql.Null\<close>.\<close>

fun map_put :: "string \<Rightarrow> 'v \<Rightarrow> (string \<times> 'v) list \<Rightarrow> (string \<times> 'v) list" where
  "map_put k v [] = [(k, v)]"
| "map_put k v ((k', v') # m) =
     (if k < k' then (k, v) # (k', v') # m
      else if k = k' then (k, v) # m
      else (k', v') # map_put k v m)"

definition sorted_map :: "(string \<times> 'v) list \<Rightarrow> bool" where
  "sorted_map m = sorted_wrt (<) (map fst m)"

definition map_of_entries :: "(string \<times> 'v) list \<Rightarrow> (string \<times> 'v) list" where
  "map_of_entries es = foldl (\<lambda>m (k, v). map_put k v m) [] es"

definition iterate :: "(string \<Rightarrow> nat) \<Rightarrow> (string \<times> 'v) list \<Rightarrow> (string \<times> 'v) list" where
  "iterate rk m = sort_key (\<lambda>(k, _). rk k) m"

lemma set_map_put_keys: "set (map fst (map_put k v m)) = insert k (set (map fst m))"
proof (induction m)
  case (Cons e m)
  then show ?case
    by (cases e) (simp add: insert_commute)
qed simp

lemma sorted_map_Nil [simp]: "sorted_map []"
  by (simp add: sorted_map_def)

lemma sorted_map_put [simp]: "sorted_map m \<Longrightarrow> sorted_map (map_put k v m)"
proof (induction m)
  case (Cons e m)
  obtain k' v' where e: "e = (k', v')" by (cases e)
  have "\<forall>x\<in>set (map fst (map_put k v m)). k' < x" if "k' < k"
    using Cons.prems that unfolding set_map_put_keys by (auto simp: e sorted_map_def)
  then show ?case
    using Cons by (auto simp: e sorted_map_def)
qed (simp add: sorted_map_def)

lemma map_of_map_put: "sorted_map m \<Longrightarrow> map_of (map_put k v m) = (map_of m)(k \<mapsto> v)"
proof (induction m)
  case (Cons e m)
  then show ?case
    by (cases e) (auto simp: sorted_map_def fun_eq_iff)
qed simp

lemma sorted_map_distinct: "sorted_map m \<Longrightarrow> distinct (map fst m)"
  by (simp add: sorted_map_def strict_sorted_iff)

lemma sorted_map_entries [simp]: "sorted_map (map_of_entries es)"
proof -
  have "sorted_map m \<Longrightarrow> sorted_map (foldl (\<lambda>m (k, v). map_put k v m) m es)" for m
    by (induction es arbitrary: m) auto
  then show ?thesis
    by (simp add: map_of_entries_def)
qed

lemma map_of_entries_last: "map_of (map_of_entries es) = map_of (rev es)"
proof -
  have "sorted_map m \<Longrightarrow>
      map_of (foldl (\<lambda>m (k, v). map_put k v m) m es) = map_of m ++ map_of (rev es)" for m
  proof (induction es arbitrary: m)
    case (Cons e es)
    then show ?case
      by (cases e) (simp add: map_of_map_put map_add_def fun_eq_iff split: option.splits)
  qed simp
  then show ?thesis
    by (simp add: map_of_entries_def)
qed

lemma set_iterate [simp]: "set (iterate rk m) = set m"
  by (simp add: iterate_def)

lemma length_iterate [simp]: "length (iterate rk m) = length m"
  by (simp add: iterate_def)

lemma insort_key_map: "insort_key f (g x) (map g xs) = map g (insort_key (\<lambda>x. f (g x)) x xs)"
  by (induction xs) simp_all

lemma sort_key_map: "sort_key f (map g xs) = map g (sort_key (\<lambda>x. f (g x)) xs)"
  by (induction xs) (simp_all add: insort_key_map)

text \<open>Mapping over the values does not change the order of an iteration.\<close>

lemma iterate_map_values:
  "iterate rk (map (\<lambda>(k, x). (k, f k x)) m) = map (\<lambda>(k, x). (k, f k x)) (iterate rk m)"
proof -
  have "(\<lambda>e. case case e of (k, x) \<Rightarrow> (k, f k x) of (k, _) \<Rightarrow> rk k) = (\<lambda>(k, _). rk k)"
    by (auto simp: fun_eq_iff)
  then show ?thesis
    by (simp add: iterate_def sort_key_map)
qed

lemma map_put_last: "(\<And>k'. k' \<in> fst ` set m \<Longrightarrow> k' < k) \<Longrightarrow> map_put k v m = m @ [(k, v)]"
proof (induction m)
  case (Cons e m)
  then show ?case
    by (cases e) (force dest: less_not_sym)
qed simp

lemma map_of_entries_sorted: "sorted_map m \<Longrightarrow> map_of_entries m = m"
proof -
  have "sorted_map (acc @ m) \<Longrightarrow> foldl (\<lambda>m (k, v). map_put k v m) acc m = acc @ m" for acc
  proof (induction m arbitrary: acc)
    case (Cons e m)
    obtain k v where e: "e = (k, v)" by (cases e)
    have "map_put k v acc = acc @ [(k, v)]"
      using Cons.prems by (intro map_put_last) (auto simp: sorted_map_def e sorted_wrt_append)
    with Cons.IH[of "acc @ [(k, v)]"] Cons.prems e show ?case by simp
  qed simp
  from this[of "[]"] show "sorted_map m \<Longrightarrow> map_of_entries m = m"
    by (simp add: map_of_entries_def)
qed

end
