(* ===== verification/Eql_Ops.thy ===== *)
theory Eql_Ops
  imports Go_Value
begin

text \<open>
  The operators and functions of the condition language, \<^verbatim>\<open>internal/pkg/eql\<close>: \<^verbatim>\<open>compare.go\<close>,
  \<^verbatim>\<open>math.go\<close> and \<^verbatim>\<open>methods*.go\<close>.

  An error carries the operator or function it names. \<^verbatim>\<open>EPanic\<close> stands for a run-time panic of
  the Go code, which the evaluator recovers. The regular expression engine that \<^verbatim>\<open>match\<close> calls
  is an argument: a pattern either does not compile or is a predicate on the input.
\<close>

datatype eql_error = EIncompatible string | EDivZero string | EArity string nat
  | EArg string nat | ENumber | ERegexp | EUnknownFunction string | ENotBoolean | EEscapedVar
  | EUnknownVar | ENoStore | EToNumber string | EToFloat string | EPanic

type_synonym 'a eres = "eql_error + 'a"

type_synonym regexp_engine = "string \<Rightarrow> (string \<Rightarrow> bool) option"

section \<open>Comparison\<close>

text \<open>The loops over elements: they stop at the first error and at the first decisive result.\<close>

fun loop_all :: "bool eres list \<Rightarrow> bool eres" where
  "loop_all [] = Inr True"
| "loop_all (Inl e # rs) = Inl e"
| "loop_all (Inr b # rs) = (if b then loop_all rs else Inr False)"

fun loop_any :: "bool eres list \<Rightarrow> bool eres" where
  "loop_any [] = Inr False"
| "loop_any (Inl e # rs) = Inl e"
| "loop_any (Inr b # rs) = (if b then Inr True else loop_any rs)"

definition keys :: "(string \<times> 'v) list \<Rightarrow> string list" where
  "keys m = sort (map fst m)"

definition keysEqual :: "(string \<times> 'v) list \<Rightarrow> (string \<times> 'w) list \<Rightarrow> bool" where
  "keysEqual v1 v2 = (keys v1 = keys v2)"

text \<open>Reading a key a map does not hold gives the zero value of \<^verbatim>\<open>interface{}\<close>.\<close>

definition map_get :: "(string \<times> gval) list \<Rightarrow> string \<Rightarrow> gval" where
  "map_get m k = (case map_of m k of Some v \<Rightarrow> v | None \<Rightarrow> GNil)"

lemma size_zip_left: "(a, b) \<in> set (zip v w) \<Longrightarrow> size a < Suc (size_list size v)"
  by (auto dest!: set_zip_leftD simp: less_Suc_eq_le size_list_estimation')

lemma size_map_value: "(k, x) \<in> set m \<Longrightarrow> size x < Suc (size_list (size_prod (\<lambda>x. 0) size) m)"
  by (rule le_imp_less_Suc, rule size_list_estimation') auto

function compareEQ :: "(string \<Rightarrow> nat) \<Rightarrow> gval \<Rightarrow> gval \<Rightarrow> bool eres" where
  "compareEQ rk left right =
     (case left of
        GNull \<Rightarrow> Inr (right = GNull)
      | GBool v \<Rightarrow> (case right of GBool r \<Rightarrow> Inr (r = v) | _ \<Rightarrow> Inr False)
      | GInt v \<Rightarrow> (case right of GNull \<Rightarrow> Inr False | GInt r \<Rightarrow> Inr (v = r)
          | GFloat r \<Rightarrow> Inr (f64_eq (f64_of_int v) r) | _ \<Rightarrow> Inl (EIncompatible ''==''))
      | GFloat v \<Rightarrow> (case right of GNull \<Rightarrow> Inr False | GInt r \<Rightarrow> Inr (f64_eq v (f64_of_int r))
          | GFloat r \<Rightarrow> Inr (f64_eq v r) | _ \<Rightarrow> Inl (EIncompatible ''==''))
      | GStr v \<Rightarrow> (case right of GStr r \<Rightarrow> Inr (r = v) | _ \<Rightarrow> Inr False)
      | GList v \<Rightarrow> (case right of
            GList r \<Rightarrow> if length v \<noteq> length r then Inr False
              else loop_all (map (\<lambda>(a, b). compareEQ rk a b) (zip v r))
          | _ \<Rightarrow> Inr False)
      | GMap v \<Rightarrow> (case right of
            GMap r \<Rightarrow> if \<not> keysEqual v r then Inr False
              else loop_all (map snd (iterate rk (map (\<lambda>(k, x). (k, compareEQ rk x (map_get r k))) v)))
          | _ \<Rightarrow> Inr False)
      | _ \<Rightarrow> Inl (EIncompatible ''==''))"
  by pat_completeness auto
termination
  by (relation "measure (\<lambda>(rk, l, r). size l)") (auto dest: size_zip_left size_map_value)

function compareNEQ :: "(string \<Rightarrow> nat) \<Rightarrow> gval \<Rightarrow> gval \<Rightarrow> bool eres" where
  "compareNEQ rk left right =
     (case left of
        GNull \<Rightarrow> Inr (right \<noteq> GNull)
      | GBool v \<Rightarrow> (case right of GBool r \<Rightarrow> Inr (r \<noteq> v) | _ \<Rightarrow> Inr True)
      | GInt v \<Rightarrow> (case right of GNull \<Rightarrow> Inr True | GInt r \<Rightarrow> Inr (v \<noteq> r)
          | GFloat r \<Rightarrow> Inr (\<not> f64_eq (f64_of_int v) r) | _ \<Rightarrow> Inl (EIncompatible ''==''))
      | GFloat v \<Rightarrow> (case right of GNull \<Rightarrow> Inr True | GInt r \<Rightarrow> Inr (\<not> f64_eq v (f64_of_int r))
          | GFloat r \<Rightarrow> Inr (\<not> f64_eq v r) | _ \<Rightarrow> Inl (EIncompatible ''==''))
      | GStr v \<Rightarrow> (case right of GStr r \<Rightarrow> Inr (r \<noteq> v) | _ \<Rightarrow> Inr True)
      | GList v \<Rightarrow> (case right of
            GList r \<Rightarrow> if length v \<noteq> length r then Inr True
              else loop_any (map (\<lambda>(a, b). compareNEQ rk a b) (zip v r))
          | _ \<Rightarrow> Inr True)
      | GMap v \<Rightarrow> (case right of
            GMap r \<Rightarrow> if \<not> keysEqual v r then Inr True
              else loop_any (map snd (iterate rk (map (\<lambda>(k, x). (k, compareNEQ rk x (map_get r k))) v)))
          | _ \<Rightarrow> Inr True)
      | _ \<Rightarrow> Inl (EIncompatible ''!=''))"
  by pat_completeness auto
termination
  by (relation "measure (\<lambda>(rk, l, r). size l)") (auto dest: size_zip_left size_map_value)

declare compareEQ.simps [simp del] compareNEQ.simps [simp del]

definition compareLT :: "gval \<Rightarrow> gval \<Rightarrow> bool eres" where
  "compareLT left right = (case left of
       GInt v \<Rightarrow> (case right of GInt r \<Rightarrow> Inr (v < r) | GFloat r \<Rightarrow> Inr (f64_lt (f64_of_int v) r)
         | _ \<Rightarrow> Inl (EIncompatible ''<''))
     | GFloat v \<Rightarrow> (case right of GInt r \<Rightarrow> Inr (f64_lt v (f64_of_int r)) | GFloat r \<Rightarrow> Inr (f64_lt v r)
         | _ \<Rightarrow> Inl (EIncompatible ''<''))
     | _ \<Rightarrow> Inl (EIncompatible ''<''))"

definition compareLTE :: "gval \<Rightarrow> gval \<Rightarrow> bool eres" where
  "compareLTE left right = (case left of
       GInt v \<Rightarrow> (case right of GInt r \<Rightarrow> Inr (v \<le> r) | GFloat r \<Rightarrow> Inr (f64_le (f64_of_int v) r)
         | _ \<Rightarrow> Inl (EIncompatible ''<=''))
     | GFloat v \<Rightarrow> (case right of GInt r \<Rightarrow> Inr (f64_le v (f64_of_int r)) | GFloat r \<Rightarrow> Inr (f64_le v r)
         | _ \<Rightarrow> Inl (EIncompatible ''<=''))
     | _ \<Rightarrow> Inl (EIncompatible ''<=''))"

definition compareGT :: "gval \<Rightarrow> gval \<Rightarrow> bool eres" where
  "compareGT left right = (case left of
       GInt v \<Rightarrow> (case right of GInt r \<Rightarrow> Inr (v > r) | GFloat r \<Rightarrow> Inr (f64_lt r (f64_of_int v))
         | _ \<Rightarrow> Inl (EIncompatible ''>''))
     | GFloat v \<Rightarrow> (case right of GInt r \<Rightarrow> Inr (f64_lt (f64_of_int r) v) | GFloat r \<Rightarrow> Inr (f64_lt r v)
         | _ \<Rightarrow> Inl (EIncompatible ''>''))
     | _ \<Rightarrow> Inl (EIncompatible ''>''))"

definition compareGTE :: "gval \<Rightarrow> gval \<Rightarrow> bool eres" where
  "compareGTE left right = (case left of
       GInt v \<Rightarrow> (case right of GInt r \<Rightarrow> Inr (v \<ge> r) | GFloat r \<Rightarrow> Inr (f64_le r (f64_of_int v))
         | _ \<Rightarrow> Inl (EIncompatible ''>=''))
     | GFloat v \<Rightarrow> (case right of GInt r \<Rightarrow> Inr (f64_le (f64_of_int r) v) | GFloat r \<Rightarrow> Inr (f64_le r v)
         | _ \<Rightarrow> Inl (EIncompatible ''>=''))
     | _ \<Rightarrow> Inl (EIncompatible ''>=''))"

definition logicalAND :: "gval \<Rightarrow> gval \<Rightarrow> bool eres" where
  "logicalAND left right = (case (left, right) of
       (GBool l, GBool r) \<Rightarrow> Inr (l \<and> r) | _ \<Rightarrow> Inl (EIncompatible ''and''))"

definition logicalOR :: "gval \<Rightarrow> gval \<Rightarrow> bool eres" where
  "logicalOR left right = (case (left, right) of
       (GBool l, GBool r) \<Rightarrow> Inr (l \<or> r) | _ \<Rightarrow> Inl (EIncompatible ''and''))"

section \<open>Arithmetic\<close>

text \<open>Integer results wrap around at 64 bits.\<close>

definition mathAdd :: "gval \<Rightarrow> gval \<Rightarrow> gval eres" where
  "mathAdd left right = (case left of
       GInt v \<Rightarrow> (case right of GInt r \<Rightarrow> Inr (GInt (wrap64 (v + r)))
         | GFloat r \<Rightarrow> Inr (GFloat (f64_add (f64_of_int v) r)) | _ \<Rightarrow> Inl (EIncompatible ''+''))
     | GFloat v \<Rightarrow> (case right of GInt r \<Rightarrow> Inr (GFloat (f64_add v (f64_of_int r)))
         | GFloat r \<Rightarrow> Inr (GFloat (f64_add v r)) | _ \<Rightarrow> Inl (EIncompatible ''+''))
     | _ \<Rightarrow> Inl (EIncompatible ''+''))"

definition mathSub :: "gval \<Rightarrow> gval \<Rightarrow> gval eres" where
  "mathSub left right = (case left of
       GInt v \<Rightarrow> (case right of GInt r \<Rightarrow> Inr (GInt (wrap64 (v - r)))
         | GFloat r \<Rightarrow> Inr (GFloat (f64_sub (f64_of_int v) r)) | _ \<Rightarrow> Inl (EIncompatible ''-''))
     | GFloat v \<Rightarrow> (case right of GInt r \<Rightarrow> Inr (GFloat (f64_sub v (f64_of_int r)))
         | GFloat r \<Rightarrow> Inr (GFloat (f64_sub v r)) | _ \<Rightarrow> Inl (EIncompatible ''-''))
     | _ \<Rightarrow> Inl (EIncompatible ''-''))"

definition mathMul :: "gval \<Rightarrow> gval \<Rightarrow> gval eres" where
  "mathMul left right = (case left of
       GInt v \<Rightarrow> (case right of GInt r \<Rightarrow> Inr (GInt (wrap64 (v * r)))
         | GFloat r \<Rightarrow> Inr (GFloat (f64_mul (f64_of_int v) r)) | _ \<Rightarrow> Inl (EIncompatible ''*''))
     | GFloat v \<Rightarrow> (case right of GInt r \<Rightarrow> Inr (GFloat (f64_mul v (f64_of_int r)))
         | GFloat r \<Rightarrow> Inr (GFloat (f64_mul v r)) | _ \<Rightarrow> Inl (EIncompatible ''*''))
     | _ \<Rightarrow> Inl (EIncompatible ''*''))"

definition f64_is_zero :: "f64 \<Rightarrow> bool" where
  "f64_is_zero f = f64_eq f (Fin False 0)"

definition mathDiv :: "gval \<Rightarrow> gval \<Rightarrow> gval eres" where
  "mathDiv left right = (case left of
       GInt v \<Rightarrow> (case right of
           GInt r \<Rightarrow> if r = 0 then Inl (EDivZero ''/'') else Inr (GInt (quot64 v r))
         | GFloat r \<Rightarrow> if f64_is_zero r then Inl (EDivZero ''/'')
             else Inr (GFloat (f64_div (f64_of_int v) r))
         | _ \<Rightarrow> Inl (EIncompatible ''/''))
     | GFloat v \<Rightarrow> (case right of
           GInt r \<Rightarrow> if r = 0 then Inl (EDivZero ''/'') else Inr (GFloat (f64_div v (f64_of_int r)))
         | GFloat r \<Rightarrow> if f64_is_zero r then Inl (EDivZero ''/'') else Inr (GFloat (f64_div v r))
         | _ \<Rightarrow> Inl (EIncompatible ''/''))
     | _ \<Rightarrow> Inl (EIncompatible ''/''))"

definition mathMod :: "gval \<Rightarrow> gval \<Rightarrow> gval eres" where
  "mathMod left right = (case left of
       GInt v \<Rightarrow> (case right of
           GInt r \<Rightarrow> if r = 0 then Inl (EDivZero ''%'') else Inr (GInt (rem64 v r))
         | _ \<Rightarrow> Inl (EIncompatible ''%''))
     | _ \<Rightarrow> Inl (EIncompatible ''%''))"

section \<open>Functions\<close>

text \<open>Elements with a comma between them, the last one without.\<close>

fun comma_list :: "string list \<Rightarrow> string" where
  "comma_list [] = []"
| "comma_list [s] = s"
| "comma_list (s # t # r) = s @ CHR '','' # comma_list (t # r)"

fun toString :: "(string \<Rightarrow> nat) \<Rightarrow> gval \<Rightarrow> string" where
  "toString rk GNull = ''null''"
| "toString rk (GStr s) = s"
| "toString rk (GInt i) = itoa i"
| "toString rk (GFloat f) = format_E f"
| "toString rk (GBool b) = (if b then ''true'' else ''false'')"
| "toString rk (GList xs) = CHR ''['' # comma_list (map (toString rk) xs) @ '']''"
| "toString rk (GMap m) =
     CHR ''{'' # comma_list (map (\<lambda>(k, s). k @ CHR '':'' # s)
       (iterate rk (map (\<lambda>(k, x). (k, toString rk x)) m))) @ ''}''"
| "toString rk (GUint n) = ''%!s(uint64='' @ nat_str n @ '')''"
| "toString rk GNil = ''%!s(<nil>)''"

text \<open>\<^verbatim>\<open>reflect.DeepEqual\<close>: the same type and contents; floats compare with \<^verbatim>\<open>==\<close>.\<close>

function deep_equal :: "gval \<Rightarrow> gval \<Rightarrow> bool" where
  "deep_equal a b = (case (a, b) of
       (GFloat x, GFloat y) \<Rightarrow> f64_eq x y
     | (GList xs, GList ys) \<Rightarrow>
         length xs = length ys \<and> list_all (\<lambda>(x, y). deep_equal x y) (zip xs ys)
     | (GMap m, GMap w) \<Rightarrow>
         length m = length w
         \<and> list_all (\<lambda>(k, x). case map_of w k of Some y \<Rightarrow> deep_equal x y | None \<Rightarrow> False) m
     | _ \<Rightarrow> a = b)"
  by pat_completeness auto
termination
  by (relation "measure (\<lambda>(a, b). size a)") (auto dest: size_zip_left size_map_value)

declare deep_equal.simps [simp del]

definition arrayContains :: "gval list \<Rightarrow> gval eres" where
  "arrayContains args = (case args of
       a # checks \<Rightarrow>
         if checks = [] then Inl (EArity ''arrayContains'' 1)
         else (case a of
             GNull \<Rightarrow> Inr (GBool False)
           | GList xs \<Rightarrow> Inr (GBool (list_ex (\<lambda>check. list_ex (\<lambda>i. deep_equal i check) xs) checks))
           | _ \<Rightarrow> Inl (EArg ''arrayContains'' 0))
     | [] \<Rightarrow> Inl (EArity ''arrayContains'' 0))"

fun hasKey_loop :: "(string \<times> gval) list \<Rightarrow> nat \<Rightarrow> gval list \<Rightarrow> gval eres" where
  "hasKey_loop d i [] = Inr (GBool False)"
| "hasKey_loop d i (check # rest) = (case check of
       GStr c \<Rightarrow> if map_of d c \<noteq> None then Inr (GBool True) else hasKey_loop d (i + 1) rest
     | _ \<Rightarrow> Inl (EArg ''hasKey'' (i + 1)))"

definition hasKey :: "gval list \<Rightarrow> gval eres" where
  "hasKey args = (case args of
       d # checks \<Rightarrow>
         if checks = [] then Inl (EArity ''hasKey'' 1)
         else (case d of
             GNull \<Rightarrow> Inr (GBool False)
           | GMap m \<Rightarrow> hasKey_loop m 0 checks
           | _ \<Rightarrow> Inl (EArg ''hasKey'' 0))
     | [] \<Rightarrow> Inl (EArity ''hasKey'' 0))"

definition length_fn :: "gval list \<Rightarrow> gval eres" where
  "length_fn args = (case args of
       [a] \<Rightarrow> (case a of
           GNull \<Rightarrow> Inr (GInt 0)
         | GStr s \<Rightarrow> Inr (GInt (int (length s)))
         | GList xs \<Rightarrow> Inr (GInt (int (length xs)))
         | GMap m \<Rightarrow> Inr (GInt (int (length m)))
         | _ \<Rightarrow> Inl (EArg ''length'' 0))
     | _ \<Rightarrow> Inl (EArity ''length'' (length args)))"

text \<open>The five arithmetic functions check that there are two arguments.\<close>

definition add :: "gval list \<Rightarrow> gval eres" where
  "add args = (case args of [x, y] \<Rightarrow> mathAdd x y | _ \<Rightarrow> Inl (EArity ''add'' (length args)))"

definition subtract :: "gval list \<Rightarrow> gval eres" where
  "subtract args = (case args of [x, y] \<Rightarrow> mathSub x y | _ \<Rightarrow> Inl (EArity ''subtract'' (length args)))"

definition multiply :: "gval list \<Rightarrow> gval eres" where
  "multiply args = (case args of [x, y] \<Rightarrow> mathMul x y | _ \<Rightarrow> Inl (EArity ''multiply'' (length args)))"

definition divide_fn :: "gval list \<Rightarrow> gval eres" where
  "divide_fn args = (case args of [x, y] \<Rightarrow> mathDiv x y | _ \<Rightarrow> Inl (EArity ''divide'' (length args)))"

definition modulo_fn :: "gval list \<Rightarrow> gval eres" where
  "modulo_fn args = (case args of [x, y] \<Rightarrow> mathMod x y | _ \<Rightarrow> Inl (EArity ''modulo'' (length args)))"

definition concat_fn :: "(string \<Rightarrow> nat) \<Rightarrow> gval list \<Rightarrow> gval eres" where
  "concat_fn rk args = Inr (GStr (concat (map (toString rk) args)))"

definition endsWith :: "(string \<Rightarrow> nat) \<Rightarrow> gval list \<Rightarrow> gval eres" where
  "endsWith rk args = (case args of
       [a, b] \<Rightarrow> Inr (GBool (has_suffix (toString rk a) (toString rk b)))
     | _ \<Rightarrow> Inl (EArity ''endsWith'' (length args)))"

definition startsWith :: "(string \<Rightarrow> nat) \<Rightarrow> gval list \<Rightarrow> gval eres" where
  "startsWith rk args = (case args of
       [a, b] \<Rightarrow> Inr (GBool (has_prefix (toString rk a) (toString rk b)))
     | _ \<Rightarrow> Inl (EArity ''startsWith'' (length args)))"

definition stringContains :: "(string \<Rightarrow> nat) \<Rightarrow> gval list \<Rightarrow> gval eres" where
  "stringContains rk args = (case args of
       [a, b] \<Rightarrow> Inr (GBool (contains_sub (toString rk a) (toString rk b)))
     | _ \<Rightarrow> Inl (EArity ''stringContains'' (length args)))"

definition str :: "(string \<Rightarrow> nat) \<Rightarrow> gval list \<Rightarrow> gval eres" where
  "str rk args = (case args of
       [a] \<Rightarrow> Inr (GStr (toString rk a))
     | _ \<Rightarrow> Inl (EArity ''string'' (length args)))"

text \<open>
  \<^verbatim>\<open>input[start:]\<close> panics when \<^verbatim>\<open>start\<close> is out of range, and \<^verbatim>\<open>strings.Index\<close> gives -1 when there
  is no occurrence.
\<close>

definition index_from :: "string \<Rightarrow> string \<Rightarrow> i64 \<Rightarrow> gval eres" where
  "index_from input substring start =
     (if start < 0 \<or> int (length input) < start then Inl EPanic
      else Inr (GInt (wrap64 (start +
        (case index_of (drop (nat start) input) substring of Some i \<Rightarrow> int i | None \<Rightarrow> - 1)))))"

definition indexOf :: "(string \<Rightarrow> nat) \<Rightarrow> gval list \<Rightarrow> gval eres" where
  "indexOf rk args = (case args of
       [a, b] \<Rightarrow> index_from (toString rk a) (toString rk b) 0
     | [a, b, c] \<Rightarrow> (case c of
           GInt s \<Rightarrow> index_from (toString rk a) (toString rk b) s
         | _ \<Rightarrow> Inl (EArg ''indexOf'' 2))
     | _ \<Rightarrow> Inl (EArity ''indexOf'' (length args)))"

fun match_loop :: "regexp_engine \<Rightarrow> string \<Rightarrow> nat \<Rightarrow> gval list \<Rightarrow> gval eres" where
  "match_loop rx input i [] = Inr (GBool False)"
| "match_loop rx input i (reg # rest) = (case reg of
       GStr r \<Rightarrow> (case rx r of
           None \<Rightarrow> Inl ERegexp
         | Some p \<Rightarrow> if p input then Inr (GBool True) else match_loop rx input (i + 1) rest)
     | _ \<Rightarrow> Inl (EArg ''match'' (i + 1)))"

definition match :: "(string \<Rightarrow> nat) \<Rightarrow> regexp_engine \<Rightarrow> gval list \<Rightarrow> gval eres" where
  "match rk rx args = (case args of
       a # regs \<Rightarrow>
         if regs = [] then Inl (EArity ''match'' 1) else match_loop rx (toString rk a) 0 regs
     | [] \<Rightarrow> Inl (EArity ''match'' 0))"

text \<open>\<^verbatim>\<open>strconv.ParseInt(s, base, 64)\<close>; every error is None.\<close>

definition lower :: "char \<Rightarrow> char" where
  "lower c = (if 65 \<le> (of_char c :: nat) \<and> (of_char c :: nat) \<le> 90
     then char_of ((of_char c :: nat) + 32) else c)"

definition digit36 :: "char \<Rightarrow> nat option" where
  "digit36 c =
     (if is_digit c then Some (digit_val c)
      else let l = (of_char (lower c) :: nat) in if 97 \<le> l \<and> l \<le> 122 then Some (l - 87) else None)"

fun digits_base :: "nat \<Rightarrow> nat \<Rightarrow> string \<Rightarrow> nat option" where
  "digits_base b n [] = Some n"
| "digits_base b n (c # cs) = (case digit36 c of
       Some d \<Rightarrow> if d < b then digits_base b (n * b + d) cs else None
     | None \<Rightarrow> None)"

text \<open>The placement of underscores that base 0 allows: each between digits, or after a prefix.\<close>

fun underscores_ok :: "bool \<Rightarrow> char \<Rightarrow> string \<Rightarrow> bool" where
  "underscores_ok hex saw [] = (saw \<noteq> CHR ''_'')"
| "underscores_ok hex saw (c # cs) =
     (if is_digit c \<or> hex \<and> (let l = (of_char (lower c) :: nat) in 97 \<le> l \<and> l \<le> 102)
      then underscores_ok hex CHR ''0'' cs
      else if c = CHR ''_'' then saw = CHR ''0'' \<and> underscores_ok hex CHR ''_'' cs
      else saw \<noteq> CHR ''_'' \<and> underscores_ok hex CHR ''!'' cs)"

definition underscoreOK :: "string \<Rightarrow> bool" where
  "underscoreOK s = (case s of
       c0 # c1 # r \<Rightarrow>
         if c0 = CHR ''0'' \<and> lower c1 \<in> {CHR ''b'', CHR ''o'', CHR ''x''}
         then underscores_ok (lower c1 = CHR ''x'') CHR ''0'' r
         else underscores_ok False CHR ''^'' s
     | _ \<Rightarrow> underscores_ok False CHR ''^'' s)"

definition base_prefix :: "string \<Rightarrow> nat \<times> string" where
  "base_prefix s = (case s of
       c0 # r \<Rightarrow>
         if c0 \<noteq> CHR ''0'' then (10, s)
         else (case r of
             c1 # c2 # r' \<Rightarrow>
               if lower c1 = CHR ''b'' then (2, c2 # r')
               else if lower c1 = CHR ''o'' then (8, c2 # r')
               else if lower c1 = CHR ''x'' then (16, c2 # r')
               else (8, r)
           | _ \<Rightarrow> (8, r))
     | [] \<Rightarrow> (10, []))"

definition parse_uint :: "string \<Rightarrow> int \<Rightarrow> nat option" where
  "parse_uint s base =
     (if s = [] then None
      else if 2 \<le> base \<and> base \<le> 36 then digits_base (nat base) 0 s
      else if base = 0 then
        (case base_prefix s of (b, ds) \<Rightarrow>
           if CHR ''_'' \<in> set ds \<and> \<not> underscoreOK s then None
           else digits_base b 0 (filter (\<lambda>c. c \<noteq> CHR ''_'') ds))
      else None)"

definition parse_int :: "string \<Rightarrow> int \<Rightarrow> i64 option" where
  "parse_int s base =
     (let neg = (case s of c # _ \<Rightarrow> c = CHR ''-'' | [] \<Rightarrow> False);
          u = (case s of c # cs \<Rightarrow> if c = CHR ''-'' \<or> c = CHR ''+'' then cs else s | [] \<Rightarrow> [])
      in case parse_uint u base of
           None \<Rightarrow> None
         | Some n \<Rightarrow> let v = (if neg then - int n else int n) in if in_i64 v then Some v else None)"

definition number :: "(string \<Rightarrow> nat) \<Rightarrow> gval list \<Rightarrow> gval eres" where
  "number rk args =
     (let convert = (\<lambda>a base. case parse_int (trim_prefix (toString rk a) ''0x'') base of
            Some n \<Rightarrow> Inr (GInt n) | None \<Rightarrow> Inl ENumber)
      in case args of
           [a] \<Rightarrow> convert a 10
         | [a, b] \<Rightarrow> (case b of GInt base \<Rightarrow> convert a base | _ \<Rightarrow> Inl (EArg ''number'' 1))
         | _ \<Rightarrow> Inl (EArity ''number'' (length args)))"

text \<open>The registry of functions.\<close>

definition methods :: "(string \<Rightarrow> nat) \<Rightarrow> regexp_engine \<Rightarrow> (string \<times> (gval list \<Rightarrow> gval eres)) list" where
  "methods rk rx =
    [(''arrayContains'', arrayContains), (''hasKey'', hasKey), (''length'', length_fn),
     (''add'', add), (''subtract'', subtract), (''multiply'', multiply), (''divide'', divide_fn),
     (''modulo'', modulo_fn), (''concat'', concat_fn rk), (''endsWith'', endsWith rk),
     (''indexOf'', indexOf rk), (''match'', match rk rx), (''number'', number rk),
     (''startsWith'', startsWith rk), (''string'', str rk), (''stringContains'', stringContains rk)]"

section \<open>Laws of the operators\<close>

text \<open>Two comparisons with opposite answers, failing together.\<close>

fun opposite :: "bool eres \<Rightarrow> bool eres \<Rightarrow> bool" where
  "opposite (Inr a) (Inr b) = (b = (\<not> a))"
| "opposite (Inl _) (Inl _) = True"
| "opposite _ _ = False"

lemma opposite_loops:
  "list_all2 opposite rs ss \<Longrightarrow> opposite (loop_all rs) (loop_any ss)"
proof (induction rs ss rule: list_all2_induct)
  case (Cons r rs s ss)
  then show ?case
    by (cases r; cases s) auto
qed simp

lemma opposite_compare: "opposite (compareEQ rk a b) (compareNEQ rk a b)"
proof (induction rk a b rule: compareEQ.induct)
  case (1 rk l r)
  show ?case
  proof (cases l)
    case (GList v)
    show ?thesis
    proof (cases r)
      case r: (GList w)
      have "list_all2 opposite (map (\<lambda>(a, b). compareEQ rk a b) (zip v w))
          (map (\<lambda>(a, b). compareNEQ rk a b) (zip v w))" if "length v = length w"
        using 1(1)[OF GList r] that by (auto simp: list_all2_map1 list_all2_map2 list_all2_same)
      then show ?thesis
        using opposite_loops GList r by (subst compareEQ.simps, subst compareNEQ.simps) auto
    qed (subst compareEQ.simps, subst compareNEQ.simps, simp add: GList)+
  next
    case (GMap v)
    show ?thesis
    proof (cases r)
      case r: (GMap w)
      have "list_all2 opposite
          (map snd (map (\<lambda>(k, x). (k, compareEQ rk x (map_get w k))) (iterate rk v)))
          (map snd (map (\<lambda>(k, x). (k, compareNEQ rk x (map_get w k))) (iterate rk v)))"
        if "keysEqual v w"
        using 1(2)[OF GMap r] that by (auto simp: list_all2_map1 list_all2_map2 list_all2_same)
      then show ?thesis
        using opposite_loops GMap r
        by (subst compareEQ.simps, subst compareNEQ.simps) (auto simp: iterate_map_values)
    qed (subst compareEQ.simps, subst compareNEQ.simps, simp add: GMap)+
  qed (subst compareEQ.simps, subst compareNEQ.simps, simp split: gval.split)+
qed

text \<open>The operator \<^verbatim>\<open>!=\<close> is the negation of \<^verbatim>\<open>==\<close> on every pair of operands, lists and
  dictionaries included, and the two fail on the same operands.\<close>

theorem eql_neq_is_not_eq: "compareNEQ rk a b = Inr (\<not> v) \<longleftrightarrow> compareEQ rk a b = Inr v"
  using opposite_compare[of rk a b] by (cases "compareEQ rk a b"; cases "compareNEQ rk a b") auto

lemma compareEQ_numbers:
  "compareEQ rk (GInt i) (GInt j) = Inr (i = j)"
  "compareEQ rk (GInt i) (GFloat g) = Inr (f64_eq (f64_of_int i) g)"
  "compareEQ rk (GFloat f) (GInt j) = Inr (f64_eq f (f64_of_int j))"
  "compareEQ rk (GFloat f) (GFloat g) = Inr (f64_eq f g)"
  by (simp_all add: compareEQ.simps)

text \<open>The orderings fit together: \<^verbatim>\<open>>\<close> and \<^verbatim>\<open>>=\<close> are \<^verbatim>\<open><\<close> and \<^verbatim>\<open><=\<close> with the operands exchanged,
  and \<^verbatim>\<open><=\<close> answers whether \<^verbatim>\<open><\<close> or \<^verbatim>\<open>==\<close> holds, on numbers of either kind and on nothing else.\<close>

theorem eql_orderings_agree:
  "(compareGT a b = Inr x \<longleftrightarrow> compareLT b a = Inr x)
   \<and> (compareGTE a b = Inr x \<longleftrightarrow> compareLTE b a = Inr x)
   \<and> (compareLTE a b = Inr x \<longleftrightarrow>
       (\<exists>l e. compareLT a b = Inr l \<and> compareEQ rk a b = Inr e \<and> x = (l \<or> e)))"
  by (cases a; cases b)
    (auto simp: compareGT_def compareLT_def compareGTE_def compareLTE_def compareEQ_numbers f64_le_def)

lemma digits_base_10: "list_all is_digit s \<Longrightarrow> digits_base 10 n s = Some (foldl (\<lambda>a c. 10 * a + digit_val c) n s)"
  by (induction s arbitrary: n) (auto simp: digit36_def is_digit_def digit_val_def mult.commute)

lemma parse_int_itoa: "in_i64 i \<Longrightarrow> parse_int (itoa i) 10 = Some i"
proof -
  assume i: "in_i64 i"
  have d: "parse_uint (nat_str n) 10 = Some n" for n
    using digits_val_nat_str[of n] by (simp add: parse_uint_def digits_base_10 digits_val_def)
  show ?thesis
  proof (cases "i < 0")
    case True
    with i d show ?thesis by (simp add: parse_int_def itoa_def Let_def)
  next
    case False
    obtain c cs where s: "nat_str (nat i) = c # cs" by (cases "nat_str (nat i)") auto
    then have "c \<noteq> CHR ''-''" "c \<noteq> CHR ''+''"
      using nat_str_hd sign_not_digit by metis+
    with False i d[of "nat i"] s show ?thesis by (simp add: parse_int_def itoa_def Let_def)
  qed
qed

lemma itoa_no_0x: "\<not> has_prefix (itoa i) ''0x''"
proof
  assume "has_prefix (itoa i) ''0x''"
  then have "CHR ''x'' \<in> set (itoa i)" by (auto simp: has_prefix_iff)
  moreover have "CHR ''x'' \<notin> set (nat_str n)" for n
    using nat_str_digits[of n] by (auto simp: list_all_iff is_digit_def)
  ultimately show False by (auto simp: itoa_def split: if_splits)
qed

text \<open>\<^verbatim>\<open>number(string(i))\<close> gives the integer i back, for every 64-bit integer.\<close>

theorem eql_number_of_string:
  assumes "in_i64 i"
  shows "rbind (str rk [GInt i]) (\<lambda>s. number rk [s]) = Inr (GInt i)"
  using parse_int_itoa[OF assms] itoa_no_0x[of i]
  by (simp add: str_def number_def trim_prefix_def)

theorem eql_number_of_string_witness:
  "rbind (str (\<lambda>_. 0) [GInt (- 42)]) (\<lambda>s. number (\<lambda>_. 0) [s]) = Inr (GInt (- 42))"
  by (rule eql_number_of_string) (simp add: in_i64_def min_i64_def max_i64_def)

end
