(* ===== verification/Eql.thy ===== *)
theory Eql
  imports Eql_Ops
begin

text \<open>
  The evaluator of conditions: \<^verbatim>\<open>internal/pkg/eql/visitor.go\<close> and \<^verbatim>\<open>expression.go\<close>.

  The parse tree has one constructor per labelled alternative of \<^verbatim>\<open>Eql.g4\<close>; tokens keep their
  text. The parser is generated by ANTLR and runs on its library, so it is an argument. The
  visitor is a state transformer over its \<^verbatim>\<open>err\<close> field and the names its store resolved;
  None is a panic, which \<^verbatim>\<open>Eval\<close> recovers into an error.
\<close>

section \<open>Parse trees\<close>

datatype const = STEXT string | DTEXT string | FLOAT string | NUMBER string | Boolean bool

datatype variable = NAME string | VNAME string | Constant const

datatype dict_name = KeyNAME string | KeySTEXT string | KeyDTEXT string

datatype mulop = MUL | DIV | MOD

datatype addop = ADD | SUB

datatype exp =
    ExpInParen exp
  | ExpArithmeticMulDivMod mulop exp exp
  | ExpArithmeticAddSub addop exp exp
  | ExpNot exp
  | ExpArithmeticEQ exp exp
  | ExpArithmeticNEQ exp exp
  | ExpArithmeticLTE exp exp
  | ExpArithmeticGTE exp exp
  | ExpArithmeticLT exp exp
  | ExpArithmeticGT exp exp
  | ExpLogicalAnd exp exp
  | ExpLogicalOR exp exp
  | ExpBoolean bool
  | ExpEVariable "variable list"
  | ExpVariable "variable list"
  | ExpFunction string "exp list"
  | ExpArray "const list"
  | ExpDict "(dict_name \<times> const) list"
  | ExpText string
  | ExpFloat string
  | ExpNumber string

section \<open>The visitor\<close>

text \<open>What a store answers: it may panic, not know the name, or return a value.\<close>

datatype lookup_res = LPanic | LMissing | LFound gval

record eval_env =
  varStore :: "(string \<Rightarrow> lookup_res) option"
  allowMissingVars :: bool
  rank :: "string \<Rightarrow> nat"
  regexp :: regexp_engine

record vstate =
  verr :: "eql_error option"
  vfound :: "string list"

type_synonym visit_result = "(gval \<times> vstate) option"

definition set_err :: "eql_error \<Rightarrow> vstate \<Rightarrow> vstate" where
  "set_err e st = st\<lparr>verr := Some e\<rparr>"

text \<open>Keep the value of a result, or record the error and return \<^verbatim>\<open>on_err\<close>; a panic ends the visit.\<close>

definition settle :: "gval \<Rightarrow> gval eres \<Rightarrow> vstate \<Rightarrow> visit_result" where
  "settle on_err r st = (case r of
       Inr v \<Rightarrow> Some (v, st)
     | Inl e \<Rightarrow> if e = EPanic then None else Some (on_err, set_err e st))"

definition bool_res :: "bool eres \<Rightarrow> gval eres" where
  "bool_res r = map_sum id GBool r"

definition toStr :: "string \<Rightarrow> string" where
  "toStr s = (if length s \<le> 2 then [] else take (length s - 2) (drop 1 s))"

definition toNumber :: "string \<Rightarrow> gval eres" where
  "toNumber s = (case atoi s of Inr i \<Rightarrow> Inr (GInt i) | Inl _ \<Rightarrow> Inl (EToNumber s))"

definition toFloat :: "string \<Rightarrow> gval eres" where
  "toFloat s = (case parse_float s of Inr f \<Rightarrow> Inr (GFloat f) | Inl _ \<Rightarrow> Inl (EToFloat s))"

definition VisitConstant :: "const \<Rightarrow> vstate \<Rightarrow> visit_result" where
  "VisitConstant c st = (case c of
       STEXT s \<Rightarrow> Some (GStr (toStr s), st)
     | DTEXT s \<Rightarrow> Some (GStr (toStr s), st)
     | FLOAT s \<Rightarrow> settle GNil (toFloat s) st
     | NUMBER s \<Rightarrow> settle GNil (toNumber s) st
     | Boolean b \<Rightarrow> Some (GBool b, st))"

definition lookup_name :: "eval_env \<Rightarrow> string \<Rightarrow> vstate \<Rightarrow> visit_result" where
  "lookup_name env name st = (case varStore env of
       None \<Rightarrow> Some (GNil, set_err ENoStore st)
     | Some f \<Rightarrow> (case f name of
           LPanic \<Rightarrow> None
         | LMissing \<Rightarrow> Some (GNull, st)
         | LFound v \<Rightarrow> Some (v, st\<lparr>vfound := vfound st @ [name]\<rparr>)))"

definition VisitVariable :: "eval_env \<Rightarrow> variable \<Rightarrow> vstate \<Rightarrow> visit_result" where
  "VisitVariable env v st = (case v of
       Constant c \<Rightarrow> VisitConstant c st
     | NAME n \<Rightarrow> lookup_name env n st
     | VNAME n \<Rightarrow> lookup_name env n st)"

fun VisitVariableExp :: "eval_env \<Rightarrow> variable list \<Rightarrow> vstate \<Rightarrow> visit_result" where
  "VisitVariableExp env [] st =
     Some (GNull, if allowMissingVars env then st else set_err EUnknownVar st)"
| "VisitVariableExp env (v # vs) st =
     Option.bind (VisitVariable env v st) (\<lambda>(r, st').
       if r \<noteq> GNull then Some (r, st') else VisitVariableExp env vs st')"

fun VisitArray :: "const list \<Rightarrow> vstate \<Rightarrow> (gval list \<times> vstate) option" where
  "VisitArray [] st = Some ([], st)"
| "VisitArray (c # cs) st =
     Option.bind (VisitConstant c st) (\<lambda>(v, st').
     Option.bind (VisitArray cs st') (\<lambda>(vs, st''). Some (v # vs, st'')))"

definition key_name :: "dict_name \<Rightarrow> string" where
  "key_name k = (case k of KeyNAME n \<Rightarrow> n | KeySTEXT s \<Rightarrow> toStr s | KeyDTEXT s \<Rightarrow> toStr s)"

fun VisitDict ::
  "(string \<times> gval) list \<Rightarrow> (dict_name \<times> const) list \<Rightarrow> vstate \<Rightarrow> ((string \<times> gval) list \<times> vstate) option" where
  "VisitDict m [] st = Some (m, st)"
| "VisitDict m ((k, c) # ks) st =
     Option.bind (VisitConstant c st) (\<lambda>(v, st'). VisitDict (map_put (key_name k) v m) ks st')"

fun addsub :: "addop \<Rightarrow> gval \<Rightarrow> gval \<Rightarrow> gval eres" where
  "addsub ADD = mathAdd"
| "addsub SUB = mathSub"

fun muldivmod :: "mulop \<Rightarrow> gval \<Rightarrow> gval \<Rightarrow> gval eres" where
  "muldivmod MUL = mathMul"
| "muldivmod DIV = mathDiv"
| "muldivmod MOD = mathMod"

text \<open>Both operands are visited, the left one first, before the operator is applied.\<close>

definition visit_both ::
  "(vstate \<Rightarrow> visit_result) \<Rightarrow> (vstate \<Rightarrow> visit_result) \<Rightarrow> vstate \<Rightarrow>
   (gval \<Rightarrow> gval \<Rightarrow> vstate \<Rightarrow> visit_result) \<Rightarrow> visit_result" where
  "visit_both l r st k =
     Option.bind (l st) (\<lambda>(a, st'). Option.bind (r st') (\<lambda>(b, st''). k a b st''))"

lemma visit_both_cong [fundef_cong]:
  "(\<And>s. l s = l' s) \<Longrightarrow> (\<And>s. r s = r' s) \<Longrightarrow> st = st' \<Longrightarrow> k = k' \<Longrightarrow>
   visit_both l r st k = visit_both l' r' st' k'"
  by (simp add: visit_both_def)

fun visit :: "eval_env \<Rightarrow> exp \<Rightarrow> vstate \<Rightarrow> visit_result"
  and VisitArguments :: "eval_env \<Rightarrow> exp list \<Rightarrow> vstate \<Rightarrow> (gval list \<times> vstate) option" where
  "visit env (ExpInParen e) st = visit env e st"
| "visit env (ExpArithmeticMulDivMod op l r) st =
     visit_both (visit env l) (visit env r) st (\<lambda>a b. settle GNil (muldivmod op a b))"
| "visit env (ExpArithmeticAddSub op l r) st =
     visit_both (visit env l) (visit env r) st (\<lambda>a b. settle GNil (addsub op a b))"
| "visit env (ExpNot e) st =
     Option.bind (visit env e st) (\<lambda>(v, st').
       if verr st' \<noteq> None then Some (GNil, st')
       else case v of GBool b \<Rightarrow> Some (GBool (\<not> b), st') | _ \<Rightarrow> Some (GNil, set_err ENotBoolean st'))"
| "visit env (ExpArithmeticEQ l r) st =
     visit_both (visit env l) (visit env r) st (\<lambda>a b. settle GNil (bool_res (compareEQ (rank env) a b)))"
| "visit env (ExpArithmeticNEQ l r) st =
     visit_both (visit env l) (visit env r) st (\<lambda>a b. settle GNil (bool_res (compareNEQ (rank env) a b)))"
| "visit env (ExpArithmeticLTE l r) st =
     visit_both (visit env l) (visit env r) st (\<lambda>a b. settle GNil (bool_res (compareLTE a b)))"
| "visit env (ExpArithmeticGTE l r) st =
     visit_both (visit env l) (visit env r) st (\<lambda>a b. settle GNil (bool_res (compareGTE a b)))"
| "visit env (ExpArithmeticLT l r) st =
     visit_both (visit env l) (visit env r) st (\<lambda>a b. settle (GBool False) (bool_res (compareLT a b)))"
| "visit env (ExpArithmeticGT l r) st =
     visit_both (visit env l) (visit env r) st (\<lambda>a b. settle GNil (bool_res (compareGT a b)))"
| "visit env (ExpLogicalAnd l r) st =
     visit_both (visit env l) (visit env r) st (\<lambda>a b. settle GNil (bool_res (logicalAND a b)))"
| "visit env (ExpLogicalOR l r) st =
     visit_both (visit env l) (visit env r) st (\<lambda>a b. settle GNil (bool_res (logicalOR a b)))"
| "visit env (ExpBoolean b) st = Some (GBool b, st)"
| "visit env (ExpEVariable vs) st = Some (GNil, set_err EEscapedVar st)"
| "visit env (ExpVariable vs) st = VisitVariableExp env vs st"
| "visit env (ExpFunction name args) st =
     (case map_of (methods (rank env) (regexp env)) name of
        None \<Rightarrow> Some (GNil, set_err (EUnknownFunction name) st)
      | Some f \<Rightarrow> Option.bind (VisitArguments env args st) (\<lambda>(vs, st'). settle (GBool False) (f vs) st'))"
| "visit env (ExpArray cs) st = Option.bind (VisitArray cs st) (\<lambda>(vs, st'). Some (GList vs, st'))"
| "visit env (ExpDict ks) st = Option.bind (VisitDict [] ks st) (\<lambda>(m, st'). Some (GMap m, st'))"
| "visit env (ExpText s) st = Some (GStr (toStr s), st)"
| "visit env (ExpFloat s) st = settle GNil (toFloat s) st"
| "visit env (ExpNumber s) st = settle GNil (toNumber s) st"
| "VisitArguments env [] st = Some ([], st)"
| "VisitArguments env (e # es) st =
     Option.bind (visit env e st) (\<lambda>(v, st').
     Option.bind (VisitArguments env es st') (\<lambda>(vs, st''). Some (v # vs, st'')))"

text \<open>
  \<^verbatim>\<open>Expression.Eval\<close>: the type assertion of \<^verbatim>\<open>VisitExpList\<close> panics when the value is not a
  boolean, also when an error has been recorded, and the panic is recovered.
\<close>

definition Eval :: "eval_env \<Rightarrow> exp \<Rightarrow> eql_error + bool \<times> string list" where
  "Eval env e = (case visit env e \<lparr>verr = None, vfound = []\<rparr> of
       None \<Rightarrow> Inl EPanic
     | Some (v, st) \<Rightarrow> (case v of
           GBool b \<Rightarrow> (case verr st of Some er \<Rightarrow> Inl er | None \<Rightarrow> Inr (b, vfound st))
         | _ \<Rightarrow> Inl EPanic))"

section \<open>A reference semantics\<close>

text \<open>
  What a condition means, without the visitor's state: every subexpression is evaluated, left to
  right, an error anywhere is the error of the whole, and the names the store resolved are
  collected in order.
\<close>

type_synonym 'a den = "eql_error + 'a \<times> string list"

definition ret :: "'a \<Rightarrow> 'a den" where
  "ret v = Inr (v, [])"

definition wbind :: "'a den \<Rightarrow> ('a \<Rightarrow> 'b den) \<Rightarrow> 'b den" where
  "wbind d k = (case d of Inl e \<Rightarrow> Inl e
     | Inr (v, ns) \<Rightarrow> (case k v of Inl e \<Rightarrow> Inl e | Inr (w, ns') \<Rightarrow> Inr (w, ns @ ns')))"

lemma wbind_cong [fundef_cong]:
  "d = d' \<Longrightarrow> (\<And>v ns. d' = Inr (v, ns) \<Longrightarrow> k v = k' v) \<Longrightarrow> wbind d k = wbind d' k'"
  by (auto simp: wbind_def split: sum.splits)

definition lift :: "'a eres \<Rightarrow> 'a den" where
  "lift r = map_sum id (\<lambda>v. (v, [])) r"

definition den_const :: "const \<Rightarrow> gval den" where
  "den_const c = (case c of
       STEXT s \<Rightarrow> ret (GStr (toStr s)) | DTEXT s \<Rightarrow> ret (GStr (toStr s))
     | FLOAT s \<Rightarrow> lift (toFloat s) | NUMBER s \<Rightarrow> lift (toNumber s) | Boolean b \<Rightarrow> ret (GBool b))"

definition den_name :: "eval_env \<Rightarrow> string \<Rightarrow> gval den" where
  "den_name env n = (case varStore env of None \<Rightarrow> Inl ENoStore
     | Some f \<Rightarrow> (case f n of LPanic \<Rightarrow> Inl EPanic | LMissing \<Rightarrow> ret GNull | LFound v \<Rightarrow> Inr (v, [n])))"

definition den_variable :: "eval_env \<Rightarrow> variable \<Rightarrow> gval den" where
  "den_variable env v =
     (case v of Constant c \<Rightarrow> den_const c | NAME n \<Rightarrow> den_name env n | VNAME n \<Rightarrow> den_name env n)"

fun den_variables :: "eval_env \<Rightarrow> variable list \<Rightarrow> gval den" where
  "den_variables env [] = (if allowMissingVars env then ret GNull else Inl EUnknownVar)"
| "den_variables env (v # vs) =
     wbind (den_variable env v) (\<lambda>r. if r \<noteq> GNull then ret r else den_variables env vs)"

fun den_consts :: "const list \<Rightarrow> gval list den" where
  "den_consts [] = ret []"
| "den_consts (c # cs) = wbind (den_const c) (\<lambda>v. wbind (den_consts cs) (\<lambda>vs. ret (v # vs)))"

fun den_dict :: "(string \<times> gval) list \<Rightarrow> (dict_name \<times> const) list \<Rightarrow> (string \<times> gval) list den" where
  "den_dict m [] = ret m"
| "den_dict m ((k, c) # ks) = wbind (den_const c) (\<lambda>v. den_dict (map_put (key_name k) v m) ks)"

definition den_both :: "gval den \<Rightarrow> gval den \<Rightarrow> (gval \<Rightarrow> gval \<Rightarrow> gval eres) \<Rightarrow> gval den" where
  "den_both l r f = wbind l (\<lambda>a. wbind r (\<lambda>b. lift (f a b)))"

fun den :: "eval_env \<Rightarrow> exp \<Rightarrow> gval den" and den_args :: "eval_env \<Rightarrow> exp list \<Rightarrow> gval list den" where
  "den env (ExpInParen e) = den env e"
| "den env (ExpArithmeticMulDivMod op l r) = den_both (den env l) (den env r) (muldivmod op)"
| "den env (ExpArithmeticAddSub op l r) = den_both (den env l) (den env r) (addsub op)"
| "den env (ExpNot e) =
     wbind (den env e) (\<lambda>v. case v of GBool b \<Rightarrow> ret (GBool (\<not> b)) | _ \<Rightarrow> Inl ENotBoolean)"
| "den env (ExpArithmeticEQ l r) =
     den_both (den env l) (den env r) (\<lambda>a b. bool_res (compareEQ (rank env) a b))"
| "den env (ExpArithmeticNEQ l r) =
     den_both (den env l) (den env r) (\<lambda>a b. bool_res (compareNEQ (rank env) a b))"
| "den env (ExpArithmeticLTE l r) = den_both (den env l) (den env r) (\<lambda>a b. bool_res (compareLTE a b))"
| "den env (ExpArithmeticGTE l r) = den_both (den env l) (den env r) (\<lambda>a b. bool_res (compareGTE a b))"
| "den env (ExpArithmeticLT l r) = den_both (den env l) (den env r) (\<lambda>a b. bool_res (compareLT a b))"
| "den env (ExpArithmeticGT l r) = den_both (den env l) (den env r) (\<lambda>a b. bool_res (compareGT a b))"
| "den env (ExpLogicalAnd l r) = den_both (den env l) (den env r) (\<lambda>a b. bool_res (logicalAND a b))"
| "den env (ExpLogicalOR l r) = den_both (den env l) (den env r) (\<lambda>a b. bool_res (logicalOR a b))"
| "den env (ExpBoolean b) = ret (GBool b)"
| "den env (ExpEVariable vs) = Inl EEscapedVar"
| "den env (ExpVariable vs) = den_variables env vs"
| "den env (ExpFunction name args) =
     (case map_of (methods (rank env) (regexp env)) name of
        None \<Rightarrow> Inl (EUnknownFunction name)
      | Some f \<Rightarrow> wbind (den_args env args) (\<lambda>vs. lift (f vs)))"
| "den env (ExpArray cs) = wbind (den_consts cs) (\<lambda>vs. ret (GList vs))"
| "den env (ExpDict ks) = wbind (den_dict [] ks) (\<lambda>m. ret (GMap m))"
| "den env (ExpText s) = ret (GStr (toStr s))"
| "den env (ExpFloat s) = lift (toFloat s)"
| "den env (ExpNumber s) = lift (toNumber s)"
| "den_args env [] = ret []"
| "den_args env (e # es) = wbind (den env e) (\<lambda>v. wbind (den_args env es) (\<lambda>vs. ret (v # vs)))"

section \<open>The visitor implements the reference semantics\<close>

text \<open>A visit that started with an error recorded ends with one recorded, or panics.\<close>

definition sticky :: "(vstate \<Rightarrow> ('a \<times> vstate) option) \<Rightarrow> bool" where
  "sticky f \<longleftrightarrow> (\<forall>st. verr st \<noteq> None \<longrightarrow> (case f st of None \<Rightarrow> True | Some (v, st') \<Rightarrow> verr st' \<noteq> None))"

text \<open>From a state without an error the visit has the outcome of the denotation.\<close>

definition implements :: "(vstate \<Rightarrow> ('a \<times> vstate) option) \<Rightarrow> 'a den \<Rightarrow> bool" where
  "implements f d \<longleftrightarrow> sticky f \<and> (\<forall>st. verr st = None \<longrightarrow>
     (case d of
        Inr (v, ns) \<Rightarrow> f st = Some (v, st\<lparr>vfound := vfound st @ ns\<rparr>)
      | Inl _ \<Rightarrow> (case f st of None \<Rightarrow> True | Some (v, st') \<Rightarrow> verr st' \<noteq> None)))"

lemma implements_ret: "implements (\<lambda>st. Some (v, st)) (ret v)"
  by (simp add: implements_def sticky_def ret_def)

lemma implements_bind:
  assumes f: "implements f d" and k: "\<And>v. implements (g v) (k v)"
  shows "implements (\<lambda>st. Option.bind (f st) (\<lambda>(v, st'). g v st')) (wbind d k)"
proof -
  have sf: "sticky f" and sg: "\<And>v. sticky (g v)"
    using f k by (simp_all add: implements_def)
  have st: "sticky (\<lambda>st. Option.bind (f st) (\<lambda>(v, st'). g v st'))"
    using sf sg by (fastforce simp: sticky_def split: option.splits bind_splits)
  moreover have "case wbind d k of
      Inr (v, ns) \<Rightarrow> Option.bind (f st) (\<lambda>(v, st'). g v st') = Some (v, st\<lparr>vfound := vfound st @ ns\<rparr>)
    | Inl _ \<Rightarrow> (case Option.bind (f st) (\<lambda>(v, st'). g v st') of None \<Rightarrow> True | Some (v, st') \<Rightarrow> verr st' \<noteq> None)"
    if "verr st = None" for st
  proof (cases d)
    case (Inl e)
    with f that have "case f st of None \<Rightarrow> True | Some (v, st') \<Rightarrow> verr st' \<noteq> None"
      by (auto simp: implements_def)
    with sg Inl show ?thesis
      by (cases "f st") (auto simp: wbind_def sticky_def)
  next
    case (Inr a)
    obtain v ns where a: "a = (v, ns)" by (cases a)
    let ?st = "st\<lparr>vfound := vfound st @ ns\<rparr>"
    have fs: "f st = Some (v, ?st)"
      using f that Inr a by (auto simp: implements_def)
    have "verr ?st = None" using that by simp
    then have "case k v of
        Inr (w, ns') \<Rightarrow> g v ?st = Some (w, ?st\<lparr>vfound := vfound ?st @ ns'\<rparr>)
      | Inl _ \<Rightarrow> (case g v ?st of None \<Rightarrow> True | Some (v, st') \<Rightarrow> verr st' \<noteq> None)"
      using k[of v] unfolding implements_def by blast
    with fs Inr a show ?thesis
      by (auto simp: wbind_def split: sum.splits)
  qed
  ultimately show ?thesis
    unfolding implements_def by blast
qed

lemma implements_settle: "implements (settle v r) (lift r)"
  by (cases r) (auto simp: implements_def sticky_def settle_def lift_def set_err_def)

lemma implements_err: "implements (\<lambda>st. Some (v, set_err e st)) (Inl e)"
  by (simp add: implements_def sticky_def set_err_def)

lemma implements_both:
  assumes "implements l dl" "implements r dr" "\<And>a b. implements (k a b) (lift (f a b))"
  shows "implements (\<lambda>st. visit_both l r st k) (den_both dl dr f)"
  unfolding visit_both_def den_both_def
  by (intro implements_bind assms)

lemma implements_not:
  "implements (\<lambda>st. if verr st \<noteq> None then Some (GNil, st)
      else case v of GBool b \<Rightarrow> Some (GBool (\<not> b), st) | _ \<Rightarrow> Some (GNil, set_err ENotBoolean st))
    (case v of GBool b \<Rightarrow> ret (GBool (\<not> b)) | _ \<Rightarrow> Inl ENotBoolean)"
  by (cases v) (auto simp: implements_def sticky_def ret_def set_err_def)

lemma implements_ext: "(\<And>st. f st = g st) \<Longrightarrow> implements g d \<Longrightarrow> implements f d"
  using ext[of f g] by blast

lemma implements_const: "implements (VisitConstant c) (den_const c)"
  by (cases c) (simp_all add: VisitConstant_def[abs_def] den_const_def implements_ret implements_settle)

lemma implements_name: "implements (lookup_name env n) (den_name env n)"
  by (auto simp: implements_def sticky_def lookup_name_def den_name_def ret_def set_err_def
      split: option.splits lookup_res.splits)

lemma implements_variable: "implements (VisitVariable env v) (den_variable env v)"
  by (cases v)
    (simp_all add: VisitVariable_def[abs_def] den_variable_def implements_const implements_name)

lemma implements_variables: "implements (VisitVariableExp env vs) (den_variables env vs)"
proof (induction vs)
  case Nil
  show ?case
    by (rule implements_ext, rule VisitVariableExp.simps) (simp add: implements_ret implements_err)
next
  case (Cons v vs)
  then show ?case
    by (intro implements_ext[OF VisitVariableExp.simps(2)])
      (simp, intro implements_bind implements_variable, simp add: implements_ret)
qed

lemma implements_consts: "implements (VisitArray cs) (den_consts cs)"
proof (induction cs)
  case Nil
  show ?case
    by (rule implements_ext, rule VisitArray.simps) (simp add: implements_ret)
next
  case (Cons c cs)
  then show ?case
    by (intro implements_ext[OF VisitArray.simps(2)])
      (simp only: den_consts.simps, intro implements_bind implements_const implements_ret)
qed

lemma implements_dict: "implements (VisitDict m ks) (den_dict m ks)"
proof (induction ks arbitrary: m)
  case Nil
  show ?case
    by (rule implements_ext, rule VisitDict.simps) (simp add: implements_ret)
next
  case (Cons p ks)
  then show ?case
    by (cases p, hypsubst, intro implements_ext[OF VisitDict.simps(2)])
      (simp only: den_dict.simps, intro implements_bind implements_const)
qed

lemma implements_method: "implements (\<lambda>st. case m of None \<Rightarrow> Some (GNil, set_err e st)
     | Some f \<Rightarrow> Option.bind (g st) (\<lambda>(vs, st'). settle (GBool False) (f vs) st'))
   (case m of None \<Rightarrow> Inl e | Some f \<Rightarrow> wbind d (\<lambda>vs. lift (f vs)))"
  if "\<And>f. m = Some f \<Longrightarrow> implements g d"
  using that by (cases m) (simp_all add: implements_err implements_bind implements_settle)

lemmas implements_intros = implements_bind implements_both implements_ret implements_settle
  implements_err implements_not implements_const implements_variables implements_consts
  implements_dict implements_method

lemma implements_args:
  "(\<And>e. e \<in> set es \<Longrightarrow> implements (visit env e) (den env e)) \<Longrightarrow>
   implements (VisitArguments env es) (den_args env es)"
proof (induction es)
  case Nil
  show ?case
    by (rule implements_ext, rule VisitArguments.simps) (simp add: implements_ret)
next
  case (Cons e es)
  then show ?case
    by (intro implements_ext[OF VisitArguments.simps(2)])
      (simp only: den_args.simps, intro implements_bind implements_ret, simp_all)
qed

lemma implements_visit: "implements (visit env e) (den env e)"
  by (induction e)
    ((rule implements_ext, rule visit.simps, simp only: den.simps,
      (intro implements_intros)?; (assumption | (rule implements_args, simp) | simp))+)


end
