(* ===== verification/Ast.thy ===== *)
theory Ast
  imports Eql_Ops
begin

text \<open>
  The configuration tree of \<^verbatim>\<open>internal/pkg/agent/transpiler/ast.go\<close>: its nodes, their loading from
  native values and back, lookup, insertion, cloning and hashing.

  A child is a \<^typ>\<open>'a option\<close>: None is the nil \<^verbatim>\<open>Node\<close>. A type assertion that fails and a method
  call on nil are the error \<^verbatim>\<open>TPanic\<close>. The tree is a value, so a write through a pointer into it is
  the tree with the child replaced (\<^verbatim>\<open>set_child\<close>). The sums of the SHA-256 and xxhash packages are
  arguments. The condition that \<^verbatim>\<open>Key\<close> caches is a memo of parsing and is left out.
\<close>

section \<open>Nodes\<close>

type_synonym processors = "(string \<times> gval) list list option"

datatype node =
    Dict "node option list" processors
  | Key string "node option"
  | List "node option list" processors
  | StrVal string processors
  | IntVal i64 processors
  | UIntVal nat processors
  | FloatVal f64 processors
  | BoolVal bool processors

type_synonym ast = "node option"

datatype tr_error = TPanic | TNoMatch | TBrackets | TParseVar | TBadCondition
  | TCondition eql_error | TConditionType | TExpectCollection | TExpectDict | TExpectKey
  | TNotArray | TIdType | TMapType

text \<open>The children that are not nil: every loop of the tree skips the others.\<close>

definition children :: "node option list \<Rightarrow> node list" where
  "children ns = List.map_filter id ns"

lemma children_simps [simp]:
  "children [] = []" "children (None # ns) = children ns" "children (Some n # ns) = n # children ns"
  by (simp_all add: children_def List.map_filter_def)

lemma children_append [simp]: "children (xs @ ys) = children xs @ children ys"
  by (simp add: children_def map_filter_def)

lemma children_map_Some [simp]: "children (map Some ns) = ns"
  by (induction ns) simp_all

lemma in_children: "n \<in> set (children ns) \<longleftrightarrow> Some n \<in> set ns"
proof (induction ns)
  case (Cons c ns)
  then show ?case by (cases c) auto
qed simp

lemma size_child [termination_simp]:
  "n \<in> set (children ns) \<Longrightarrow> size n < Suc (size_list (size_option size) ns)"
proof -
  assume "n \<in> set (children ns)"
  then have "Some n \<in> set ns" by (simp add: in_children)
  then have "size n \<le> size_list (size_option size) ns"
    by (rule size_list_estimation') simp
  then show ?thesis by simp
qed

lemma size_key_child [termination_simp]:
  "Key k (Some x) \<in> set (children ns) \<Longrightarrow> size x < Suc (size_list (size_option size) ns)"
  using size_child[of "Key k (Some x)" ns] by simp

text \<open>\<^verbatim>\<open>NewDict\<close>, \<^verbatim>\<open>NewKey\<close>, \<^verbatim>\<open>NewList\<close> and \<^verbatim>\<open>NewStrVal\<close>: no processors are attached.\<close>

abbreviation NewDict :: "node option list \<Rightarrow> node" where
  "NewDict ns \<equiv> Dict ns None"

abbreviation NewList :: "node option list \<Rightarrow> node" where
  "NewList ns \<equiv> List ns None"

abbreviation NewStrVal :: "string \<Rightarrow> node" where
  "NewStrVal s \<equiv> StrVal s None"

section \<open>Finding children\<close>

text \<open>
  The result of \<^verbatim>\<open>Find\<close>: Inr None when there is no such child, Inr (Some c) when the child c was
  found, where c may be nil in a list.
\<close>

fun Dict_Find :: "string \<Rightarrow> node option list \<Rightarrow> tr_error + node option option" where
  "Dict_Find key [] = Inr None"
| "Dict_Find key (None # ns) = Dict_Find key ns"
| "Dict_Find key (Some (Key name v) # ns) =
     (if name = key then Inr (Some (Some (Key name v))) else Dict_Find key ns)"
| "Dict_Find key (Some _ # ns) = Inl TPanic"

definition List_Find :: "string \<Rightarrow> node option list \<Rightarrow> tr_error + node option option" where
  "List_Find idx ns = (case atoi idx of
       Inl _ \<Rightarrow> Inr None
     | Inr i \<Rightarrow> if i > int (length ns) - 1 \<or> i < 0 then Inr None else Inr (Some (ns ! nat i)))"

definition Find :: "string \<Rightarrow> node \<Rightarrow> tr_error + node option option" where
  "Find key n = (case n of
       Dict ns _ \<Rightarrow> Dict_Find key ns
     | List ns _ \<Rightarrow> List_Find key ns
     | Key _ v \<Rightarrow> (case v of
           Some (Dict ns _) \<Rightarrow> Dict_Find key ns
         | Some (List ns _) \<Rightarrow> List_Find key ns
         | _ \<Rightarrow> Inr None)
     | _ \<Rightarrow> Inr None)"

text \<open>The tree after a write through the pointer that \<^verbatim>\<open>Find\<close> returned.\<close>

fun set_key :: "string \<Rightarrow> node option \<Rightarrow> node option list \<Rightarrow> node option list" where
  "set_key key c [] = []"
| "set_key key c (Some (Key name v) # ns) =
     (if name = key then c # ns else Some (Key name v) # set_key key c ns)"
| "set_key key c (n # ns) = n # set_key key c ns"

definition set_index :: "string \<Rightarrow> node option \<Rightarrow> node option list \<Rightarrow> node option list" where
  "set_index idx c ns = (case atoi idx of Inl _ \<Rightarrow> ns | Inr i \<Rightarrow> if i < 0 then ns else ns[nat i := c])"

definition set_child :: "string \<Rightarrow> node option \<Rightarrow> node \<Rightarrow> node" where
  "set_child key c n = (case n of
       Dict ns p \<Rightarrow> Dict (set_key key c ns) p
     | List ns p \<Rightarrow> List (set_index key c ns) p
     | Key k (Some (Dict ns p)) \<Rightarrow> Key k (Some (Dict (set_key key c ns) p))
     | Key k (Some (List ns p)) \<Rightarrow> Key k (Some (List (set_index key c ns) p))
     | _ \<Rightarrow> n)"

definition splitPath :: "string \<Rightarrow> string list" where
  "splitPath s = (if s = [] then [] else split_on CHR ''.'' s)"

fun lookup_path :: "node option \<Rightarrow> string list \<Rightarrow> tr_error + node option option" where
  "lookup_path cur [] = Inr (Some cur)"
| "lookup_path None (part # ps) = Inl TPanic"
| "lookup_path (Some n) (part # ps) =
     rbind (Find part n) (\<lambda>f. case f of None \<Rightarrow> Inr None | Some c \<Rightarrow> lookup_path c ps)"

definition Lookup :: "ast \<Rightarrow> string \<Rightarrow> tr_error + node option option" where
  "Lookup a selector =
     (if a = None then Inr None else lookup_path a (splitPath selector))"

section \<open>Native values\<close>

text \<open>Apply a fallible function to every element, left to right.\<close>

fun rmap :: "('a \<Rightarrow> 'e + 'b) \<Rightarrow> 'a list \<Rightarrow> 'e + 'b list" where
  "rmap f [] = Inr []"
| "rmap f (x # xs) = rbind (f x) (\<lambda>y. rbind (rmap f xs) (\<lambda>ys. Inr (y # ys)))"

lemma rmap_cong [fundef_cong]:
  "xs = ys \<Longrightarrow> (\<And>x. x \<in> set ys \<Longrightarrow> f x = g x) \<Longrightarrow> rmap f xs = rmap g ys"
  by (induction ys arbitrary: xs) auto

fun toInterface :: "node \<Rightarrow> tr_error + gval" where
  "toInterface (Dict ns p) =
     rbind (rmap (\<lambda>child. case child of
              Key k None \<Rightarrow> Inr (k, GNil)
            | Key k (Some v) \<Rightarrow> rbind (toInterface v) (\<lambda>g. Inr (k, g))
            | _ \<Rightarrow> Inl TPanic) (children ns))
       (\<lambda>es. Inr (GMap (map_of_entries es)))"
| "toInterface (List ns p) = rbind (rmap toInterface (children ns)) (\<lambda>gs. Inr (GList gs))"
| "toInterface (Key k None) = Inr GNil"
| "toInterface (Key k (Some v)) = toInterface v"
| "toInterface (StrVal s p) = Inr (GStr s)"
| "toInterface (IntVal i p) = Inr (GInt i)"
| "toInterface (UIntVal n p) = Inr (GUint n)"
| "toInterface (BoolVal b p) = Inr (GBool b)"
| "toInterface (FloatVal f p) = Inr (GFloat f)"

text \<open>\<^verbatim>\<open>AST.Lookup\<close>: the value of a matched key; its type assertion panics on a nil value.\<close>

definition AST_Lookup :: "ast \<Rightarrow> string \<Rightarrow> tr_error + gval option" where
  "AST_Lookup a name = rbind (Lookup a name) (\<lambda>f. case f of
       None \<Rightarrow> Inr None
     | Some None \<Rightarrow> Inr (Some GNil)
     | Some (Some (Key k None)) \<Rightarrow> Inl TPanic
     | Some (Some (Key k (Some v))) \<Rightarrow> rbind (toInterface v) (\<lambda>g. Inr (Some g))
     | Some (Some n) \<Rightarrow> rbind (toInterface n) (\<lambda>g. Inr (Some g)))"

definition AST_Map :: "ast \<Rightarrow> tr_error + (string \<times> gval) list" where
  "AST_Map a = (case a of
       None \<Rightarrow> Inl TMapType
     | Some n \<Rightarrow> rbind (toInterface n) (\<lambda>g. case g of GMap m \<Rightarrow> Inr m | _ \<Rightarrow> Inl TMapType))"

section \<open>Cloning, printing, hashing\<close>

fun Clone :: "node \<Rightarrow> node" where
  "Clone (Dict ns p) = Dict (map (\<lambda>n. Some (Clone n)) (children ns)) None"
| "Clone (Key k None) = Key k None"
| "Clone (Key k (Some v)) = Key k (Some (Clone v))"
| "Clone (List ns p) = List (map (\<lambda>n. Some (Clone n)) (children ns)) None"
| "Clone n = n"

fun ShallowClone :: "node \<Rightarrow> node" where
  "ShallowClone (Dict ns p) = Dict (map (\<lambda>n. Some (ShallowClone n)) (children ns)) None"
| "ShallowClone (Key k v) = Key k v"
| "ShallowClone (List ns p) = List (map Some (children ns)) None"
| "ShallowClone n = n"

text \<open>The comma after an element depends on its index, not on whether an element follows.\<close>

fun node_String :: "node \<Rightarrow> string" and dict_String :: "node option list \<Rightarrow> string"
  and list_String :: "node option list \<Rightarrow> string" where
  "node_String (Dict ns p) = dict_String ns"
| "node_String (Key k None) = k @ '':nil''"
| "node_String (Key k (Some v)) = k @ CHR '':'' # node_String v"
| "node_String (List ns p) = CHR ''['' # list_String ns @ '']''"
| "node_String (StrVal s p) = s"
| "node_String (IntVal i p) = itoa i"
| "node_String (UIntVal n p) = nat_str n"
| "node_String (FloatVal f p) = fmt_f f"
| "node_String (BoolVal b p) = (if b then ''true'' else ''false'')"
| "dict_String [] = []"
| "dict_String (None # ns) = dict_String ns"
| "dict_String (Some n # ns) =
     CHR ''{'' # node_String n @ CHR ''}'' # (if ns \<noteq> [] then '','' else []) @ dict_String ns"
| "list_String [] = []"
| "list_String (None # ns) = list_String ns"
| "list_String (Some n # ns) =
     node_String n @ (if ns \<noteq> [] then '','' else []) @ list_String ns"

definition AST_String :: "node \<Rightarrow> string" where
  "AST_String n = ''{AST:'' @ node_String n @ ''}''"

definition bool_byte :: "bool \<Rightarrow> string" where
  "bool_byte b = [char_of (if b then 1 else 0 :: nat)]"

fun Hash :: "(string \<Rightarrow> string) \<Rightarrow> node \<Rightarrow> string" where
  "Hash sha (Dict ns p) = sha (concat (map (Hash sha) (children ns)))"
| "Hash sha (Key k None) = sha k"
| "Hash sha (Key k (Some v)) = sha (k @ Hash sha v)"
| "Hash sha (List ns p) = sha (concat (map (Hash sha) (children ns)))"
| "Hash sha (StrVal s p) = s"
| "Hash sha (IntVal i p) = itoa i"
| "Hash sha (UIntVal n p) = nat_str n"
| "Hash sha (FloatVal f p) = format_f f"
| "Hash sha (BoolVal b p) = bool_byte b"

text \<open>\<^verbatim>\<open>Hash64With\<close>: the bytes that are written to the digest.\<close>

fun Hash64With :: "node \<Rightarrow> string" where
  "Hash64With (Dict ns p) = concat (map Hash64With (children ns))"
| "Hash64With (Key k None) = k"
| "Hash64With (Key k (Some v)) = k @ Hash64With v"
| "Hash64With (List ns p) = concat (map Hash64With (children ns))"
| "Hash64With (StrVal s p) = s"
| "Hash64With (IntVal i p) = itoa i"
| "Hash64With (UIntVal n p) = nat_str n"
| "Hash64With (FloatVal f p) = format_f f"
| "Hash64With (BoolVal b p) = bool_byte b"

definition AST_Equal :: "(string \<Rightarrow> 'h) \<Rightarrow> ast \<Rightarrow> ast \<Rightarrow> bool" where
  "AST_Equal sum64 a other = (case (a, other) of
       (Some n, Some m) \<Rightarrow> sum64 (Hash64With n) = sum64 (Hash64With m)
     | _ \<Rightarrow> a = None \<and> other = None)"

section \<open>Processors\<close>

fun first_some :: "'a option list \<Rightarrow> 'a option" where
  "first_some [] = None"
| "first_some (None # xs) = first_some xs"
| "first_some (Some x # xs) = Some x"

fun Processors :: "node \<Rightarrow> processors" where
  "Processors (Dict ns p) = (if p \<noteq> None then p else first_some (map Processors (children ns)))"
| "Processors (Key k None) = None"
| "Processors (Key k (Some v)) = Processors v"
| "Processors (List ns p) = (if p \<noteq> None then p else first_some (map Processors (children ns)))"
| "Processors (StrVal _ p) = p"
| "Processors (IntVal _ p) = p"
| "Processors (UIntVal _ p) = p"
| "Processors (FloatVal _ p) = p"
| "Processors (BoolVal _ p) = p"

definition attachProcessors :: "node option \<Rightarrow> processors \<Rightarrow> tr_error + node option" where
  "attachProcessors n p =
     (if p = None then Inr n
      else case n of
        None \<Rightarrow> Inl TPanic
      | Some m \<Rightarrow> Inr (Some (case ShallowClone m of
            Dict ns _ \<Rightarrow> Dict ns p | List ns _ \<Rightarrow> List ns p | StrVal s _ \<Rightarrow> StrVal s p
          | IntVal i _ \<Rightarrow> IntVal i p | UIntVal k _ \<Rightarrow> UIntVal k p | FloatVal f _ \<Rightarrow> FloatVal f p
          | BoolVal b _ \<Rightarrow> BoolVal b p | Key k v \<Rightarrow> Key k v)))"

section \<open>Loading\<close>

definition isDictOrKey :: "node option \<Rightarrow> bool" where
  "isDictOrKey v = (case v of Some (Key _ _) \<Rightarrow> True | Some (Dict _ _) \<Rightarrow> True | _ \<Rightarrow> False)"

text \<open>The nodes of \<^verbatim>\<open>restDict\<close>: the remaining keys nested around the value.\<close>

fun rest_nodes :: "string list \<Rightarrow> node \<Rightarrow> node option list" where
  "rest_nodes [] v = (case v of Dict ns _ \<Rightarrow> ns | Key _ w \<Rightarrow> [w] | _ \<Rightarrow> [Some v])"
| "rest_nodes [k] v = [Some (Key k (Some v))]"
| "rest_nodes (k # k' # ks) v = [Some (Key k (Some (Clone (NewDict (rest_nodes (k' # ks) v)))))]"

text \<open>Attaching the remainder to the last known node, which \<^verbatim>\<open>lastKey\<close> names.\<close>

definition attach_rest :: "node option \<Rightarrow> string \<Rightarrow> string list \<Rightarrow> node \<Rightarrow> node option" where
  "attach_rest known lastKey rest v = (case known of
       Some (Dict ns p) \<Rightarrow> Some (Dict (ns @ [Some (Key lastKey (Some (NewDict (rest_nodes rest v))))]) p)
     | Some (Key k (Some (Dict ns p))) \<Rightarrow> Some (Key k (Some (Dict (ns @ rest_nodes rest v) p)))
     | _ \<Rightarrow> known)"

fun attach :: "node option \<Rightarrow> string \<Rightarrow> string list \<Rightarrow> node \<Rightarrow> tr_error + node option" where
  "attach known lastKey [] v = Inr (attach_rest known lastKey [] v)"
| "attach None lastKey (k # ks) v = Inl TPanic"
| "attach (Some n) lastKey (k # ks) v =
     rbind (Find k n) (\<lambda>f. case f of
       None \<Rightarrow> Inr (attach_rest (Some n) lastKey (k # ks) v)
     | Some c \<Rightarrow> rbind (attach c k ks v) (\<lambda>c'. Inr (Some (set_child k c' n))))"

text \<open>One round of the loop of \<^verbatim>\<open>loadMap\<close>, for the entry of a name.\<close>

definition load_entry :: "node option list \<Rightarrow> string \<Rightarrow> node option \<Rightarrow> tr_error + node option list" where
  "load_entry ns name v =
     (if \<not> isDictOrKey v then Inr (ns @ [Some (Key name v)])
      else case (v, split_on CHR ''.'' name) of
        (Some d, k # ks) \<Rightarrow>
          rbind (Find k (NewDict ns)) (\<lambda>f.
          rbind (case f of
              None \<Rightarrow> Inr (attach_rest (Some (NewDict ns)) k ks d)
            | Some c \<Rightarrow> rbind (attach c k ks d) (\<lambda>c'. Inr (Some (set_child k c' (NewDict ns)))))
          (\<lambda>r. case r of Some (Dict ns' _) \<Rightarrow> Inr ns' | _ \<Rightarrow> Inl TPanic))
      | _ \<Rightarrow> Inl TPanic)"

fun load :: "gval \<Rightarrow> tr_error + node option"
  and loadMap :: "node option list \<Rightarrow> (string \<times> gval) list \<Rightarrow> tr_error + node option list"
  and loadSliceOrArray :: "gval list \<Rightarrow> tr_error + node option list" where
  "load (GMap m) = rbind (loadMap [] m) (\<lambda>ns. Inr (Some (NewDict ns)))"
| "load (GList gs) = rbind (loadSliceOrArray gs) (\<lambda>ns. Inr (Some (NewList ns)))"
| "load (GStr s) = Inr (Some (NewStrVal s))"
| "load (GInt i) = Inr (Some (IntVal i None))"
| "load (GUint n) = Inr (Some (UIntVal n None))"
| "load (GFloat f) = Inr (Some (FloatVal f None))"
| "load (GBool b) = Inr (Some (BoolVal b None))"
| "load GNil = Inr None"
| "load GNull = Inl TPanic"
| "loadMap ns [] = Inr ns"
| "loadMap ns ((name, g) # m) =
     rbind (load g) (\<lambda>v. rbind (load_entry ns name v) (\<lambda>ns'. loadMap ns' m))"
| "loadSliceOrArray [] = Inr []"
| "loadSliceOrArray (g # gs) =
     rbind (load g) (\<lambda>v. rbind (loadSliceOrArray gs) (\<lambda>vs. Inr (v # vs)))"

definition NewAST :: "(string \<times> gval) list \<Rightarrow> tr_error + ast" where
  "NewAST m = load (GMap m)"

section \<open>The visitor\<close>

text \<open>
  \<^verbatim>\<open>AST.dispatch\<close> with the \<^verbatim>\<open>MapVisitor\<close> of \<^verbatim>\<open>map_visitor.go\<close>: the content that the visitor ends with.
  Nil and key nodes match no case of the type switch and leave the content nil.
\<close>

fun dispatch :: "node option \<Rightarrow> tr_error + gval" where
  "dispatch (Some (Dict ns p)) =
     rbind (rmap (\<lambda>child. case child of
              Some (Key k v) \<Rightarrow> rbind (dispatch v) (\<lambda>g. Inr (k, g))
            | _ \<Rightarrow> Inl TPanic) ns)
       (\<lambda>es. Inr (GMap (map_of_entries es)))"
| "dispatch (Some (List ns p)) = rbind (rmap dispatch ns) (\<lambda>gs. Inr (GList gs))"
| "dispatch (Some (StrVal s p)) = Inr (GStr s)"
| "dispatch (Some (IntVal i p)) = Inr (GInt i)"
| "dispatch (Some (UIntVal n p)) = Inr (GUint n)"
| "dispatch (Some (BoolVal b p)) = Inr (GBool b)"
| "dispatch (Some (FloatVal f p)) = Inr (GFloat f)"
| "dispatch _ = Inr GNil"

section \<open>Insertion\<close>

definition key_of :: "node option \<Rightarrow> string option" where
  "key_of c = (case c of Some (Key k _) \<Rightarrow> Some k | _ \<Rightarrow> None)"

text \<open>
  \<^verbatim>\<open>Dict.sort\<close>: with two children or more every child is compared, so one that is not a key panics.
  Children of the same name keep their order.
\<close>

definition dict_sort :: "node option list \<Rightarrow> tr_error + node option list" where
  "dict_sort ns =
     (if length ns \<ge> 2 \<and> \<not> list_all (\<lambda>c. key_of c \<noteq> None) ns then Inl TPanic
      else Inr (sort_key (\<lambda>c. the (key_of c)) ns))"

text \<open>Removing the first key of a name by putting the last child in its place.\<close>

fun swap_remove :: "string \<Rightarrow> node option list \<Rightarrow> node option list" where
  "swap_remove name [] = []"
| "swap_remove name (c # ns) =
     (if key_of c = Some name then (if ns = [] then [] else last ns # butlast ns)
      else c # swap_remove name ns)"

text \<open>The value of the target key after the node has been put there.\<close>

definition insert_value :: "node option \<Rightarrow> node option \<Rightarrow> tr_error + node" where
  "insert_value old new = (case new of
       Some (Dict ns p) \<Rightarrow> Inr (Dict ns p)
     | Some (List ns p) \<Rightarrow> Inr (List ns p)
     | Some (Key name v) \<Rightarrow> (case old of
           Some (Dict ns p) \<Rightarrow>
             rbind (dict_sort (swap_remove name ns @ [new])) (\<lambda>ns'. Inr (Dict ns' p))
         | _ \<Rightarrow> Inr (NewDict [new]))
     | _ \<Rightarrow> Inr (NewDict [new]))"

text \<open>
  \<^verbatim>\<open>Insert\<close> from the node the walk has reached: the node afterwards and the error, if there is one.
  Nodes created on the way stay in the tree when the walk fails later.
\<close>

fun insert_at :: "node option \<Rightarrow> node option \<Rightarrow> string list \<Rightarrow> node option \<times> tr_error option" where
  "insert_at new cur [] = (case cur of
       Some (Key k v) \<Rightarrow> (case insert_value v new of
           Inl e \<Rightarrow> (cur, Some e) | Inr w \<Rightarrow> (Some (Key k (Some w)), None))
     | _ \<Rightarrow> (cur, Some TExpectKey))"
| "insert_at new None (part # ps) = (None, Some TPanic)"
| "insert_at new (Some n) (part # ps) = (case Find part n of
       Inl e \<Rightarrow> (Some n, Some e)
     | Inr (Some c) \<Rightarrow> (case insert_at new c ps of (c', e) \<Rightarrow> (Some (set_child part c' n), e))
     | Inr None \<Rightarrow>
         (let k = Some (Key part (Some (NewDict []))) in
          case n of
            Key name (Some (Dict ns p)) \<Rightarrow>
              (case dict_sort (ns @ [k]) of
                 Inl e \<Rightarrow> (Some n, Some e)
               | Inr ns' \<Rightarrow> (case insert_at new k ps of
                     (c', e) \<Rightarrow> (Some (Key name (Some (Dict (set_key part c' ns') p))), e)))
          | Key name (Some (List ns p)) \<Rightarrow>
              (case insert_at new (Some (NewDict [])) ps of
                 (c', e) \<Rightarrow> (Some (Key name (Some (List (ns @ [c']) p))), e))
          | Key name _ \<Rightarrow> (Some n, Some TExpectCollection)
          | Dict ns p \<Rightarrow>
              (case dict_sort (ns @ [k]) of
                 Inl e \<Rightarrow> (Some n, Some e)
               | Inr ns' \<Rightarrow> (case insert_at new k ps of
                     (c', e) \<Rightarrow> (Some (Dict (set_key part c' ns') p), e)))
          | _ \<Rightarrow> (Some n, Some TExpectDict)))"

definition Insert :: "ast \<Rightarrow> node option \<Rightarrow> string \<Rightarrow> ast \<times> tr_error option" where
  "Insert a new to = insert_at new a (splitPath to)"

end
