(* ===== verification/Ast_Props.thy ===== *)
theory Ast_Props
  imports Ast
begin

text \<open>
  What the configuration tree promises: loading a configuration and mapping it back gives the
  configuration, cloning keeps everything that can be observed of a tree, the fast conversion
  agrees with the visitor, and an inserted node is found where it was inserted.
\<close>

section \<open>Dictionaries of keys\<close>

definition all_keys :: "node option list \<Rightarrow> bool" where
  "all_keys ns = list_all (\<lambda>c. key_of c \<noteq> None) ns"

lemma all_keys_simps [simp]:
  "all_keys []" "all_keys (Some (Key k v) # ns) = all_keys ns" "all_keys (None # ns) = False"
  "all_keys (ns @ ms) = (all_keys ns \<and> all_keys ms)"
  by (simp_all add: all_keys_def key_of_def)

lemma all_keys_Cons: "all_keys (c # ns) \<longleftrightarrow> (\<exists>k v. c = Some (Key k v)) \<and> all_keys ns"
  by (auto simp: all_keys_def key_of_def split: option.splits node.splits)

text \<open>On a dictionary of keys, \<^verbatim>\<open>Find\<close> returns the first child of the name.\<close>

lemma Dict_Find_filter:
  "all_keys ns \<Longrightarrow> Dict_Find k ns =
     Inr (case filter (\<lambda>c. key_of c = Some k) ns of [] \<Rightarrow> None | c # _ \<Rightarrow> Some c)"
  by (induction k ns rule: Dict_Find.induct) (auto simp: all_keys_def key_of_def)

lemma Dict_Find_Some: "Dict_Find k ns = Inr (Some c) \<Longrightarrow> (\<exists>v. c = Some (Key k v)) \<and> c \<in> set ns"
  by (induction k ns rule: Dict_Find.induct) (auto split: if_splits)

lemma Dict_Find_set_key:
  "Dict_Find k ns = Inr (Some c) \<Longrightarrow>
   Dict_Find k (set_key k (Some (Key k v)) ns) = Inr (Some (Some (Key k v)))"
  by (induction k ns rule: Dict_Find.induct) (auto split: if_splits)

lemma Dict_Find_set_key_other:
  "k' \<noteq> k \<Longrightarrow> Dict_Find k' (set_key k (Some (Key k v)) ns) = Dict_Find k' ns"
  by (induction ns rule: Dict_Find.induct[of _ k']) auto

lemma dict_sort_find:
  assumes "dict_sort (ns @ [Some (Key k v)]) = Inr ns'"
  shows "Dict_Find k' ns' = Dict_Find k' (ns @ [Some (Key k v)])"
proof (cases "ns = []")
  case True
  with assms show ?thesis by (simp add: dict_sort_def)
next
  case False
  let ?ms = "ns @ [Some (Key k v)]"
  from False have "length ?ms \<ge> 2" by (cases ns) auto
  then have keys: "all_keys ?ms" and ns': "ns' = sort_key (\<lambda>c. the (key_of c)) ?ms"
    using assms by (auto simp: dict_sort_def all_keys_def split: if_splits)
  have keys': "all_keys ns'"
    using keys by (auto simp: ns' all_keys_def list_all_iff)
  have same: "filter (\<lambda>c. key_of c = Some k') ms = filter (\<lambda>c. the (key_of c) = k') ms"
    if "all_keys ms" for ms
    using that by (intro filter_cong) (auto simp: all_keys_def list_all_iff)
  have "filter (\<lambda>c. the (key_of c) = k') ns' = filter (\<lambda>c. the (key_of c) = k') ?ms"
    unfolding ns' by (rule sort_key_stable)
  then show ?thesis
    using keys keys' same[OF keys] same[OF keys'] by (simp add: Dict_Find_filter del: filter_append)
qed

lemma Dict_Find_append:
  "Dict_Find k ns = Inr None \<Longrightarrow> Dict_Find k (ns @ ms) = Dict_Find k ms"
  by (induction k ns rule: Dict_Find.induct) (auto split: if_splits)

lemma Dict_Find_append_other:
  "k' \<noteq> k \<Longrightarrow> Dict_Find k' (ns @ [Some (Key k v)]) = Dict_Find k' ns"
  by (induction k' ns rule: Dict_Find.induct) (auto split: if_splits)

section \<open>Insertion\<close>

text \<open>A tree without lists, so that every segment of a path names a key.\<close>

fun list_free :: "node \<Rightarrow> bool" where
  "list_free (Dict ns p) = list_all list_free (children ns)"
| "list_free (Key k None) = True"
| "list_free (Key k (Some v)) = list_free v"
| "list_free (List ns p) = False"
| "list_free n = True"

lemma list_free_child: "Dict_Find k ns = Inr (Some (Some c)) \<Longrightarrow> list_free (Dict ns p) \<Longrightarrow> list_free c"
  using Dict_Find_Some[of k ns "Some c"] by (auto simp: list_all_iff in_children)

lemma insert_at_key: "\<exists>v'. fst (insert_at new (Some (Key k v)) ps) = Some (Key k v')"
  by (cases ps) (auto simp: set_child_def Let_def Find_def
      split: sum.splits option.splits node.splits prod.splits)

definition collection :: "node \<Rightarrow> bool" where
  "collection n = (case n of Dict _ _ \<Rightarrow> True | List _ _ \<Rightarrow> True | _ \<Rightarrow> False)"

text \<open>The two ways a walk steps into a dictionary: to a key it has, or to one it adds.\<close>

lemma insert_step_found:
  assumes "Dict_Find k ns = Inr (Some (Some (Key k v)))"
    and "fst (insert_at new (Some (Key k v)) ps) = Some (Key k v')"
  shows "Dict_Find k (set_key k (Some (Key k v')) ns) = Inr (Some (Some (Key k v')))"
  using Dict_Find_set_key[OF assms(1)] .

lemma insert_step_new:
  assumes "Dict_Find k ns = Inr None" "dict_sort (ns @ [Some (Key k v)]) = Inr ns'"
  shows "Dict_Find k (set_key k (Some (Key k v')) ns') = Inr (Some (Some (Key k v')))"
    and "k' \<noteq> k \<Longrightarrow> Dict_Find k' (set_key k (Some (Key k v')) ns') = Dict_Find k' ns"
proof -
  have "Dict_Find k ns' = Inr (Some (Some (Key k v)))"
    unfolding dict_sort_find[OF assms(2)] Dict_Find_append[OF assms(1)] by simp
  then show "Dict_Find k (set_key k (Some (Key k v')) ns') = Inr (Some (Some (Key k v')))"
    by (rule Dict_Find_set_key)
  assume "k' \<noteq> k"
  then show "Dict_Find k' (set_key k (Some (Key k v')) ns') = Dict_Find k' ns"
    by (simp add: Dict_Find_set_key_other dict_sort_find[OF assms(2)] Dict_Find_append_other)
qed

text \<open>The dictionary a walk steps into, and the node with that dictionary's children replaced.\<close>

definition dict_of :: "node \<Rightarrow> node option list option" where
  "dict_of n = (case n of Dict ns _ \<Rightarrow> Some ns | Key _ (Some (Dict ns _)) \<Rightarrow> Some ns | _ \<Rightarrow> None)"

definition with_dict :: "node \<Rightarrow> node option list \<Rightarrow> node" where
  "with_dict n ms = (case n of Dict _ p \<Rightarrow> Dict ms p
     | Key k (Some (Dict _ p)) \<Rightarrow> Key k (Some (Dict ms p)) | _ \<Rightarrow> n)"

lemma dict_step:
  assumes "dict_of n = Some ns"
  shows "Find k n = Dict_Find k ns" "set_child k c n = with_dict n (set_key k c ns)"
    "dict_of (with_dict n ms) = Some ms"
  using assms by (auto simp: dict_of_def Find_def set_child_def with_dict_def
      split: node.splits option.splits)

lemma dict_of_cases:
  assumes "dict_of n = Some ns"
  obtains p where "n = Dict ns p" | k p where "n = Key k (Some (Dict ns p))"
  using assms by (auto simp: dict_of_def split: node.splits option.splits)

lemma insert_at_dict:
  assumes "dict_of n = Some ns"
  shows "insert_at new (Some n) (part # ps) = (case Dict_Find part ns of
       Inl e \<Rightarrow> (Some n, Some e)
     | Inr (Some c) \<Rightarrow> (case insert_at new c ps of (c', e) \<Rightarrow> (Some (with_dict n (set_key part c' ns)), e))
     | Inr None \<Rightarrow> (case dict_sort (ns @ [Some (Key part (Some (NewDict [])))]) of
           Inl e \<Rightarrow> (Some n, Some e)
         | Inr ns' \<Rightarrow> (case insert_at new (Some (Key part (Some (NewDict [])))) ps of
               (c', e) \<Rightarrow> (Some (with_dict n (set_key part c' ns')), e))))"
  using assms
  by (cases rule: dict_of_cases) (simp_all add: Find_def set_child_def with_dict_def Let_def split: sum.split option.split prod.split)

lemma insert_at_not_dict:
  assumes "list_free n" "dict_of n = None"
  shows "snd (insert_at new (Some n) (part # ps)) \<noteq> None"
  using assms
  by (cases n) (auto simp: dict_of_def Find_def Let_def split: node.splits option.splits)

lemma insert_at_Cons:
  assumes "list_free n" "insert_at new (Some n) (part # ps) = (r, None)"
  obtains ns ms v v' where "dict_of n = Some ns" "r = Some (with_dict n ms)"
    "insert_at new (Some (Key part v)) ps = (Some (Key part v'), None)" "list_free (Key part v)"
    "Dict_Find part ms = Inr (Some (Some (Key part v')))"
    "\<And>k'. k' \<noteq> part \<Longrightarrow> Dict_Find k' ms = Dict_Find k' ns"
proof -
  obtain ns where ns: "dict_of n = Some ns"
    using insert_at_not_dict[OF assms(1), of new part ps] assms(2) by (cases "dict_of n") auto
  then have lf: "list_free (NewDict ns)"
    using assms(1) by (cases rule: dict_of_cases) simp_all
  note step = assms(2)[unfolded insert_at_dict[OF ns]]
  show thesis
  proof (cases "Dict_Find part ns")
    case (Inl e)
    with step show thesis by simp
  next
    case (Inr f)
    show thesis
    proof (cases f)
      case (Some c)
      then obtain v where c: "c = Some (Key part v)"
        using Dict_Find_Some[of part ns c] Inr by auto
      obtain v' where "fst (insert_at new c ps) = Some (Key part v')"
        using insert_at_key c by blast
      with step Inr Some have "insert_at new c ps = (Some (Key part v'), None)"
        and r: "r = Some (with_dict n (set_key part (Some (Key part v')) ns))"
        by (auto split: prod.splits)
      then show thesis
        using ns r c Inr Some list_free_child[OF _ lf]
        by (intro that[of ns "set_key part (Some (Key part v')) ns" v v'])
          (simp_all add: Dict_Find_set_key Dict_Find_set_key_other)
    next
      case None
      let ?k = "Key part (Some (NewDict []))"
      obtain v' where v': "fst (insert_at new (Some ?k) ps) = Some (Key part v')"
        using insert_at_key by blast
      obtain ns' where ns': "dict_sort (ns @ [Some ?k]) = Inr ns'"
        using step Inr None by (cases "dict_sort (ns @ [Some ?k])") auto
      with step Inr None v' have "insert_at new (Some ?k) ps = (Some (Key part v'), None)"
        and r: "r = Some (with_dict n (set_key part (Some (Key part v')) ns'))"
        by (auto split: prod.splits)
      then show thesis
        using ns r Inr None insert_step_new[OF _ ns']
        by (intro that[of ns "set_key part (Some (Key part v')) ns'" "Some (NewDict [])" v']) simp_all
    qed
  qed
qed

lemma insert_at_lookup:
  assumes "list_free n" "insert_at (Some new) (Some n) ps = (r, None)" "collection new"
  shows "\<exists>k. lookup_path r ps = Inr (Some (Some (Key k (Some new)))) \<and> (ps \<noteq> [] \<longrightarrow> k = last ps)"
  using assms(1,2)
proof (induction ps arbitrary: n r)
  case Nil
  with assms(3) show ?case
    by (auto simp: collection_def insert_value_def split: node.splits sum.splits)
next
  case (Cons part ps)
  obtain ns ms v v' where *: "dict_of n = Some ns" "r = Some (with_dict n ms)"
    "insert_at (Some new) (Some (Key part v)) ps = (Some (Key part v'), None)"
    "list_free (Key part v)" "Dict_Find part ms = Inr (Some (Some (Key part v')))"
    using insert_at_Cons[OF Cons.prems] by metis
  have "Find part (with_dict n ms) = Inr (Some (Some (Key part v')))"
    using dict_step(1)[OF dict_step(3)[OF *(1)]] *(5) by simp
  moreover obtain k where "lookup_path (Some (Key part v')) ps = Inr (Some (Some (Key k (Some new))))"
    "ps \<noteq> [] \<longrightarrow> k = last ps"
    using Cons.IH[OF *(4,3)] by blast
  ultimately show ?case
    using *(2) by (cases ps) auto
qed




section \<open>Cloning\<close>

lemma rmap_map: "rmap f (map g xs) = rmap (\<lambda>x. f (g x)) xs"
  by (induction xs) simp_all

lemma rmap_Inr: "(\<And>x. x \<in> set xs \<Longrightarrow> f x = Inr (g x)) \<Longrightarrow> rmap f xs = Inr (map g xs)"
  by (induction xs) simp_all

lemma children_map_Clone: "children (map (\<lambda>n. Some (f n)) ms) = map f ms"
  by (induction ms) simp_all

lemma toInterface_Clone: "toInterface (Clone n) = toInterface n"
proof (induction n rule: Clone.induct)
  case (1 ns p)
  have "(case Clone c of Key k None \<Rightarrow> Inr (k, GNil)
        | Key k (Some v) \<Rightarrow> rbind (toInterface v) (\<lambda>g. Inr (k, g)) | _ \<Rightarrow> Inl TPanic)
      = (case c of Key k None \<Rightarrow> Inr (k, GNil)
        | Key k (Some v) \<Rightarrow> rbind (toInterface v) (\<lambda>g. Inr (k, g)) | _ \<Rightarrow> Inl TPanic)"
    if "c \<in> set (children ns)" for c
    using 1[OF that] by (cases c rule: Clone.cases) simp_all
  then show ?case
    by (simp add: children_map_Clone rmap_map cong: rmap_cong)
next
  case (4 ns p)
  then show ?case
    by (simp add: children_map_Clone rmap_map cong: rmap_cong)
qed simp_all

lemma Hash_Clone: "Hash64With (Clone n) = Hash64With n" "Hash sha (Clone n) = Hash sha n"
  by (induction n rule: Clone.induct) (simp_all add: children_map_Clone comp_def cong: map_cong)

lemma Clone_Clone: "Clone (Clone n) = Clone n"
  by (induction n rule: Clone.induct) (simp_all add: children_map_Clone)

lemma toInterface_ShallowClone: "toInterface (ShallowClone n) = toInterface n"
proof (induction n rule: ShallowClone.induct)
  case (1 ns p)
  have "(case ShallowClone c of Key k None \<Rightarrow> Inr (k, GNil)
        | Key k (Some v) \<Rightarrow> rbind (toInterface v) (\<lambda>g. Inr (k, g)) | _ \<Rightarrow> Inl TPanic)
      = (case c of Key k None \<Rightarrow> Inr (k, GNil)
        | Key k (Some v) \<Rightarrow> rbind (toInterface v) (\<lambda>g. Inr (k, g)) | _ \<Rightarrow> Inl TPanic)" for c
    by (cases c) (simp_all split: option.split)
  then show ?case
    by (simp add: children_map_Clone rmap_map cong: rmap_cong)
qed simp_all

text \<open>A clone, deep or shallow, has the native form of the original, a deep clone has its hashes,
  and cloning a clone changes nothing.\<close>

theorem clone_preserves_content:
  "toInterface (Clone n) = toInterface n \<and> toInterface (ShallowClone n) = toInterface n
   \<and> Hash64With (Clone n) = Hash64With n \<and> Hash sha (Clone n) = Hash sha n
   \<and> Clone (Clone n) = Clone n"
  by (simp add: toInterface_Clone toInterface_ShallowClone Hash_Clone Clone_Clone)

section \<open>The visitor and the fast conversion\<close>

text \<open>A tree without nil children, whose dictionaries hold keys and whose lists hold none.\<close>

fun solid :: "node \<Rightarrow> bool" where
  "solid (Dict ns p) \<longleftrightarrow> None \<notin> set ns \<and>
     list_all (\<lambda>c. case c of Key k None \<Rightarrow> True | Key k (Some v) \<Rightarrow> solid v | _ \<Rightarrow> False) (children ns)"
| "solid (List ns p) \<longleftrightarrow> None \<notin> set ns \<and> list_all solid (children ns)"
| "solid (Key k v) = False"
| "solid n = True"

lemma no_nil_children: "None \<notin> set ns \<Longrightarrow> map Some (children ns) = ns"
proof (induction ns)
  case (Cons c ns)
  then show ?case by (cases c) auto
qed simp

lemma dispatch_toInterface: "solid n \<Longrightarrow> dispatch (Some n) = toInterface n"
proof (induction n rule: solid.induct)
  case (1 ns p)
  then have ns: "ns = map Some (children ns)"
    by (simp add: no_nil_children)
  have "(case Some c of Some (Key k v) \<Rightarrow> rbind (dispatch v) (\<lambda>g. Inr (k, g)) | _ \<Rightarrow> Inl TPanic)
      = (case c of Key k None \<Rightarrow> Inr (k, GNil)
        | Key k (Some v) \<Rightarrow> rbind (toInterface v) (\<lambda>g. Inr (k, g)) | _ \<Rightarrow> Inl TPanic)"
    if "c \<in> set (children ns)" for c
    using 1 that by (cases c) (auto simp: list_all_iff split: option.splits)
  then have "rmap (\<lambda>c. case c of Some (Key k v) \<Rightarrow> rbind (dispatch v) (\<lambda>g. Inr (k, g)) | _ \<Rightarrow> Inl TPanic)
      (map Some (children ns)) = rmap (\<lambda>c. case c of Key k None \<Rightarrow> Inr (k, GNil)
        | Key k (Some v) \<Rightarrow> rbind (toInterface v) (\<lambda>g. Inr (k, g)) | _ \<Rightarrow> Inl TPanic) (children ns)"
    unfolding rmap_map by (intro rmap_cong) auto
  with ns show ?case by simp
next
  case (2 ns p)
  then have "rmap dispatch (map Some (children ns)) = rmap toInterface (children ns)"
    unfolding rmap_map by (intro rmap_cong) (auto simp: list_all_iff)
  with 2 show ?case by (simp add: no_nil_children)
qed simp_all

text \<open>C28: On a tree without nil children the fast conversion to native values gives what visiting the
  tree with the map visitor gives.\<close>

theorem toInterface_is_map_visitor:
  assumes "solid n"
  shows "toInterface n = dispatch (Some n)"
  using assms by (simp add: dispatch_toInterface)

theorem toInterface_is_map_visitor_witness:
  "toInterface (NewDict [Some (Key ''a'' (Some (NewList [Some (NewStrVal ''x'')]))), Some (Key ''b'' None)])
   = dispatch (Some (NewDict [Some (Key ''a'' (Some (NewList [Some (NewStrVal ''x'')]))), Some (Key ''b'' None)]))"
  by (rule toInterface_is_map_visitor) simp

section \<open>Loading a configuration\<close>

text \<open>
  A configuration that the tree represents exactly: maps in order, no null inside a list, and no
  dotted name whose value is a map, since such a name is unfolded into nested dictionaries.
\<close>

fun plain :: "gval \<Rightarrow> bool" where
  "plain (GMap m) \<longleftrightarrow> sorted_map m \<and>
     list_all (\<lambda>(k, g). plain g \<and> (case g of GMap _ \<Rightarrow> CHR ''.'' \<notin> set k | _ \<Rightarrow> True)) m"
| "plain (GList gs) = list_all (\<lambda>g. g \<noteq> GNil \<and> plain g) gs"
| "plain GNull = False"
| "plain g = True"

text \<open>A loaded value: its tree is solid and its native form is the value.\<close>

definition loads :: "gval \<Rightarrow> bool" where
  "loads g \<longleftrightarrow> (\<exists>v. load g = Inr v \<and> (case v of
       None \<Rightarrow> g = GNil
     | Some n \<Rightarrow> g \<noteq> GNil \<and> toInterface n = Inr g \<and> solid n
         \<and> (case g of GMap _ \<Rightarrow> \<exists>ns. n = NewDict ns | _ \<Rightarrow> \<not> isDictOrKey (Some n))))"

definition loaded :: "gval \<Rightarrow> node option" where
  "loaded g = (case load g of Inr v \<Rightarrow> v | Inl _ \<Rightarrow> None)"

lemma load_loaded: "loads g \<Longrightarrow> load g = Inr (loaded g)"
  by (auto simp: loads_def loaded_def)

lemma loads_cases:
  assumes "loads g"
  obtains (nil) "g = GNil" "loaded g = None"
    | (tree) n where "loaded g = Some n" "g \<noteq> GNil" "toInterface n = Inr g" "solid n"
        "case g of GMap _ \<Rightarrow> \<exists>ns. n = NewDict ns | _ \<Rightarrow> \<not> isDictOrKey (Some n)"
  using assms by (auto simp: loads_def loaded_def split: option.splits)

lemma load_entry_plain:
  assumes "loads g" "case g of GMap _ \<Rightarrow> CHR ''.'' \<notin> set k | _ \<Rightarrow> True"
    and "Dict_Find k ns = Inr None"
  shows "load_entry ns k (loaded g) = Inr (ns @ [Some (Key k (loaded g))])"
  using assms(1)
proof (cases rule: loads_cases)
  case nil
  then show ?thesis by (simp add: load_entry_def isDictOrKey_def)
next
  case (tree n)
  show ?thesis
  proof (cases "\<exists>m. g = GMap m")
    case True
    then obtain ms where "n = NewDict ms" using tree by auto
    moreover have "split_on CHR ''.'' k = [k]"
      using assms(2) True by (auto intro: split_on_atom)
    ultimately show ?thesis
      using tree assms(3) by (simp add: load_entry_def isDictOrKey_def Find_def attach_rest_def)
  next
    case False
    with tree have "\<not> isDictOrKey (Some n)"
      by (cases g) auto
    with tree show ?thesis by (simp add: load_entry_def)
  qed
qed

definition key_nodes :: "(string \<times> gval) list \<Rightarrow> node option list" where
  "key_nodes m = map (\<lambda>(k, g). Some (Key k (loaded g))) m"

lemma Dict_Find_key_nodes: "k \<notin> fst ` set m \<Longrightarrow> Dict_Find k (key_nodes m) = Inr None"
  by (induction m) (auto simp: key_nodes_def)

lemma loadMap_plain:
  assumes "distinct (map fst (m0 @ m))"
    and "\<And>k g. (k, g) \<in> set m \<Longrightarrow> loads g \<and> (case g of GMap _ \<Rightarrow> CHR ''.'' \<notin> set k | _ \<Rightarrow> True)"
  shows "loadMap (key_nodes m0) m = Inr (key_nodes (m0 @ m))"
  using assms
proof (induction m arbitrary: m0)
  case (Cons e m)
  obtain k g where e: "e = (k, g)" by (cases e)
  then have g: "loads g" "case g of GMap _ \<Rightarrow> CHR ''.'' \<notin> set k | _ \<Rightarrow> True"
    using Cons.prems(2)[of k g] by auto
  have "Dict_Find k (key_nodes m0) = Inr None"
    using Cons.prems(1) e by (intro Dict_Find_key_nodes) (auto simp: image_iff)
  then have "load_entry (key_nodes m0) k (loaded g) = Inr (key_nodes (m0 @ [(k, g)]))"
    using load_entry_plain[OF g] by (simp add: key_nodes_def)
  moreover have "loadMap (key_nodes (m0 @ [(k, g)])) m = Inr (key_nodes ((m0 @ [(k, g)]) @ m))"
    using Cons.prems e by (intro Cons.IH) auto
  ultimately show ?case
    using load_loaded[OF g(1)] e by simp
qed simp

lemma key_nodes_solid:
  assumes "\<And>k g. (k, g) \<in> set m \<Longrightarrow> loads g"
  shows "solid (NewDict (key_nodes m)) \<and>
    rmap (\<lambda>c. case c of Key k None \<Rightarrow> Inr (k, GNil)
        | Key k (Some v) \<Rightarrow> rbind (toInterface v) (\<lambda>g. Inr (k, g)) | _ \<Rightarrow> Inl TPanic)
      (children (key_nodes m)) = Inr m"
  using assms
proof (induction m)
  case (Cons e m)
  obtain k g where e: "e = (k, g)" by (cases e)
  have g: "loads g" and m: "\<And>k g. (k, g) \<in> set m \<Longrightarrow> loads g"
    using Cons.prems e by auto
  from g show ?case
    using Cons.IH[OF m] e by (cases rule: loads_cases) (auto simp: key_nodes_def)
qed (simp add: key_nodes_def)

lemma loadSlice_plain:
  assumes "\<And>g. g \<in> set gs \<Longrightarrow> loads g \<and> g \<noteq> GNil"
  shows "loadSliceOrArray gs = Inr (map loaded gs) \<and> None \<notin> set (map loaded gs)
    \<and> list_all solid (children (map loaded gs)) \<and> rmap toInterface (children (map loaded gs)) = Inr gs"
  using assms
proof (induction gs)
  case (Cons g gs)
  have g: "loads g" "g \<noteq> GNil" and gs: "\<And>g. g \<in> set gs \<Longrightarrow> loads g \<and> g \<noteq> GNil"
    using Cons.prems by auto
  from g(1) show ?case
    using g Cons.IH[OF gs] load_loaded[OF g(1)] by (cases rule: loads_cases) auto
qed simp

lemma plain_loads: "plain g \<Longrightarrow> loads g"
proof (induction g rule: plain.induct)
  case (1 m)
  then have m: "loads g \<and> (case g of GMap _ \<Rightarrow> CHR ''.'' \<notin> set k | _ \<Rightarrow> True)" if "(k, g) \<in> set m" for k g
    using that by (auto simp: list_all_iff)
  have "sorted_map m" using 1 by simp
  then have "loadMap [] m = Inr (key_nodes m)"
    using loadMap_plain[of "[]" m] m sorted_map_distinct[of m] by (simp add: key_nodes_def)
  moreover have "solid (NewDict (key_nodes m))" "toInterface (NewDict (key_nodes m)) = Inr (GMap m)"
    using key_nodes_solid[of m] m map_of_entries_sorted[OF \<open>sorted_map m\<close>] by auto
  ultimately show ?case by (simp add: loads_def)
next
  case (2 gs)
  then have "\<And>g. g \<in> set gs \<Longrightarrow> loads g \<and> g \<noteq> GNil" by (auto simp: list_all_iff)
  from loadSlice_plain[OF this] show ?case by (simp add: loads_def isDictOrKey_def)
qed (simp_all add: loads_def isDictOrKey_def)

text \<open>C26: Building a tree from a configuration whose dotted names do not hold maps and whose lists hold
  no null, and mapping the tree back, gives the configuration.\<close>

theorem ast_map_roundtrip:
  assumes "plain (GMap m)"
  shows "rbind (NewAST m) AST_Map = Inr m"
  using plain_loads[OF assms]
  by (auto simp: loads_def NewAST_def AST_Map_def split: option.splits)

theorem ast_map_roundtrip_witness:
  "rbind (NewAST [(''inputs'', GList [GMap [(''enabled'', GBool True), (''type'', GStr ''logfile'')]]),
       (''outputs'', GMap [(''default'', GMap [(''port'', GInt 9200)])])]) AST_Map
   = Inr [(''inputs'', GList [GMap [(''enabled'', GBool True), (''type'', GStr ''logfile'')]]),
       (''outputs'', GMap [(''default'', GMap [(''port'', GInt 9200)])])]"
  by (rule ast_map_roundtrip) (simp add: sorted_map_def less_char_def)

section \<open>Two limits\<close>

text \<open>The equality of trees compares a hash of the concatenated contents, so whatever the hash
  function is, a list of one string equals the list of its two halves.\<close>

theorem ast_equal_ignores_boundaries:
  "AST_Equal sum64 (Some (NewList [Some (NewStrVal (a @ b))]))
     (Some (NewList [Some (NewStrVal a), Some (NewStrVal b)]))"
  by (simp add: AST_Equal_def)

text \<open>When a name holds a scalar, the map under a dotted name that starts with it is dropped from
  the tree without an error.\<close>

theorem dotted_map_below_scalar_is_dropped:
  assumes "plain (GMap m)" "CHR ''.'' \<notin> set k" "CHR ''.'' \<notin> set k'"
  shows "rbind (NewAST [(k, GStr s), (k @ CHR ''.'' # k', GMap m)]) AST_Map = Inr [(k, GStr s)]"
proof -
  obtain ns where "load (GMap m) = Inr (Some (NewDict ns))"
    using plain_loads[OF assms(1)] by (auto simp: loads_def split: option.splits)
  moreover have "split_on CHR ''.'' (k @ CHR ''.'' # k') = [k, k']"
    using assms(2,3) by (simp add: split_on_append split_on_atom)
  ultimately show ?thesis
    by (simp add: NewAST_def load_entry_def isDictOrKey_def Find_def attach_rest_def set_child_def
        AST_Map_def map_of_entries_def)
qed

theorem dotted_map_below_scalar_is_dropped_witness:
  "rbind (NewAST [(''output'', GStr ''x''), (''output.default'', GMap [(''port'', GInt 1)])]) AST_Map
     = Inr [(''output'', GStr ''x'')]"
  using dotted_map_below_scalar_is_dropped[of "[(''port'', GInt 1)]" "''output''" "''default''" "''x''"]
  by (simp add: sorted_map_def)

end
