(* ===== verification/Vars.thy ===== *)
theory Vars
  imports Ast Eql
begin

text \<open>
  Variables and their substitution: \<^verbatim>\<open>internal/pkg/agent/transpiler/vars.go\<close> and the methods \<^verbatim>\<open>Vars\<close> and
  \<^verbatim>\<open>Apply\<close> of the tree's nodes.

  The regular expression of variable references is a scanner: a reference is a dollar sign, or two
  for an escaped one, and a brace, then the longest run of the characters the expression allows,
  which must end at a closing brace. Letters are the ASCII letters. The observer of a set of
  variables is the list of names that were resolved. A fetch provider is a function of the
  variable's name, or None for a provider that cannot be fetched from.
\<close>

section \<open>References in a string\<close>

definition is_letter :: "char \<Rightarrow> bool" where
  "is_letter c \<longleftrightarrow> (65 \<le> (of_char c :: nat) \<and> (of_char c :: nat) \<le> 90)
     \<or> (97 \<le> (of_char c :: nat) \<and> (of_char c :: nat) \<le> 122)"

text \<open>White space, quotes, and the characters - . / : \ _ and |, by their codes.\<close>

definition is_body_char :: "char \<Rightarrow> bool" where
  "is_body_char c \<longleftrightarrow> is_letter c \<or> is_digit c
     \<or> (of_char c :: nat) \<in> {9, 10, 12, 13, 32, 34, 39, 45, 46, 47, 58, 92, 95, 124}"

definition var_body :: "string \<Rightarrow> (string \<times> string) option" where
  "var_body s = (case dropWhile is_body_char s of
       c # r \<Rightarrow> if c = CHR ''}'' then Some (takeWhile is_body_char s, r) else None
     | [] \<Rightarrow> None)"

text \<open>A match at the start of the string: whether it is escaped, its body, and what follows.\<close>

definition match_here :: "string \<Rightarrow> (bool \<times> string \<times> string) option" where
  "match_here s =
     (if has_prefix s ''$${'' then map_option (\<lambda>(b, r). (True, b, r)) (var_body (drop 3 s))
      else if has_prefix s ''${'' then map_option (\<lambda>(b, r). (False, b, r)) (var_body (drop 2 s))
      else None)"

lemma var_body_eq: "var_body s = Some (b, r) \<Longrightarrow> s = b @ CHR ''}'' # r \<and> list_all is_body_char b"
proof -
  assume a: "var_body s = Some (b, r)"
  then have "dropWhile is_body_char s = CHR ''}'' # r" "b = takeWhile is_body_char s"
    by (auto simp: var_body_def split: list.splits if_splits)
  then show ?thesis
    using takeWhile_dropWhile_id[of is_body_char s] set_takeWhileD[of _ is_body_char s]
    by (auto simp: list_all_iff)
qed

definition ref_text :: "bool \<Rightarrow> string \<Rightarrow> string" where
  "ref_text esc b = (if esc then ''$${'' else ''${'') @ b @ ''}''"

lemma match_here_eq: "match_here s = Some (esc, b, r) \<Longrightarrow> s = ref_text esc b @ r \<and> list_all is_body_char b"
  by (auto simp: match_here_def ref_text_def has_prefix_iff split: if_splits dest!: var_body_eq)

text \<open>\<^verbatim>\<open>FindAllStringSubmatchIndex\<close>: each match with the text before it, and the text after the last.\<close>

type_synonym ref = "string \<times> bool \<times> string"

function scan :: "string \<Rightarrow> string \<Rightarrow> ref list \<times> string" where
  "scan acc [] = ([], rev acc)"
| "scan acc (c # s) = (case match_here (c # s) of
       Some (esc, b, r) \<Rightarrow> (case scan [] r of (ms, t) \<Rightarrow> ((rev acc, esc, b) # ms, t))
     | None \<Rightarrow> scan (c # acc) s)"
  by pat_completeness auto
termination
  by (relation "measure (\<lambda>(acc, s). length s)")
    (auto dest!: match_here_eq simp: ref_text_def Cons_eq_append_conv split: if_splits)

definition validBrackets :: "string \<Rightarrow> ref list \<Rightarrow> bool" where
  "validBrackets s ms =
     (if ms = [] then \<not> contains_sub s ''${''
      else \<not> contains_sub (concat (map fst ms)) ''${'')"

section \<open>The alternatives of a reference\<close>

datatype varI = varString string | constString string

datatype extract_error = EscapedPipe | EscapedDefault | TrailingDot | OpenQuote char

definition maybeAddDefaultProvider :: "string \<Rightarrow> string \<Rightarrow> string" where
  "maybeAddDefaultProvider val dp =
     (if dp = [] \<or> contains_sub val ''.'' then val else dp @ CHR ''.'' # val)"

definition flush :: "string \<Rightarrow> bool \<Rightarrow> string \<Rightarrow> varI list \<Rightarrow> extract_error + varI list" where
  "flush dp const is res =
     (if const then Inr (res @ [constString is])
      else if is = [] then Inr res
      else if last is = CHR ''.'' then Inl TrailingDot
      else Inr (res @ [varString (maybeAddDefaultProvider is dp)]))"

definition is_quote :: "char \<Rightarrow> bool" where
  "is_quote c \<longleftrightarrow> (of_char c :: nat) \<in> {34, 39}"

text \<open>The loop of \<^verbatim>\<open>extractVars\<close>: the open quote, the flags \<^verbatim>\<open>constant\<close> and \<^verbatim>\<open>escape\<close>, and the buffers.\<close>

fun extract_loop :: "string \<Rightarrow> char option \<Rightarrow> bool \<Rightarrow> bool \<Rightarrow> string \<Rightarrow> varI list \<Rightarrow> string
    \<Rightarrow> extract_error + varI list" where
  "extract_loop dp qt const esc is res [] =
     (case qt of Some q \<Rightarrow> Inl (OpenQuote q) | None \<Rightarrow> flush dp const is res)"
| "extract_loop dp qt const esc is res (r # rs) =
     (if r = CHR ''|'' \<or> r = CHR '':'' then
        (if esc then Inl (if r = CHR ''|'' then EscapedPipe else EscapedDefault)
         else if qt = None then
           rbind (flush dp const is res) (\<lambda>res'. extract_loop dp qt (r = CHR '':'') esc [] res' rs)
         else extract_loop dp qt const esc (is @ [r]) res rs)
      else if \<not> esc \<and> is_quote r then
        (case qt of
           None \<Rightarrow> extract_loop dp (Some r) True esc is res rs
         | Some q \<Rightarrow> if q = r then extract_loop dp None const esc is res rs
             else extract_loop dp qt const esc (is @ [r]) res rs)
      else
        (let esc' = (\<not> esc \<and> r = CHR 0x5C);
             keep = (if r = CHR 0x5C then \<not> esc' else qt \<noteq> None \<or> \<not> is_ascii_space r)
         in extract_loop dp qt const esc' (if keep then is @ [r] else is) res rs))"

definition extractVars :: "string \<Rightarrow> string \<Rightarrow> extract_error + varI list" where
  "extractVars i dp = extract_loop dp None False False [] [] i"

definition varPrefixMatched :: "string \<Rightarrow> string \<Rightarrow> bool" where
  "varPrefixMatched val key = (before_sep CHR ''.'' val = key)"

section \<open>Replacement\<close>

definition nodeToValue :: "node option \<Rightarrow> node option" where
  "nodeToValue n = (case n of Some (Key _ v) \<Rightarrow> v | _ \<Rightarrow> n)"

text \<open>
  A replacer resolves a name to a node and its processors, or does not know it (Inr None), and
  has a state of its own.
\<close>

type_synonym 's replacer = "string \<Rightarrow> 's \<Rightarrow> (tr_error + (node option \<times> processors) option) \<times> 's"

datatype outcome = Whole "tr_error + node option" | Text string processors | NotSet

fun try_vars :: "bool \<Rightarrow> 's replacer \<Rightarrow> processors \<Rightarrow> varI list \<Rightarrow> 's \<Rightarrow> outcome \<times> 's" where
  "try_vars whole f p [] st = (NotSet, st)"
| "try_vars whole f p (constString c # vs) st = (Text c p, st)"
| "try_vars whole f p (varString v # vs) st = (case f v st of
       (Inl e, st') \<Rightarrow> (Whole (Inl e), st')
     | (Inr None, st') \<Rightarrow> try_vars whole f p vs st'
     | (Inr (Some (n, np)), st') \<Rightarrow>
         (let p' = (if np \<noteq> None then np else p) in
          if whole then (Whole (attachProcessors (nodeToValue n) p'), st')
          else case nodeToValue n of
            None \<Rightarrow> (Whole (Inl TPanic), st')
          | Some m \<Rightarrow> (Text (node_String m) p', st')))"

fun replace_loop :: "bool \<Rightarrow> 's replacer \<Rightarrow> bool \<Rightarrow> string \<Rightarrow> string \<Rightarrow> string \<Rightarrow> processors \<Rightarrow> ref list \<Rightarrow> 's
    \<Rightarrow> (tr_error + node option) \<times> 's" where
  "replace_loop whole f req dp tail result p [] st = (Inr (Some (StrVal (result @ tail) p)), st)"
| "replace_loop whole f req dp tail result p ((pre, esc, b) # ms) st =
     (if esc then replace_loop whole f req dp tail (result @ pre @ ''${'' @ b @ ''}'') p ms st
      else case extractVars b dp of
        Inl _ \<Rightarrow> (Inl TParseVar, st)
      | Inr vs \<Rightarrow> (case try_vars (whole \<and> pre = []) f p vs st of
            (Whole r, st') \<Rightarrow> (r, st')
          | (Text s p', st') \<Rightarrow> replace_loop whole f req dp tail (result @ pre @ s) p' ms st'
          | (NotSet, st') \<Rightarrow>
              if req then (Inl TNoMatch, st') else replace_loop whole f req dp tail result p ms st'))"

text \<open>A match is the whole string when it is the only one and nothing is before or after it.\<close>

definition replaceVars :: "string \<Rightarrow> 's replacer \<Rightarrow> bool \<Rightarrow> string \<Rightarrow> 's \<Rightarrow> (tr_error + node option) \<times> 's" where
  "replaceVars s f reqMatch dp st =
     (if \<not> contains_sub s ''${'' then (Inr (Some (NewStrVal s)), st)
      else case scan [] s of (ms, tail) \<Rightarrow>
        if \<not> validBrackets s ms then (Inl TBrackets, st)
        else replace_loop (tail = [] \<and> length ms = 1) f reqMatch dp tail [] None ms st)"

section \<open>Sets of variables\<close>

record Vars =
  varsID :: string
  tree :: ast
  processorsKey :: string
  varsProcessors :: processors
  fetchContextProviders :: "(string \<times> (string \<Rightarrow> string option) option) list"
  defaultProvider :: string
  dynamicProvider :: string
  cacheKey :: string

definition NewVarsWithProcessorsFromAst ::
  "string \<Rightarrow> ast \<Rightarrow> string \<Rightarrow> processors \<Rightarrow> (string \<times> (string \<Rightarrow> string option) option) list \<Rightarrow>
   string \<Rightarrow> string \<Rightarrow> Vars" where
  "NewVarsWithProcessorsFromAst i t pk ps fp dp dyn =
     \<lparr>varsID = i, tree = t, processorsKey = pk, varsProcessors = ps, fetchContextProviders = fp,
      defaultProvider = dp, dynamicProvider = dyn, cacheKey = []\<rparr>"

definition NewVarsFromAst ::
  "string \<Rightarrow> ast \<Rightarrow> (string \<times> (string \<Rightarrow> string option) option) list \<Rightarrow> string \<Rightarrow> Vars" where
  "NewVarsFromAst i t fp dp =
     \<lparr>varsID = i, tree = t, processorsKey = [], varsProcessors = None, fetchContextProviders = fp,
      defaultProvider = dp, dynamicProvider = [], cacheKey = []\<rparr>"

definition NewVarsWithProcessors ::
  "string \<Rightarrow> (string \<times> gval) list \<Rightarrow> string \<Rightarrow> processors \<Rightarrow>
   (string \<times> (string \<Rightarrow> string option) option) list \<Rightarrow> string \<Rightarrow> string \<Rightarrow> tr_error + Vars" where
  "NewVarsWithProcessors i m pk ps fp dp dyn =
     rbind (NewAST m) (\<lambda>t. Inr (NewVarsWithProcessorsFromAst i t pk ps fp dp dyn))"

definition NewVars ::
  "string \<Rightarrow> (string \<times> gval) list \<Rightarrow> (string \<times> (string \<Rightarrow> string option) option) list \<Rightarrow> string \<Rightarrow>
   tr_error + Vars" where
  "NewVars i m fp dp = NewVarsWithProcessors i m [] None fp dp []"

definition SetCacheKey :: "Vars \<Rightarrow> string \<Rightarrow> Vars" where
  "SetCacheKey v key = v\<lparr>cacheKey := key\<rparr>"

definition referencesFetchProvider :: "Vars \<Rightarrow> string list \<Rightarrow> bool" where
  "referencesFetchProvider v providers =
     list_ex (\<lambda>(name, _). name \<in> set providers) (fetchContextProviders v)"

text \<open>
  \<^verbatim>\<open>lookupNode\<close>: at most one fetch provider has the name of the variable's first segment. Inr None
  is the result with a false flag.
\<close>

definition lookupNode :: "Vars \<Rightarrow> string \<Rightarrow> tr_error + node option option" where
  "lookupNode v name = (case map_of (fetchContextProviders v) (before_sep CHR ''.'' name) of
       Some None \<Rightarrow> Inr None
     | Some (Some fetch) \<Rightarrow> (case fetch name of
           Some s \<Rightarrow> Inr (Some (Some (NewStrVal s))) | None \<Rightarrow> Inr None)
     | None \<Rightarrow> Lookup (tree v) name)"

definition replacer_of :: "Vars \<Rightarrow> string list replacer" where
  "replacer_of v name obs = (case lookupNode v name of
       Inl e \<Rightarrow> (Inl e, obs)
     | Inr None \<Rightarrow> (Inr None, obs)
     | Inr (Some n) \<Rightarrow>
         (Inr (Some (n, if processorsKey v \<noteq> [] \<and> varPrefixMatched name (processorsKey v)
            then varsProcessors v else None)), obs @ [name]))"

definition Replace :: "Vars \<Rightarrow> string \<Rightarrow> tr_error + node option \<times> string list" where
  "Replace v s = (case replaceVars s (replacer_of v) True (defaultProvider v) [] of
       (Inl e, _) \<Rightarrow> Inl e | (Inr n, obs) \<Rightarrow> Inr (n, obs))"

text \<open>\<^verbatim>\<open>Vars.Lookup\<close>, the store of a condition: only the tree is consulted.\<close>

definition Vars_Lookup :: "Vars \<Rightarrow> string \<Rightarrow> lookup_res" where
  "Vars_Lookup v name = (case AST_Lookup (tree v) name of
       Inl _ \<Rightarrow> LPanic | Inr None \<Rightarrow> LMissing | Inr (Some g) \<Rightarrow> LFound g)"

section \<open>The variables of a tree\<close>

fun rfold :: "('a \<Rightarrow> 's \<Rightarrow> 'e + 's) \<Rightarrow> 'a list \<Rightarrow> 's \<Rightarrow> 'e + 's" where
  "rfold f [] s = Inr s"
| "rfold f (x # xs) s = rbind (f x s) (rfold f xs)"

lemma rfold_cong [fundef_cong]:
  "xs = ys \<Longrightarrow> s = t \<Longrightarrow> (\<And>x u. x \<in> set ys \<Longrightarrow> f x u = g x u) \<Longrightarrow> rfold f xs s = rfold g ys t"
proof (induction ys arbitrary: xs s t)
  case (Cons y ys)
  then show ?case by (cases "g y t") simp_all
qed simp

definition collect :: "string list replacer" where
  "collect name vs = (Inr None, vs @ [name])"

definition string_vars :: "string \<Rightarrow> string \<Rightarrow> string list \<Rightarrow> string list" where
  "string_vars s dp vs = snd (replaceVars s collect False dp vs)"

definition is_key :: "node \<Rightarrow> bool" where
  "is_key n = (case n of Key _ _ \<Rightarrow> True | _ \<Rightarrow> False)"

fun node_Vars :: "node \<Rightarrow> string \<Rightarrow> string list \<Rightarrow> tr_error + string list" where
  "node_Vars (Dict ns p) dp vs =
     rfold (\<lambda>c us. if is_key c then node_Vars c dp us else Inl TPanic) (children ns) vs"
| "node_Vars (Key k None) dp vs = Inr vs"
| "node_Vars (Key k (Some v)) dp vs = node_Vars v dp vs"
| "node_Vars (List ns p) dp vs = rfold (\<lambda>c us. node_Vars c dp us) (children ns) vs"
| "node_Vars (StrVal s p) dp vs = Inr (string_vars s dp vs)"
| "node_Vars n dp vs = Inr vs"

section \<open>Applying variables to a tree\<close>

text \<open>
  The result of \<^verbatim>\<open>Apply\<close>: the node itself, so that the original is shared, no node, or a new one.
\<close>

datatype applied = Same | Removed | New node

record eql_config =
  parser :: "string \<Rightarrow> exp option"
  iteration :: "string \<Rightarrow> nat"
  engine :: regexp_engine

text \<open>\<^verbatim>\<open>eql.New\<close>: the empty expression is an error before it is parsed.\<close>

definition eql_New :: "eql_config \<Rightarrow> string \<Rightarrow> exp option" where
  "eql_New c s = (if s = [] then None else parser c s)"

definition eval_condition :: "eql_config \<Rightarrow> Vars \<Rightarrow> string \<Rightarrow> tr_error + bool \<times> string list" where
  "eval_condition c v s = (case eql_New c s of
       None \<Rightarrow> Inl TBadCondition
     | Some e \<Rightarrow> (case Eval \<lparr>varStore = Some (Vars_Lookup v), allowMissingVars = True,
            rank = iteration c, regexp = engine c\<rparr> e of
           Inl er \<Rightarrow> Inl (TCondition er) | Inr r \<Rightarrow> Inr r))"

text \<open>\<^verbatim>\<open>changed(i)\<close>: the nodes collected so far, or the children before the current one.\<close>

definition collected :: "node option list \<Rightarrow> node option list option \<Rightarrow> node option list" where
  "collected seen nodes = (case nodes of None \<Rightarrow> seen | Some ns \<Rightarrow> ns)"

fun Apply :: "eql_config \<Rightarrow> Vars \<Rightarrow> node \<Rightarrow> tr_error + applied \<times> string list"
  and apply_dict :: "eql_config \<Rightarrow> Vars \<Rightarrow> node option list \<Rightarrow> node option list option \<Rightarrow> node option list
    \<Rightarrow> tr_error + applied \<times> string list"
  and apply_list :: "eql_config \<Rightarrow> Vars \<Rightarrow> node option list \<Rightarrow> node option list option \<Rightarrow> node option list
    \<Rightarrow> tr_error + applied \<times> string list" where
  "Apply c v (Dict ns p) = apply_dict c v [] None ns"
| "Apply c v (List ns p) = apply_list c v [] None ns"
| "Apply c v (Key k None) = Inr (Same, [])"
| "Apply c v (Key k (Some w)) =
     (if k = ''condition'' then (case w of
          BoolVal _ _ \<Rightarrow> Inr (Same, [])
        | StrVal s _ \<Rightarrow> rbind (eval_condition c v s)
            (\<lambda>(b, obs). Inr (New (Key k (Some (BoolVal b None))), obs))
        | _ \<Rightarrow> Inl TConditionType)
      else rbind (Apply c v w) (\<lambda>(a, obs). Inr ((case a of
          Same \<Rightarrow> Same | Removed \<Rightarrow> Removed | New w' \<Rightarrow> New (Key k (Some w'))), obs)))"
| "Apply c v (StrVal s p) =
     (if \<not> contains_sub s ''${'' then Inr (Same, [])
      else rbind (Replace v s) (\<lambda>(n, obs).
        Inr ((case n of None \<Rightarrow> Removed | Some m \<Rightarrow> New m), obs)))"
| "Apply c v (IntVal i p) = Inr (Same, [])"
| "Apply c v (UIntVal i p) = Inr (Same, [])"
| "Apply c v (FloatVal i p) = Inr (Same, [])"
| "Apply c v (BoolVal i p) = Inr (Same, [])"
| "apply_dict c v seen nodes [] =
     Inr ((case nodes of None \<Rightarrow> Same | Some ns \<Rightarrow> New (NewDict ns)), [])"
| "apply_dict c v seen nodes (None # ns) =
     apply_dict c v (seen @ [None]) (Some (collected seen nodes)) ns"
| "apply_dict c v seen nodes (Some (Key k w) # ns) =
     rbind (Apply c v (Key k w)) (\<lambda>(a, obs).
       let seen' = seen @ [Some (Key k w)]; drop = Some (collected seen nodes);
           result = (case a of New n \<Rightarrow> n | _ \<Rightarrow> Key k w)
       in if a = Removed then
            rbind (apply_dict c v seen' drop ns) (\<lambda>(r, obs'). Inr (r, obs @ obs'))
          else if k = ''condition'' then (case result of
              Key _ (Some (BoolVal b _)) \<Rightarrow>
                if \<not> b then Inr (Removed, obs)
                else rbind (apply_dict c v seen' drop ns) (\<lambda>(r, obs'). Inr (r, obs @ obs'))
            | _ \<Rightarrow> Inl TPanic)
          else rbind (apply_dict c v seen'
              (if a = Same then map_option (\<lambda>ns. ns @ [Some result]) nodes
               else Some (collected seen nodes @ [Some result])) ns)
            (\<lambda>(r, obs'). Inr (r, obs @ obs')))"
| "apply_dict c v seen nodes (Some n # ns) = Inl TPanic"
| "apply_list c v seen nodes [] =
     Inr ((case nodes of None \<Rightarrow> Same | Some ns \<Rightarrow> New (NewList ns)), [])"
| "apply_list c v seen nodes (None # ns) =
     apply_list c v (seen @ [None]) (Some (collected seen nodes)) ns"
| "apply_list c v seen nodes (Some n # ns) =
     rbind (Apply c v n) (\<lambda>(a, obs).
       rbind (apply_list c v (seen @ [Some n]) (case a of
           Removed \<Rightarrow> Some (collected seen nodes)
         | Same \<Rightarrow> map_option (\<lambda>ns. ns @ [Some n]) nodes
         | New m \<Rightarrow> Some (collected seen nodes @ [Some m])) ns)
       (\<lambda>(r, obs'). Inr (r, obs @ obs')))"

end
