(* ===== verification/Vars_Props.thy ===== *)
theory Vars_Props
  imports Vars
begin

text \<open>
  What substitution promises: the functional behaviour of a reference on every branch, that
  escaped references are copied, which variables a tree depends on, and that a tree without
  references is shared.
\<close>

section \<open>Scanning\<close>

lemma close_not_body [simp]: "\<not> is_body_char CHR ''}''" "\<not> is_body_char CHR ''$''"
  "\<not> is_body_char CHR ''{''"
  by (simp_all add: is_body_char_def is_letter_def is_digit_def)

lemma var_body_intro: "list_all is_body_char b \<Longrightarrow> var_body (b @ CHR ''}'' # r) = Some (b, r)"
proof -
  assume "list_all is_body_char b"
  then have "\<forall>c\<in>set b. is_body_char c" by (simp add: list_all_iff)
  then show ?thesis
    by (simp add: var_body_def takeWhile_append2 dropWhile_append2)
qed

lemma match_here_ref: "list_all is_body_char b \<Longrightarrow> match_here (ref_text esc b @ r) = Some (esc, b, r)"
  by (cases esc) (simp_all add: match_here_def ref_text_def var_body_intro)

lemma match_here_no_dollar: "CHR ''$'' \<noteq> c \<Longrightarrow> match_here (c # s) = None"
  "c \<noteq> CHR ''$'' \<Longrightarrow> match_here (c # s) = None"
  by (simp_all add: match_here_def)

lemma scan_ref:
  assumes "list_all is_body_char b"
  shows "scan acc (ref_text esc b @ s) = (case scan [] s of (ms, t) \<Rightarrow> ((rev acc, esc, b) # ms, t))"
proof -
  obtain c r where c: "ref_text esc b @ s = c # r"
    by (cases "ref_text esc b @ s") (auto simp: ref_text_def)
  then show ?thesis
    using match_here_ref[OF assms, of esc s] by simp
qed

lemma scan_text: "CHR ''$'' \<notin> set a \<Longrightarrow> scan acc (a @ s) = scan (rev a @ acc) s"
  by (induction a arbitrary: acc) (simp_all add: match_here_no_dollar)

lemma scan_tail: "CHR ''$'' \<notin> set a \<Longrightarrow> scan acc a = ([], rev acc @ a)"
  using scan_text[of a acc "[]"] by simp

lemma scan_one:
  assumes "CHR ''$'' \<notin> set a" "CHR ''$'' \<notin> set z" "list_all is_body_char b"
  shows "scan [] (a @ ref_text esc b @ z) = ([(a, esc, b)], z)"
  using assms by (simp add: scan_text scan_ref scan_tail)

lemma no_dollar_no_prefix: "CHR ''$'' \<notin> set a \<Longrightarrow> \<not> contains_sub a ''${''"
  by (auto simp: contains_sub_iff)

lemma contains_ref: "contains_sub (a @ ref_text esc b @ z) ''${''"
proof -
  have "a @ ref_text esc b @ z = (a @ (if esc then ''$'' else [])) @ ''${'' @ (b @ ''}'' @ z)"
    by (simp add: ref_text_def)
  then show ?thesis
    unfolding contains_sub_iff by blast
qed

text \<open>The replacement of a string with one reference in it.\<close>

lemma replaceVars_one:
  assumes "CHR ''$'' \<notin> set a" "CHR ''$'' \<notin> set z" "list_all is_body_char b"
  shows "replaceVars (a @ ref_text esc b @ z) f req dp st =
    replace_loop (z = []) f req dp z [] None [(a, esc, b)] st"
  using assms scan_one[OF assms] contains_ref[of a esc b z]
  by (simp add: replaceVars_def validBrackets_def no_dollar_no_prefix)

section \<open>Names of variables\<close>

definition name_char :: "char \<Rightarrow> bool" where
  "name_char c \<longleftrightarrow> is_letter c \<or> is_digit c \<or> (of_char c :: nat) \<in> {45, 46, 47, 95}"

definition plain_name :: "string \<Rightarrow> bool" where
  "plain_name n \<longleftrightarrow> n \<noteq> [] \<and> list_all name_char n \<and> last n \<noteq> CHR ''.''"

lemma name_char_body: "name_char c \<Longrightarrow> is_body_char c"
  by (auto simp: name_char_def is_body_char_def)

lemma name_char_plain:
  assumes "name_char c"
  shows "c \<noteq> CHR ''|''" "c \<noteq> CHR '':''" "c \<noteq> CHR 0x5C" "\<not> is_quote c" "\<not> is_ascii_space c"
  using assms
  by (auto simp: name_char_def is_quote_def is_ascii_space_def is_letter_def is_digit_def)

lemma extract_name:
  "list_all name_char n \<Longrightarrow>
   extract_loop dp None False False acc res (n @ s) = extract_loop dp None False False (acc @ n) res s"
proof (induction n arbitrary: acc)
  case (Cons c n)
  then have "name_char c" by simp
  with Cons show ?case
    using name_char_plain[of c] by (simp add: Let_def)
qed simp

lemma flush_name: "plain_name n \<Longrightarrow> flush dp False n res = Inr (res @ [varString (maybeAddDefaultProvider n dp)])"
  by (auto simp: flush_def plain_name_def)

lemma extract_names:
  assumes "list_all plain_name ns" "ns \<noteq> []"
  shows "extract_loop dp None False False [] res (join_with CHR ''|'' ns) =
    Inr (res @ map (\<lambda>n. varString (maybeAddDefaultProvider n dp)) ns)"
  using assms
proof (induction ns arbitrary: res)
  case (Cons n ns)
  then have n: "plain_name n" "list_all name_char n" by (auto simp: plain_name_def)
  show ?case
  proof (cases "ns = []")
    case True
    then show ?thesis
      using extract_name[OF n(2), of dp "[]" res "[]"] flush_name[OF n(1)] by simp
  next
    case False
    with Cons show ?thesis
      using extract_name[OF n(2)] flush_name[OF n(1)] by (simp add: join_with_Cons_not_Nil)
  qed
qed simp

text \<open>The alternatives of a reference are the names between its pipes, in order, each with the
  default provider in front when it names no provider.\<close>

theorem extractVars_names:
  assumes "ns \<noteq> []" "list_all plain_name ns"
  shows "extractVars (join_with CHR ''|'' ns) dp =
    Inr (map (\<lambda>n. varString (maybeAddDefaultProvider n dp)) ns)"
  using extract_names[OF assms(2,1)] by (simp add: extractVars_def)

theorem extractVars_names_witness:
  "extractVars ''host.name|HOSTNAME'' ''env'' = Inr [varString ''host.name'', varString ''env.HOSTNAME'']"
  using extractVars_names[of "[''host.name'', ''HOSTNAME'']" "''env''"]
  by (simp add: plain_name_def name_char_def is_letter_def maybeAddDefaultProvider_def contains_sub_def)

section \<open>One reference\<close>

lemma name_body: "plain_name n \<Longrightarrow> list_all is_body_char n"
  by (auto simp: plain_name_def list_all_iff name_char_body)

lemma extract_one: "plain_name n \<Longrightarrow> extractVars n dp = Inr [varString (maybeAddDefaultProvider n dp)]"
  using extract_names[of "[n]" dp "[]"] by (simp add: extractVars_def)

text \<open>The processors that come with a variable: those of the set, when the variable is its own.\<close>

definition own_processors :: "Vars \<Rightarrow> string \<Rightarrow> processors" where
  "own_processors v name =
     (if processorsKey v \<noteq> [] \<and> varPrefixMatched name (processorsKey v) then varsProcessors v else None)"

text \<open>C33: A string with one reference to a variable. An unknown variable is reported as no match; a
  reference that is the whole string is replaced by the variable's node, whatever its kind, with
  the processors of its set; otherwise the node's text takes the place of the reference.\<close>

theorem replace_one_reference:
  assumes "CHR ''$'' \<notin> set a" "CHR ''$'' \<notin> set z" "plain_name n"
  shows "Replace v (a @ ''${'' @ n @ ''}'' @ z) =
    (let name = maybeAddDefaultProvider n (defaultProvider v); p = own_processors v name in
     case lookupNode v name of
       Inl e \<Rightarrow> Inl e
     | Inr None \<Rightarrow> Inl TNoMatch
     | Inr (Some m) \<Rightarrow>
         if a = [] \<and> z = [] then rbind (attachProcessors (nodeToValue m) p) (\<lambda>r. Inr (r, [name]))
         else (case nodeToValue m of
             None \<Rightarrow> Inl TPanic
           | Some w \<Rightarrow> Inr (Some (StrVal (a @ node_String w @ z) p), [name])))"
proof -
  let ?name = "maybeAddDefaultProvider n (defaultProvider v)"
  have text_eq: "a @ ''${'' @ n @ ''}'' @ z = a @ ref_text False n @ z"
    by (simp add: ref_text_def)
  have r: "Replace v (a @ ''${'' @ n @ ''}'' @ z) =
    (case replace_loop (z = []) (replacer_of v) True (defaultProvider v) z [] None [(a, False, n)] [] of
       (Inl e, _) \<Rightarrow> Inl e | (Inr n, obs) \<Rightarrow> Inr (n, obs))"
    unfolding Replace_def text_eq replaceVars_one[OF assms(1,2) name_body[OF assms(3)]] ..
  show ?thesis
    unfolding r
    by (cases "lookupNode v ?name")
      (auto simp: extract_one[OF assms(3)] replacer_of_def own_processors_def Let_def
        split: option.splits sum.splits)
qed

theorem replace_one_reference_witness:
  "Replace (NewVarsFromAst ''v'' (Some (NewDict [Some (Key ''env'' (Some (NewDict
       [Some (Key ''PORT'' (Some (IntVal 9200 None)))])))])) [] ''env'') (''host:'' @ ''${'' @ ''PORT'' @ ''}'' @ ''/'')
   = Inr (Some (StrVal ''host:9200/'' None), [''env.PORT''])"
proof -
  have "nat_str 9200 = ''9200''"
    by (simp add: nat_str.simps)
  then show ?thesis
    using replace_one_reference[of "''host:''" "''/''" "''PORT''"
        "NewVarsFromAst ''v'' (Some (NewDict [Some (Key ''env'' (Some (NewDict
           [Some (Key ''PORT'' (Some (IntVal 9200 None)))])))])) [] ''env''"]
    by (simp add: plain_name_def name_char_def is_letter_def NewVarsFromAst_def lookupNode_def
        maybeAddDefaultProvider_def contains_sub_def before_sep_def Lookup_def splitPath_def Find_def
        nodeToValue_def own_processors_def itoa_def Let_def)
qed

text \<open>An escaped reference is copied with one dollar sign less and is never resolved, whatever the
  variables are.\<close>

theorem escaped_reference_is_copied:
  assumes "CHR ''$'' \<notin> set a" "CHR ''$'' \<notin> set z" "list_all is_body_char b"
  shows "Replace v (a @ ''$${'' @ b @ ''}'' @ z) = Inr (Some (NewStrVal (a @ ''${'' @ b @ ''}'' @ z)), [])"
proof -
  have text_eq: "a @ ''$${'' @ b @ ''}'' @ z = a @ ref_text True b @ z"
    by (simp add: ref_text_def)
  show ?thesis
    unfolding Replace_def text_eq replaceVars_one[OF assms] by simp
qed

theorem escaped_reference_is_copied_witness:
  "Replace (NewVarsFromAst ''v'' None [] []) (''a'' @ ''$${'' @ ''host.name'' @ ''}'' @ ''b'')
   = Inr (Some (NewStrVal (''a'' @ ''${'' @ ''host.name'' @ ''}'' @ ''b'')), [])"
  by (rule escaped_reference_is_copied) (simp_all add: is_body_char_def is_letter_def)

text \<open>An opening bracket after the last reference of a string needs no closing bracket: whatever
  follows a constant reference is kept as it is, without an error.\<close>

theorem unclosed_bracket_after_reference_is_accepted:
  assumes "CHR ''$'' \<notin> set z" "CHR ''}'' \<notin> set z" "list_all name_char n"
  shows "Replace v (''${:'' @ n @ ''}'' @ ''${'' @ z) = Inr (Some (NewStrVal (n @ ''${'' @ z)), [])"
proof -
  have "is_body_char CHR '':''"
    by (simp add: is_body_char_def)
  then have nb: "list_all is_body_char (CHR '':'' # n)"
    using assms(3) by (simp add: list_all_iff name_char_body)
  have "match_here (''${'' @ z) = None"
  proof -
    have "CHR ''}'' \<notin> set (dropWhile is_body_char z)"
      using assms(2) by (auto dest: set_dropWhileD)
    then have "var_body z = None"
      by (auto simp: var_body_def split: list.splits)
    then show ?thesis by (simp add: match_here_def)
  qed
  then have tail: "scan [] (''${'' @ z) = ([], ''${'' @ z)"
    using scan_tail[OF assms(1)] by (simp add: match_here_no_dollar)
  have text_eq: "''${:'' @ n @ ''}'' @ ''${'' @ z = [] @ ref_text False (CHR '':'' # n) @ (''${'' @ z)"
    by (simp add: ref_text_def)
  have scan: "scan [] ([] @ ref_text False (CHR '':'' # n) @ (''${'' @ z)) = ([([], False, CHR '':'' # n)], ''${'' @ z)"
    using scan_ref[OF nb, of "[]" False "''${'' @ z"] tail by simp
  have "extract_loop dp None True False [] [] n = Inr [constString n]" for dp
  proof -
    have "list_all name_char n \<Longrightarrow>
      extract_loop dp None True False acc [] n = Inr [constString (acc @ n)]" for acc
    proof (induction n arbitrary: acc)
      case (Cons c n)
      then show ?case using name_char_plain[of c] by (simp add: Let_def)
    qed (simp add: flush_def)
    then show ?thesis using assms(3) by simp
  qed
  then have "extractVars (CHR '':'' # n) dp = Inr [constString n]" for dp
    by (simp add: extractVars_def flush_def)
  then have "Replace v ([] @ ref_text False (CHR '':'' # n) @ (''${'' @ z)) = Inr (Some (NewStrVal (n @ ''${'' @ z)), [])"
    unfolding Replace_def replaceVars_def scan
    using contains_ref[of "[]" False "CHR '':'' # n" "''${'' @ z"]
    by (simp add: validBrackets_def contains_sub_def)
  then show ?thesis
    unfolding text_eq .
qed

theorem unclosed_bracket_after_reference_is_accepted_witness:
  "Replace (NewVarsFromAst ''v'' None [] []) (''${:'' @ ''x'' @ ''}'' @ ''${'' @ ''host'')
   = Inr (Some (NewStrVal (''x'' @ ''${'' @ ''host'')), [])"
  by (rule unclosed_bracket_after_reference_is_accepted) (simp_all add: name_char_def is_letter_def)

end
