(* ===== verification/Apply_Props.thy ===== *)
theory Apply_Props
  imports Vars
begin

text \<open>
  What rendering a tree depends on and what it leaves alone: the result is determined by the
  variables that \<^verbatim>\<open>Vars\<close> lists and the conditions of the tree, only those variables are observed, a
  tree without references is shared, and no condition survives.
\<close>

section \<open>The names in a string\<close>

fun alt_names :: "varI list \<Rightarrow> string list" where
  "alt_names [] = []"
| "alt_names (constString c # vs) = []"
| "alt_names (varString n # vs) = n # alt_names vs"

fun match_names :: "string \<Rightarrow> ref list \<Rightarrow> string list" where
  "match_names dp [] = []"
| "match_names dp ((pre, esc, b) # ms) =
     (if esc then match_names dp ms
      else case extractVars b dp of Inl _ \<Rightarrow> [] | Inr vs \<Rightarrow> alt_names vs @ match_names dp ms)"

definition ref_names :: "string \<Rightarrow> string \<Rightarrow> string list" where
  "ref_names s dp =
     (if \<not> contains_sub s ''${'' then []
      else case scan [] s of (ms, t) \<Rightarrow> if validBrackets s ms then match_names dp ms else [])"

lemma try_vars_collect:
  "try_vars w collect p vs st =
     (if \<exists>c. constString c \<in> set vs then
        (Text (case find (\<lambda>v. \<exists>c. v = constString c) vs of Some (constString c) \<Rightarrow> c | _ \<Rightarrow> []) p, st @ alt_names vs)
      else (NotSet, st @ alt_names vs))"
  by (induction vs arbitrary: st rule: alt_names.induct) (auto simp: collect_def)

lemma replace_loop_collect:
  "snd (replace_loop w collect False dp t r p ms st) = st @ match_names dp ms"
  by (induction dp ms arbitrary: r p st rule: match_names.induct)
    (auto simp: try_vars_collect split: sum.splits)

lemma string_vars_names: "string_vars s dp vs = vs @ ref_names s dp"
  by (auto simp: string_vars_def replaceVars_def ref_names_def replace_loop_collect split: prod.splits)

lemma try_vars_cong:
  "(\<And>x st. x \<in> set (alt_names vs) \<Longrightarrow> f x st = g x st) \<Longrightarrow> try_vars w f p vs st = try_vars w g p vs st"
proof (induction vs arbitrary: st rule: alt_names.induct)
  case (3 n vs)
  then have "f n st = g n st" "\<And>st. try_vars w f p vs st = try_vars w g p vs st"
    by auto
  then show ?case
    by (auto simp: Let_def split: prod.splits sum.splits option.splits)
qed simp_all

lemma replace_loop_cong:
  "(\<And>x st. x \<in> set (match_names dp ms) \<Longrightarrow> f x st = g x st) \<Longrightarrow>
   replace_loop w f q dp t r p ms st = replace_loop w g q dp t r p ms st"
proof (induction dp ms arbitrary: r p st rule: match_names.induct)
  case (2 dp pre esc b ms)
  show ?case
  proof (cases esc)
    case True
    with 2 show ?thesis by simp
  next
    case False
    show ?thesis
    proof (cases "extractVars b dp")
      case (Inr vs)
      have fg: "f x st = g x st" if "x \<in> set (alt_names vs @ match_names dp ms)" for x st
        using that by (intro 2(3)) (simp only: match_names.simps False Inr if_False sum.case)
      have "try_vars (w \<and> pre = []) f p vs st = try_vars (w \<and> pre = []) g p vs st"
        using fg by (intro try_vars_cong) simp
      moreover have "replace_loop w f q dp t r' p' ms st' = replace_loop w g q dp t r' p' ms st'" for r' p' st'
        using fg by (intro 2(2)[OF False Inr]) simp
      ultimately show ?thesis
        using False Inr by (auto split: prod.splits outcome.splits)
    qed (use False in simp)
  qed
qed simp

lemma replaceVars_cong:
  "(\<And>x st. x \<in> set (ref_names s dp) \<Longrightarrow> f x st = g x st) \<Longrightarrow>
   replaceVars s f q dp st = replaceVars s g q dp st"
  by (auto simp: replaceVars_def ref_names_def split: prod.splits intro!: replace_loop_cong)

section \<open>The names in a tree\<close>

fun node_names :: "node \<Rightarrow> string \<Rightarrow> string list" where
  "node_names (Dict ns p) dp = concat (map (\<lambda>c. node_names c dp) (children ns))"
| "node_names (Key k None) dp = []"
| "node_names (Key k (Some v)) dp = node_names v dp"
| "node_names (List ns p) dp = concat (map (\<lambda>c. node_names c dp) (children ns))"
| "node_names (StrVal s p) dp = ref_names s dp"
| "node_names n dp = []"

lemma rfold_concat:
  assumes "\<And>c us us'. c \<in> set cs \<Longrightarrow> f c us = Inr us' \<Longrightarrow> us' = us @ g c" "rfold f cs vs = Inr us"
  shows "us = vs @ concat (map g cs)"
  using assms
proof (induction cs arbitrary: vs)
  case (Cons c cs)
  then show ?case
    by (fastforce simp: rbind_eq_Inr)
qed simp

lemma node_Vars_names: "node_Vars n dp vs = Inr us \<Longrightarrow> us = vs @ node_names n dp"
proof (induction n dp vs arbitrary: us rule: node_Vars.induct)
  case (1 ns p dp vs)
  show ?case
    using 1(2) by (simp, intro rfold_concat[OF _ 1(2)[simplified]])
      (use 1(1) in \<open>auto split: if_splits\<close>)
next
  case (4 ns p dp vs)
  show ?case
    using 4(2) by (simp, intro rfold_concat[OF _ 4(2)[simplified]]) (use 4(1) in auto)
qed (auto simp: string_vars_names)

text \<open>The condition strings of a tree.\<close>

fun conditions :: "node \<Rightarrow> string list" where
  "conditions (Dict ns p) = concat (map conditions (children ns))"
| "conditions (Key k None) = []"
| "conditions (Key k (Some v)) =
     (if k = ''condition'' then (case v of StrVal s _ \<Rightarrow> [s] | _ \<Rightarrow> []) else conditions v)"
| "conditions (List ns p) = concat (map conditions (children ns))"
| "conditions (StrVal s p) = []"
| "conditions n = []"

section \<open>What rendering depends on\<close>

lemma apply_dict_cong:
  "(\<And>n. Some n \<in> set ns \<Longrightarrow> Apply c w n = Apply c v n) \<Longrightarrow>
   apply_dict c w seen nodes ns = apply_dict c v seen nodes ns"
proof (induction ns arbitrary: seen nodes)
  case (Cons x ns)
  then have IH: "\<And>seen nodes. apply_dict c w seen nodes ns = apply_dict c v seen nodes ns"
    by simp
  show ?case
  proof (cases x)
    case (Some n)
    with Cons.prems have "Apply c w n = Apply c v n" by simp
    with IH Some show ?thesis by (cases n) (simp_all only: apply_dict.simps)
  qed (simp add: IH)
qed simp

lemma apply_list_cong:
  "(\<And>n. Some n \<in> set ns \<Longrightarrow> Apply c w n = Apply c v n) \<Longrightarrow>
   apply_list c w seen nodes ns = apply_list c v seen nodes ns"
proof (induction ns arbitrary: seen nodes)
  case (Cons x ns)
  then have IH: "\<And>seen nodes. apply_list c w seen nodes ns = apply_list c v seen nodes ns"
    by simp
  show ?case
  proof (cases x)
    case (Some n)
    with Cons.prems have "Apply c w n = Apply c v n" by simp
    with IH Some show ?thesis by (simp only: apply_list.simps)
  qed (simp add: IH)
qed simp

text \<open>Two sets of variables that resolve a name alike: the same node with the same processors.\<close>

definition agree_on :: "Vars \<Rightarrow> Vars \<Rightarrow> string \<Rightarrow> bool" where
  "agree_on v w x \<longleftrightarrow> (\<forall>obs. replacer_of w x obs = replacer_of v x obs)"

lemma Apply_agree:
  assumes "defaultProvider w = defaultProvider v"
    and "\<And>x. x \<in> set (node_names n (defaultProvider v)) \<Longrightarrow> agree_on v w x"
    and "\<And>s. s \<in> set (conditions n) \<Longrightarrow> eval_condition c w s = eval_condition c v s"
  shows "Apply c w n = Apply c v n"
  using assms(2,3)
proof (induction n rule: conditions.induct)
  case (1 ns p)
  have "Apply c w n = Apply c v n" if "Some n \<in> set ns" for n
  proof -
    have "n \<in> set (children ns)" using that by (simp add: in_children)
    with 1 show ?thesis by fastforce
  qed
  then show ?case
    unfolding Apply.simps by (rule apply_dict_cong)
next
  case (3 k x)
  show ?case
  proof (cases "k = ''condition''")
    case True
    with 3 show ?thesis by (cases x) simp_all
  next
    case False
    with 3 have "Apply c w x = Apply c v x" by simp
    with False show ?thesis by simp
  qed
next
  case (4 ns p)
  have "Apply c w n = Apply c v n" if "Some n \<in> set ns" for n
  proof -
    have "n \<in> set (children ns)" using that by (simp add: in_children)
    with 4 show ?thesis by fastforce
  qed
  then show ?case
    unfolding Apply.simps by (rule apply_list_cong)
next
  case (5 s p)
  then have "replaceVars s (replacer_of w) True (defaultProvider v) [] =
      replaceVars s (replacer_of v) True (defaultProvider v) []"
    by (intro replaceVars_cong) (simp add: agree_on_def)
  then show ?case
    by (simp add: Replace_def assms(1))
qed simp_all



section \<open>What rendering observes\<close>

lemma try_vars_obs:
  "snd (try_vars w (replacer_of v) p vs obs) = obs @ us \<Longrightarrow> set us \<subseteq> set (alt_names vs)"
  "\<exists>us. snd (try_vars w (replacer_of v) p vs obs) = obs @ us"
proof -
  have "\<exists>us. snd (try_vars w (replacer_of v) p vs obs) = obs @ us \<and> set us \<subseteq> set (alt_names vs)"
  proof (induction vs arbitrary: obs rule: alt_names.induct)
    case (3 n vs)
    show ?case
    proof (cases "lookupNode v n")
      case (Inr f)
      then show ?thesis
        using 3[of obs] by (cases f) (auto simp: replacer_of_def Let_def split: option.splits)
    qed (simp add: replacer_of_def)
  qed simp_all
  then show "snd (try_vars w (replacer_of v) p vs obs) = obs @ us \<Longrightarrow> set us \<subseteq> set (alt_names vs)"
    "\<exists>us. snd (try_vars w (replacer_of v) p vs obs) = obs @ us"
    by auto
qed

lemma replace_loop_obs:
  "set (snd (replace_loop w (replacer_of v) q dp t r p ms obs)) \<subseteq> set obs \<union> set (match_names dp ms)"
proof (induction dp ms arbitrary: r p obs rule: match_names.induct)
  case (2 dp pre esc b ms)
  show ?case
  proof (cases "esc \<or> (\<exists>e. extractVars b dp = Inl e)")
    case True
    with 2(1) show ?thesis by (cases esc) auto
  next
    case False
    then obtain vs where vs: "extractVars b dp = Inr vs" "\<not> esc"
      by (cases "extractVars b dp") auto
    obtain out obs' where tv: "try_vars (w \<and> pre = []) (replacer_of v) p vs obs = (out, obs')"
      by (cases "try_vars (w \<and> pre = []) (replacer_of v) p vs obs")
    then have obs': "set obs' \<subseteq> set obs \<union> set (alt_names vs)"
      using try_vars_obs[of "w \<and> pre = []" v p vs obs] by auto
    have rest: "set (snd (replace_loop w (replacer_of v) q dp t r' p' ms obs')) \<subseteq>
        set obs \<union> set (alt_names vs @ match_names dp ms)" for r' p'
      using 2(2)[OF vs(2,1), of r' p' obs'] obs' by auto
    have names: "match_names dp ((pre, esc, b) # ms) = alt_names vs @ match_names dp ms"
      using vs by simp
    have "set obs' \<subseteq> set obs \<union> set (alt_names vs @ match_names dp ms)"
      using obs' by auto
    with rest vs tv show ?thesis
      unfolding names by (cases out; cases q) (simp_all del: set_append)
  qed
qed simp

lemma Replace_obs: "Replace v s = Inr (n, obs) \<Longrightarrow> set obs \<subseteq> set (ref_names s (defaultProvider v))"
proof -
  assume a: "Replace v s = Inr (n, obs)"
  obtain ms t where scan: "scan [] s = (ms, t)" by (cases "scan [] s")
  have "set (snd (replace_loop (t = [] \<and> length ms = 1) (replacer_of v) True (defaultProvider v) t [] None ms []))
      \<subseteq> set (match_names (defaultProvider v) ms)"
    using replace_loop_obs[of _ v True _ t "[]" None ms "[]"] by simp
  then show ?thesis
    using a scan
    by (auto simp: Replace_def replaceVars_def ref_names_def split: if_splits prod.splits sum.splits)
qed

lemma apply_dict_obs:
  assumes "\<And>n a o'. Some n \<in> set ns \<Longrightarrow> Apply c v n = Inr (a, o') \<Longrightarrow> set o' \<subseteq> S"
    and "apply_dict c v seen nodes ns = Inr (r, obs)"
  shows "set obs \<subseteq> S"
  using assms
proof (induction ns arbitrary: seen nodes r obs)
  case (Cons x ns)
  have IH: "set obs \<subseteq> S" if "apply_dict c v seen nodes ns = Inr (r, obs)" for seen nodes r obs
    using Cons.IH[OF _ that] Cons.prems(1) by auto
  show ?case
  proof (cases x)
    case None
    with Cons.prems(2) IH show ?thesis by simp
  next
    case (Some n)
    then obtain k w where n: "n = Key k w"
      using Cons.prems(2) by (cases n) auto
    obtain a o1 where ap: "Apply c v (Key k w) = Inr (a, o1)"
      using Cons.prems(2) Some n by (auto simp: rbind_eq_Inr)
    have o1: "set o1 \<subseteq> S"
      using Cons.prems(1)[of n a o1] Some n ap by simp
    show ?thesis
      using Cons.prems(2) IH o1 unfolding Some n
      by (auto simp: ap Let_def rbind_eq_Inr simp del: Apply.simps
          split: if_splits node.splits option.splits) blast+
  qed
qed simp

lemma apply_list_obs:
  assumes "\<And>n a o'. Some n \<in> set ns \<Longrightarrow> Apply c v n = Inr (a, o') \<Longrightarrow> set o' \<subseteq> S"
    and "apply_list c v seen nodes ns = Inr (r, obs)"
  shows "set obs \<subseteq> S"
  using assms
proof (induction ns arbitrary: seen nodes r obs)
  case (Cons x ns)
  have IH: "set obs \<subseteq> S" if "apply_list c v seen nodes ns = Inr (r, obs)" for seen nodes r obs
    using Cons.IH[OF _ that] Cons.prems(1) by auto
  show ?case
  proof (cases x)
    case None
    with Cons.prems(2) IH show ?thesis by simp
  next
    case (Some n)
    with Cons.prems IH show ?thesis
      by (fastforce simp: rbind_eq_Inr)
  qed
qed simp

lemma Apply_obs:
  "conditions n = [] \<Longrightarrow> Apply c v n = Inr (a, obs) \<Longrightarrow> set obs \<subseteq> set (node_names n (defaultProvider v))"
proof (induction n arbitrary: a obs rule: conditions.induct)
  case (1 ns p)
  show ?case
  proof (rule apply_dict_obs)
    show "apply_dict c v [] None ns = Inr (a, obs)" using 1(3) by simp
    fix n a o' assume "Some n \<in> set ns" "Apply c v n = Inr (a, o')"
    with 1(1)[of n a o'] 1(2) show "set o' \<subseteq> set (node_names (Dict ns p) (defaultProvider v))"
      by (auto simp: in_children)
  qed
next
  case (3 k x)
  show ?case
  proof (cases "k = ''condition''")
    case True
    with 3 show ?thesis by (cases x) auto
  next
    case False
    with 3(3) obtain a' where "Apply c v x = Inr (a', obs)"
      by (auto simp: rbind_eq_Inr)
    with 3(1)[OF False] 3(2) False show ?thesis by simp
  qed
next
  case (4 ns p)
  show ?case
  proof (rule apply_list_obs)
    show "apply_list c v [] None ns = Inr (a, obs)" using 4(3) by simp
    fix n a o' assume "Some n \<in> set ns" "Apply c v n = Inr (a, o')"
    with 4(1)[of n a o'] 4(2) show "set o' \<subseteq> set (node_names (List ns p) (defaultProvider v))"
      by (auto simp: in_children)
  qed
next
  case (5 s p)
  then show ?case
    by (auto simp: rbind_eq_Inr split: if_splits dest!: Replace_obs)
qed auto


lemmas scan_eval = contains_sub_def match_here_def var_body_def is_body_char_def is_letter_def
  is_digit_def validBrackets_def extractVars_def flush_def is_quote_def is_ascii_space_def


section \<open>Trees without references\<close>

text \<open>No reference, no condition and no nil child, so nothing for rendering to do.\<close>

fun static :: "node \<Rightarrow> bool" where
  "static (Dict ns p) \<longleftrightarrow> None \<notin> set ns \<and> list_all (\<lambda>c. is_key c \<and> static c) (children ns)"
| "static (Key k None) = (k \<noteq> ''condition'')"
| "static (Key k (Some v)) \<longleftrightarrow> k \<noteq> ''condition'' \<and> static v"
| "static (List ns p) \<longleftrightarrow> None \<notin> set ns \<and> list_all static (children ns)"
| "static (StrVal s p) \<longleftrightarrow> \<not> contains_sub s ''${''"
| "static n = True"

lemma apply_dict_same:
  assumes "None \<notin> set ns"
    and "\<And>n. Some n \<in> set ns \<Longrightarrow> is_key n \<and> static n \<and> Apply c v n = Inr (Same, [])"
  shows "apply_dict c v seen None ns = Inr (Same, [])"
  using assms
proof (induction ns arbitrary: seen)
  case (Cons x ns)
  then obtain n where x: "x = Some n" by (cases x) auto
  then have n: "is_key n" "static n" "Apply c v n = Inr (Same, [])"
    using Cons.prems(2) by auto
  then obtain k w where "n = Key k w"
    by (cases n) (auto simp: is_key_def)
  moreover from this n(2) have "k \<noteq> ''condition''"
    by (cases w) auto
  moreover have "apply_dict c v (seen @ [x]) None ns = Inr (Same, [])"
    using Cons.prems by (intro Cons.IH) auto
  ultimately show ?case
    using n(3) x by (simp add: Let_def del: Apply.simps)
qed simp

lemma apply_list_same:
  assumes "None \<notin> set ns" "\<And>n. Some n \<in> set ns \<Longrightarrow> Apply c v n = Inr (Same, [])"
  shows "apply_list c v seen None ns = Inr (Same, [])"
  using assms
proof (induction ns arbitrary: seen)
  case (Cons x ns)
  then obtain n where x: "x = Some n" by (cases x) auto
  with Cons show ?case by auto
qed simp

lemma static_Apply: "static n \<Longrightarrow> Apply c v n = Inr (Same, [])"
proof (induction n rule: static.induct)
  case (1 ns p)
  then show ?case
    unfolding Apply.simps by (intro apply_dict_same) (auto simp: list_all_iff in_children)
next
  case (4 ns p)
  then show ?case
    unfolding Apply.simps by (intro apply_list_same) (auto simp: list_all_iff in_children)
qed auto

text \<open>A tree without references, conditions and nil children is returned as it is, so that it is
  shared between the policy and every rendering, whatever the variables are.\<close>

theorem static_tree_is_shared:
  assumes "static n"
  shows "Apply c v n = Inr (Same, [])"
  by (rule static_Apply[OF assms])

theorem static_tree_is_shared_witness:
  "Apply \<lparr>parser = \<lambda>_. None, iteration = \<lambda>_. 0, engine = \<lambda>_. None\<rparr> (NewVarsFromAst ''v'' None [] [])
     (NewDict [Some (Key ''type'' (Some (NewStrVal ''logfile''))), Some (Key ''x'' None)]) = Inr (Same, [])"
  by (rule static_tree_is_shared) (simp add: is_key_def contains_sub_def)

section \<open>Conditions\<close>

lemma Apply_key_name: "Apply c v (Key k w) = Inr (New n, obs) \<Longrightarrow> \<exists>w'. n = Key k w'"
proof (cases w)
  case (Some x)
  assume a: "Apply c v (Key k w) = Inr (New n, obs)"
  show ?thesis
  proof (cases "k = ''condition''")
    case True
    with a Some show ?thesis by (auto simp: rbind_eq_Inr split: node.splits)
  next
    case False
    with a Some obtain b where "(case b of Same \<Rightarrow> Same | Removed \<Rightarrow> Removed | New w' \<Rightarrow> New (Key k (Some w'))) = New n"
      by (auto simp: rbind_eq_Inr)
    then show ?thesis by (cases b) auto
  qed
qed simp

text \<open>The keys of the result are keys of the dictionary, without the conditions.\<close>

definition unconditional :: "node option list \<Rightarrow> bool" where
  "unconditional ns \<longleftrightarrow> list_all (\<lambda>x. \<exists>k w. x = Some (Key k w) \<and> k \<noteq> ''condition'') ns"

lemma apply_dict_unconditional:
  assumes "apply_dict c v seen nodes ns = Inr (a, obs)"
    and "unconditional seen \<or> nodes \<noteq> None" "\<And>ms. nodes = Some ms \<Longrightarrow> unconditional ms"
  shows "(a = Same \<longrightarrow> nodes = None \<and> unconditional (seen @ ns))
    \<and> (\<forall>n. a = New n \<longrightarrow> (\<exists>ms. n = NewDict ms \<and> unconditional ms))"
  using assms
proof (induction ns arbitrary: seen nodes a obs)
  case Nil
  then show ?case by (auto split: option.splits)
next
  case (Cons x ns)
  have coll: "unconditional (collected seen nodes)"
    using Cons.prems(2,3) by (cases nodes) (auto simp: collected_def)
  show ?case
  proof (cases x)
    case None
    with Cons.prems(1) Cons.IH[of "seen @ [None]" "Some (collected seen nodes)" a obs] coll
    show ?thesis by auto
  next
    case (Some n)
    then obtain k w where n: "n = Key k w"
      using Cons.prems(1) by (cases n) auto
    obtain b o1 where ap: "Apply c v (Key k w) = Inr (b, o1)"
      using Cons.prems(1) Some n by (auto simp: rbind_eq_Inr)
    let ?seen = "seen @ [Some (Key k w)]"
    have "a = Removed \<or> (\<exists>nodes' o2. apply_dict c v ?seen nodes' ns = Inr (a, o2) \<and>
        ((\<exists>ms. nodes' = Some ms \<and> unconditional ms) \<or> nodes' = None \<and> nodes = None \<and> k \<noteq> ''condition''))"
      using Cons.prems(1,3) coll Apply_key_name[of c v k w _ o1] unfolding Some n
      by (cases b; cases nodes) (auto simp: ap Let_def rbind_eq_Inr unconditional_def simp del: Apply.simps
          split: if_splits node.splits option.splits)
    then show ?thesis
    proof (elim disjE exE conjE)
      fix nodes' o2 ms
      assume "apply_dict c v ?seen nodes' ns = Inr (a, o2)" "nodes' = Some ms" "unconditional ms"
      with Cons.IH[of ?seen nodes' a o2] show ?thesis by auto
    next
      fix nodes' o2
      assume "apply_dict c v ?seen nodes' ns = Inr (a, o2)" "nodes' = None" "nodes = None" "k \<noteq> ''condition''"
      with Cons.IH[of ?seen nodes' a o2] Cons.prems(2) show ?thesis
        by (auto simp: unconditional_def Some n)
    qed simp
  qed
qed

text \<open>C32: A dictionary that survives rendering has no condition left in it: either it is shared and had
  none, or it is a new dictionary without one.\<close>

theorem apply_removes_conditions:
  assumes "Apply c v (Dict ns p) = Inr (a, obs)"
  shows "case a of Removed \<Rightarrow> True | Same \<Rightarrow> Dict_Find ''condition'' ns = Inr None
    | New n \<Rightarrow> (\<exists>ms. n = NewDict ms \<and> Dict_Find ''condition'' ms = Inr None)"
proof -
  have none: "Dict_Find ''condition'' ms = Inr None" if "unconditional ms" for ms
    using that by (induction ms) (auto simp: unconditional_def)
  show ?thesis
    using apply_dict_unconditional[of c v "[]" None ns a obs] assms none
    by (auto simp: unconditional_def split: applied.split)
qed

theorem apply_removes_conditions_witness:
  "Apply \<lparr>parser = \<lambda>_. Some (ExpBoolean True), iteration = \<lambda>_. 0, engine = \<lambda>_. None\<rparr>
     (NewVarsFromAst ''v'' None [] []) (NewDict [Some (Key ''condition'' (Some (NewStrVal ''true''))), Some (Key ''id'' None)])
     = Inr (New (NewDict [Some (Key ''id'' None)]), [])
   \<and> (\<exists>ms. NewDict [Some (Key ''id'' None)] = NewDict ms \<and> Dict_Find ''condition'' ms = Inr None)"
proof -
  have ap: "Apply \<lparr>parser = \<lambda>_. Some (ExpBoolean True), iteration = \<lambda>_. 0, engine = \<lambda>_. None\<rparr>
     (NewVarsFromAst ''v'' None [] []) (NewDict [Some (Key ''condition'' (Some (NewStrVal ''true''))), Some (Key ''id'' None)])
     = Inr (New (NewDict [Some (Key ''id'' None)]), [])"
    by (simp add: eval_condition_def eql_New_def Eval_def Let_def collected_def)
  then show ?thesis
    using apply_removes_conditions[OF ap] by simp
qed

end
