(* ===== verification/Render.thy ===== *)
theory Render
  imports Vars
begin

text \<open>
  Rendering the inputs and outputs of a policy: \<^verbatim>\<open>inputs.go\<close>, \<^verbatim>\<open>outputs.go\<close> and \<^verbatim>\<open>render_cache.go\<close> of
  \<^verbatim>\<open>internal/pkg/agent/transpiler\<close>.

  The 64-bit sum of the digest is an argument, a function of the bytes written to it. The cache
  is a map from the position of an input and the key of a set of variables to a rendered entry;
  its mutex is left out, each method being one step.
\<close>

record RenderedInputInfo =
  DynamicProvider :: string
  ProviderVars :: "string list"

record renderEntry =
  removed :: bool
  rendered :: "node option"
  mapped :: "(string \<times> gval) list"
  entryHash :: nat
  entryId :: string
  providerVars :: "string list"
  used :: bool

definition removedEntry :: renderEntry where
  "removedEntry = \<lparr>removed = True, rendered = None, mapped = [], entryHash = 0, entryId = [],
     providerVars = [], used = False\<rparr>"

section \<open>One input\<close>

text \<open>\<^verbatim>\<open>getStreams\<close>: whether there is a list of streams that is not empty.\<close>

definition getStreams :: "node option list \<Rightarrow> tr_error + bool" where
  "getStreams ns = rbind (Dict_Find ''streams'' ns) (\<lambda>f. Inr (case f of
       Some (Some (Key _ (Some (List ss _)))) \<Rightarrow> ss \<noteq> [] | _ \<Rightarrow> False))"

definition providerOwnedVars :: "string \<Rightarrow> string list \<Rightarrow> string list" where
  "providerOwnedVars provider observed =
     (if provider = [] \<or> observed = [] then []
      else sort (remdups (filter (\<lambda>n. varPrefixMatched n provider) observed)))"

definition referencedProviders :: "node \<Rightarrow> string \<Rightarrow> tr_error + string list" where
  "referencedProviders dict dp =
     rbind (node_Vars dict dp []) (\<lambda>names. Inr (remdups (map (before_sep CHR ''.'') names)))"

definition is_key_named :: "string \<Rightarrow> node option \<Rightarrow> bool" where
  "is_key_named k x \<longleftrightarrow> key_of x = Some k"

text \<open>Putting a child in place of the first key of a name.\<close>

fun replace_first :: "string \<Rightarrow> node option \<Rightarrow> node option list \<Rightarrow> node option list option" where
  "replace_first k c [] = None"
| "replace_first k c (x # xs) =
     (if is_key_named k x then Some (c # xs) else map_option ((#) x) (replace_first k c xs))"

definition value_of :: "node option \<Rightarrow> node option" where
  "value_of x = (case x of Some (Key _ v) \<Rightarrow> v | _ \<Rightarrow> None)"

text \<open>
  \<^verbatim>\<open>promoteProcessors\<close>: the current list is empty when the dictionary has no key \<^verbatim>\<open>processors\<close>; when
  the key's value is not a list the dictionary is left as it is.
\<close>

definition promoteProcessors :: "node option list \<Rightarrow> processors \<Rightarrow> tr_error + node" where
  "promoteProcessors ns dp = (case Processors (Dict ns dp) of
       None \<Rightarrow> Inr (Dict ns dp)
     | Some p \<Rightarrow>
         rbind (Dict_Find ''processors'' ns) (\<lambda>f.
           case (case f of None \<Rightarrow> Some []
                 | Some current \<Rightarrow> (case value_of current of Some (List cur _) \<Rightarrow> Some cur | _ \<Rightarrow> None)) of
             None \<Rightarrow> Inr (Dict ns dp)
           | Some cs \<Rightarrow>
               rbind (NewAST [(''processors'', GList (map GMap p))]) (\<lambda>ast.
               rbind (Lookup ast ''processors'') (\<lambda>procs. case procs of
                   Some (Some (Key _ (Some (List ps _)))) \<Rightarrow>
                     (let new = Some (Key ''processors'' (Some (NewList (ps @ cs)))) in
                      Inr (NewDict (case replace_first ''processors'' new ns of
                          Some ns' \<Rightarrow> ns' | None \<Rightarrow> ns @ [new])))
                 | _ \<Rightarrow> Inl TPanic))))"

text \<open>The id with the id of the variables behind it.\<close>

definition suffixed_id :: "node option \<Rightarrow> string \<Rightarrow> tr_error + string" where
  "suffixed_id idVal vid = (case idVal of
       Some (StrVal s _) \<Rightarrow> Inr (s @ CHR ''-'' # vid)
     | Some (IntVal i _) \<Rightarrow> Inr (itoa i @ CHR ''-'' # vid)
     | Some (UIntVal n _) \<Rightarrow> Inr (nat_str n @ CHR ''-'' # vid)
     | Some (FloatVal f _) \<Rightarrow> Inr (fmt_f f @ CHR ''-'' # vid)
     | _ \<Rightarrow> Inl TIdType)"

text \<open>The children with their unique id, and that id.\<close>

definition with_unique_id :: "string \<Rightarrow> node option list \<Rightarrow> tr_error + node option list \<times> string" where
  "with_unique_id vid ns =
     (if vid = [] then Inr (ns, [])
      else case find (is_key_named ''id'') ns of
        Some existing \<Rightarrow>
          rbind (suffixed_id (value_of existing) vid) (\<lambda>newId.
            let original = Some (case Clone (Key ''id'' (value_of existing)) of
                  Key _ w \<Rightarrow> Key ''original_id'' w | n \<Rightarrow> n)
            in case replace_first ''id'' (Some (Key ''id'' (Some (NewStrVal newId)))) ns of
                 Some ns' \<Rightarrow> Inr (ns' @ [original], newId) | None \<Rightarrow> Inl TPanic)
      | None \<Rightarrow> Inr (ns @ [Some (Key ''id'' (Some (NewStrVal vid)))], vid))"

text \<open>From the rendered dictionary to its entry; \<^verbatim>\<open>base\<close> are the children that may be modified.\<close>

definition finishInput ::
  "(string \<Rightarrow> nat) \<Rightarrow> Vars \<Rightarrow> node \<Rightarrow> node option list \<Rightarrow> processors \<Rightarrow> string list \<Rightarrow> tr_error + renderEntry" where
  "finishInput sum64 v result base bp obs =
     rbind (with_unique_id (varsID v) base) (\<lambda>(ns, newId).
     rbind (promoteProcessors ns bp) (\<lambda>dict.
     rbind (toInterface dict) (\<lambda>g. case g of
         GMap m \<Rightarrow> Inr \<lparr>removed = False, rendered = Some dict, mapped = m,
           entryHash = sum64 (Hash64With result), entryId = newId,
           providerVars = providerOwnedVars (dynamicProvider v) obs, used = False\<rparr>
       | _ \<Rightarrow> Inl TPanic)))"

definition renderInput ::
  "eql_config \<Rightarrow> (string \<Rightarrow> nat) \<Rightarrow> node option list \<Rightarrow> processors \<Rightarrow> Vars \<Rightarrow> tr_error + renderEntry" where
  "renderInput c sum64 ns p v =
     rbind (getStreams ns) (\<lambda>hadStreams.
       case Apply c v (Dict ns p) of
         Inl e \<Rightarrow> if e = TNoMatch then Inr removedEntry else Inl e
       | Inr (a, obs) \<Rightarrow>
           (case (case a of Same \<Rightarrow> Some (Dict ns p) | New n \<Rightarrow> Some n | Removed \<Rightarrow> None) of
              None \<Rightarrow> Inr removedEntry
            | Some (Dict rs rp) \<Rightarrow>
                rbind (getStreams rs) (\<lambda>streams.
                  if hadStreams \<and> \<not> streams then Inr removedEntry
                  else if a = Same
                    then finishInput sum64 v (Dict rs rp) (map Some (map ShallowClone (children ns))) None obs
                    else finishInput sum64 v (Dict rs rp) rs rp obs)
            | _ \<Rightarrow> Inl TPanic))"

section \<open>The cache\<close>

record RenderCache =
  cacheEntries :: "((nat \<times> string) \<times> renderEntry) list"
  cacheProviders :: "(nat \<times> string list) list"

definition NewRenderCache :: RenderCache where
  "NewRenderCache = \<lparr>cacheEntries = [], cacheProviders = []\<rparr>"

definition Reset :: "RenderCache \<Rightarrow> RenderCache" where
  "Reset cache = NewRenderCache"

definition Len :: "RenderCache option \<Rightarrow> nat" where
  "Len cache = (case cache of None \<Rightarrow> 0 | Some rc \<Rightarrow> length (cacheEntries rc))"

fun amap_put :: "'k \<Rightarrow> 'v \<Rightarrow> ('k \<times> 'v) list \<Rightarrow> ('k \<times> 'v) list" where
  "amap_put k v [] = [(k, v)]"
| "amap_put k v ((k', v') # m) = (if k' = k then (k, v) # m else (k', v') # amap_put k v m)"

definition cache_get :: "RenderCache \<Rightarrow> nat \<times> string \<Rightarrow> renderEntry option \<times> RenderCache" where
  "cache_get cache key = (case map_of (cacheEntries cache) key of
       None \<Rightarrow> (None, cache)
     | Some e \<Rightarrow> (let e' = e\<lparr>used := True\<rparr> in
         (Some e', cache\<lparr>cacheEntries := amap_put key e' (cacheEntries cache)\<rparr>)))"

definition cache_put :: "RenderCache \<Rightarrow> nat \<times> string \<Rightarrow> renderEntry \<Rightarrow> renderEntry \<times> RenderCache" where
  "cache_put cache key e = (let e' = e\<lparr>used := True, rendered := None\<rparr> in
     (e', cache\<lparr>cacheEntries := amap_put key e' (cacheEntries cache)\<rparr>))"

definition sweep :: "RenderCache \<Rightarrow> RenderCache" where
  "sweep cache = cache\<lparr>cacheEntries :=
     map (\<lambda>(k, e). (k, e\<lparr>used := False\<rparr>)) (filter (\<lambda>(k, e). used e) (cacheEntries cache))\<rparr>"

definition cache_inputProviders :: "RenderCache \<Rightarrow> nat \<Rightarrow> node \<Rightarrow> string \<Rightarrow> tr_error + string list \<times> RenderCache" where
  "cache_inputProviders cache idx dict dp = (case map_of (cacheProviders cache) idx of
       Some ps \<Rightarrow> Inr (ps, cache)
     | None \<Rightarrow> rbind (referencedProviders dict dp) (\<lambda>ps.
         Inr (ps, cache\<lparr>cacheProviders := amap_put idx ps (cacheProviders cache)\<rparr>)))"

section \<open>All inputs\<close>

record renderState =
  seenHashes :: "nat list"
  rentries :: "renderEntry list"
  rinfo :: "(string \<times> RenderedInputInfo) list"
  rcache :: "RenderCache option"

text \<open>The providers that each input refers to; none for an input that is not a dictionary.\<close>

fun inputProviders :: "string \<Rightarrow> nat \<Rightarrow> node option list \<Rightarrow> RenderCache option
    \<Rightarrow> tr_error + string list list \<times> RenderCache option" where
  "inputProviders dp i [] cache = Inr ([], cache)"
| "inputProviders dp i (x # xs) cache = (case x of
       Some (Dict ns p) \<Rightarrow>
         rbind (case cache of
             Some rc \<Rightarrow> rbind (cache_inputProviders rc i (Dict ns p) dp) (\<lambda>(ps, rc'). Inr (ps, Some rc'))
           | None \<Rightarrow> rbind (referencedProviders (Dict ns p) dp) (\<lambda>ps. Inr (ps, None)))
         (\<lambda>(ps, cache'). rbind (inputProviders dp (i + 1) xs cache') (\<lambda>(pss, cache''). Inr (ps # pss, cache'')))
     | _ \<Rightarrow> rbind (inputProviders dp (i + 1) xs cache) (\<lambda>(pss, cache'). Inr ([] # pss, cache')))"

text \<open>The entry of an input for a set of variables, from the cache when it may be used.\<close>

definition obtainEntry ::
  "eql_config \<Rightarrow> (string \<Rightarrow> nat) \<Rightarrow> nat \<Rightarrow> node option list \<Rightarrow> processors \<Rightarrow> string list \<Rightarrow> Vars \<Rightarrow>
   RenderCache option \<Rightarrow> tr_error + renderEntry \<times> RenderCache option" where
  "obtainEntry c sum64 i ns p provs v cache = (case cache of
       None \<Rightarrow> rbind (renderInput c sum64 ns p v) (\<lambda>e. Inr (e, None))
     | Some rc \<Rightarrow>
         if cacheKey v \<noteq> [] \<and> \<not> referencesFetchProvider v provs then
           (case cache_get rc (i, cacheKey v) of
              (Some e, rc') \<Rightarrow> Inr (e, Some rc')
            | (None, rc') \<Rightarrow> rbind (renderInput c sum64 ns p v) (\<lambda>e.
                case cache_put rc' (i, cacheKey v) e of (e', rc'') \<Rightarrow> Inr (e', Some rc'')))
         else rbind (renderInput c sum64 ns p v) (\<lambda>e. Inr (e, Some rc)))"

text \<open>One round of the inner loop.\<close>

definition renderStep ::
  "eql_config \<Rightarrow> (string \<Rightarrow> nat) \<Rightarrow> Vars \<Rightarrow> nat \<times> node option \<times> string list \<Rightarrow> renderState \<Rightarrow> tr_error + renderState" where
  "renderStep c sum64 v inp st = (case inp of
       (i, Some (Dict ns p), provs) \<Rightarrow>
         if dynamicProvider v \<noteq> [] \<and> dynamicProvider v \<notin> set provs then Inr st
         else rbind (obtainEntry c sum64 i ns p provs v (rcache st)) (\<lambda>(e, cache').
           let st' = st\<lparr>rcache := cache'\<rparr> in
           if removed e \<or> entryHash e \<in> set (seenHashes st) then Inr st'
           else Inr (st'\<lparr>seenHashes := entryHash e # seenHashes st, rentries := rentries st @ [e],
             rinfo := (if dynamicProvider v \<noteq> []
               then map_put (entryId e)
                 \<lparr>DynamicProvider = dynamicProvider v, ProviderVars = providerVars e\<rparr> (rinfo st)
               else rinfo st)\<rparr>))
     | _ \<Rightarrow> Inr st)"

definition renderAll ::
  "eql_config \<Rightarrow> (string \<Rightarrow> nat) \<Rightarrow> (nat \<times> node option \<times> string list) list \<Rightarrow> Vars list \<Rightarrow> renderState \<Rightarrow>
   tr_error + renderState" where
  "renderAll c sum64 inps vs st = rfold (\<lambda>v. rfold (renderStep c sum64 v) inps) vs st"

record RenderedInputs =
  Info :: "(string \<times> RenderedInputInfo) list"
  renderedEntries :: "renderEntry list"

definition RenderInputsCached ::
  "eql_config \<Rightarrow> (string \<Rightarrow> nat) \<Rightarrow> node \<Rightarrow> Vars list \<Rightarrow> RenderCache option \<Rightarrow>
   tr_error + RenderedInputs \<times> RenderCache option" where
  "RenderInputsCached c sum64 inputs vs cache = (case inputs of
       Key _ (Some (List ns _)) \<Rightarrow>
         rbind (inputProviders (case vs of [] \<Rightarrow> [] | v # _ \<Rightarrow> defaultProvider v) 0 ns cache) (\<lambda>(pss, cache').
         rbind (renderAll c sum64 (zip [0..<length ns] (zip ns pss)) vs
             \<lparr>seenHashes = [], rentries = [], rinfo = [], rcache = cache'\<rparr>) (\<lambda>st.
           Inr (\<lparr>Info = rinfo st, renderedEntries = rentries st\<rparr>, map_option sweep (rcache st))))
     | _ \<Rightarrow> Inl TNotArray)"

text \<open>\<^verbatim>\<open>RenderedInputs.Node\<close> panics on an entry whose tree was dropped by the cache.\<close>

definition RenderedInputs_Node :: "RenderedInputs \<Rightarrow> tr_error + node" where
  "RenderedInputs_Node r =
     rbind (rmap (\<lambda>e. case rendered e of None \<Rightarrow> Inl TPanic | Some n \<Rightarrow> Inr (Some n)) (renderedEntries r))
       (\<lambda>ns. Inr (NewList ns))"

definition RenderedInputs_Maps :: "RenderedInputs \<Rightarrow> (string \<times> gval) list list" where
  "RenderedInputs_Maps r = map mapped (renderedEntries r)"

definition RenderInputs ::
  "eql_config \<Rightarrow> (string \<Rightarrow> nat) \<Rightarrow> node \<Rightarrow> Vars list \<Rightarrow> tr_error + node \<times> (string \<times> RenderedInputInfo) list" where
  "RenderInputs c sum64 inputs vs =
     rbind (RenderInputsCached c sum64 inputs vs None) (\<lambda>(r, _).
     rbind (RenderedInputs_Node r) (\<lambda>n. Inr (n, Info r)))"

section \<open>Outputs\<close>

definition renderOutput :: "eql_config \<Rightarrow> Vars \<Rightarrow> node option \<Rightarrow> tr_error + node option" where
  "renderOutput c v x = (case x of
       Some (Key k (Some (Dict ns p))) \<Rightarrow>
         rbind (Apply c v (Dict ns p)) (\<lambda>(a, _). Inr (Some (Key k (case a of
           Same \<Rightarrow> Some (Dict ns p) | Removed \<Rightarrow> None | New n \<Rightarrow> Some n))))
     | _ \<Rightarrow> Inr x)"

definition RenderOutputs :: "eql_config \<Rightarrow> node \<Rightarrow> Vars list \<Rightarrow> tr_error + node" where
  "RenderOutputs c outputs vs = (case vs of
       [] \<Rightarrow> Inr outputs
     | v # _ \<Rightarrow> (case outputs of
           Key _ (Some (Dict ns _)) \<Rightarrow> rbind (rmap (renderOutput c v) ns) (\<lambda>ns'. Inr (NewDict ns'))
         | _ \<Rightarrow> Inl TMapType))"

end
