(* ===== verification/Render_Props.thy ===== *)
theory Render_Props
  imports Render Apply_Props
begin

text \<open>
  What rendering promises: with a valid cache it produces what it produces without one and
  leaves the cache valid, every input is produced once, and the rendering information names
  rendered inputs.
\<close>

section \<open>Sets of variables with the same content\<close>

text \<open>
  The contract of \<^verbatim>\<open>SetCacheKey\<close>: two sets with the same key differ at most in the functions of their
  fetch providers, whose values are resolved at lookup time.
\<close>

definition same_content :: "Vars \<Rightarrow> Vars \<Rightarrow> bool" where
  "same_content v w \<longleftrightarrow> v\<lparr>fetchContextProviders := []\<rparr> = w\<lparr>fetchContextProviders := []\<rparr>
     \<and> map fst (fetchContextProviders v) = map fst (fetchContextProviders w)"

lemma same_content_fields:
  assumes "same_content v w"
  shows "varsID w = varsID v" "tree w = tree v" "processorsKey w = processorsKey v"
    "varsProcessors w = varsProcessors v" "defaultProvider w = defaultProvider v"
    "dynamicProvider w = dynamicProvider v" "cacheKey w = cacheKey v"
    "map fst (fetchContextProviders w) = map fst (fetchContextProviders v)"
proof -
  have eq: "v\<lparr>fetchContextProviders := []\<rparr> = w\<lparr>fetchContextProviders := []\<rparr>"
    using assms by (simp add: same_content_def)
  show "varsID w = varsID v" "tree w = tree v" "processorsKey w = processorsKey v"
    "varsProcessors w = varsProcessors v" "defaultProvider w = defaultProvider v"
    "dynamicProvider w = dynamicProvider v" "cacheKey w = cacheKey v"
    using arg_cong[OF eq, of varsID] arg_cong[OF eq, of tree] arg_cong[OF eq, of processorsKey]
      arg_cong[OF eq, of varsProcessors] arg_cong[OF eq, of defaultProvider]
      arg_cong[OF eq, of dynamicProvider] arg_cong[OF eq, of cacheKey]
    by simp_all
  show "map fst (fetchContextProviders w) = map fst (fetchContextProviders v)"
    using assms by (simp add: same_content_def)
qed

lemma no_fetch_lookup:
  assumes "before_sep CHR ''.'' x \<notin> set (map fst (fetchContextProviders v))"
  shows "lookupNode v x = Lookup (tree v) x"
  using assms by (simp add: lookupNode_def map_of_eq_None_iff[THEN iffD2])

lemma same_content_agree:
  assumes "same_content v w" "before_sep CHR ''.'' x \<notin> set (map fst (fetchContextProviders v))"
  shows "agree_on v w x"
proof -
  note f = same_content_fields[OF assms(1)]
  have "lookupNode w x = lookupNode v x"
    using assms(2) f(2,8) by (simp add: no_fetch_lookup)
  then show ?thesis
    by (simp only: agree_on_def replacer_of_def f simp_thms)
qed

lemma references_names:
  assumes "referencedProviders n dp = Inr provs" "\<not> referencesFetchProvider v provs"
    and "x \<in> set (node_names n dp)"
  shows "before_sep CHR ''.'' x \<notin> set (map fst (fetchContextProviders v))"
proof -
  obtain names where "node_Vars n dp [] = Inr names" "provs = remdups (map (before_sep CHR ''.'') names)"
    using assms(1) by (auto simp: referencedProviders_def rbind_eq_Inr)
  then have "before_sep CHR ''.'' x \<in> set provs"
    using assms(3) node_Vars_names[of n dp "[]" names] by simp
  then show ?thesis
    using assms(2) by (auto simp: referencesFetchProvider_def list_ex_iff)
qed

lemma same_content_condition: "same_content v w \<Longrightarrow> eval_condition c w s = eval_condition c v s"
  by (simp add: eval_condition_def Vars_Lookup_def[abs_def] same_content_fields(2) cong: option.case_cong)

lemma same_content_Apply:
  assumes "same_content v w" "referencedProviders n (defaultProvider v) = Inr provs"
    and "\<not> referencesFetchProvider v provs"
  shows "Apply c w n = Apply c v n"
  using assms same_content_fields(5)[OF assms(1)]
  by (intro Apply_agree) (auto intro: same_content_agree same_content_condition dest: references_names)

lemma same_content_renderInput:
  assumes "same_content v w" "referencedProviders (Dict ns p) (defaultProvider v) = Inr provs"
    and "\<not> referencesFetchProvider v provs"
  shows "renderInput c sum64 ns p w = renderInput c sum64 ns p v"
proof -
  have "finishInput sum64 w r b bp obs = finishInput sum64 v r b bp obs" for r b bp obs
    by (simp only: finishInput_def same_content_fields[OF assms(1)])
  then show ?thesis
    by (simp only: renderInput_def same_content_Apply[OF assms])
qed

lemma same_content_refs: "same_content v w \<Longrightarrow> referencesFetchProvider w provs = referencesFetchProvider v provs"
proof -
  assume "same_content v w"
  then have "set (map fst (fetchContextProviders w)) = set (map fst (fetchContextProviders v))"
    by (simp add: same_content_fields(8))
  moreover have "referencesFetchProvider u provs \<longleftrightarrow> (\<exists>n\<in>set (map fst (fetchContextProviders u)). n \<in> set provs)" for u
    by (force simp: referencesFetchProvider_def list_ex_iff)
  ultimately show ?thesis by metis
qed

section \<open>Valid caches\<close>

text \<open>An entry without the parts the cache changes.\<close>

definition norm :: "renderEntry \<Rightarrow> renderEntry" where
  "norm e = e\<lparr>rendered := None, used := False\<rparr>"

lemma norm_fields:
  assumes "norm e = norm e'"
  shows "removed e = removed e'" "mapped e = mapped e'" "entryHash e = entryHash e'"
    "entryId e = entryId e'" "providerVars e = providerVars e'"
  using assms by (cases e; cases e'; simp add: norm_def)+

lemma norm_update [simp]: "norm (e\<lparr>used := b\<rparr>) = norm e" "norm (e\<lparr>rendered := r\<rparr>) = norm e"
  by (simp_all add: norm_def)

lemma map_of_amap_put: "map_of (amap_put k v m) = (map_of m)(k \<mapsto> v)"
  by (induction m) (auto simp: fun_eq_iff)

lemma distinct_amap_put: "distinct (map fst m) \<Longrightarrow> distinct (map fst (amap_put k v m))"
proof -
  have "set (map fst (amap_put k v m)) = insert k (set (map fst m))" for m
  proof (induction m)
    case (Cons x m)
    then show ?case by (cases x) (simp add: insert_commute)
  qed simp
  then show "distinct (map fst m) \<Longrightarrow> distinct (map fst (amap_put k v m))"
    by (induction m) auto
qed

text \<open>
  A cache is valid for inputs, a default provider and a collection of sets of variables when each
  entry is what rendering its input against any set with its key gives, and the providers
  it remembers are those the input refers to.
\<close>

definition entry_valid where
  "entry_valid c sum64 (ns :: node option list) dp U k e \<longleftrightarrow>
     (\<forall>v ms p provs. v \<in> U \<longrightarrow> cacheKey v = snd k \<longrightarrow> fst k < length ns \<longrightarrow> ns ! fst k = Some (Dict ms p) \<longrightarrow>
        referencedProviders (Dict ms p) dp = Inr provs \<longrightarrow> \<not> referencesFetchProvider v provs \<longrightarrow>
        (\<exists>e0. renderInput c sum64 ms p v = Inr e0 \<and> norm e = norm e0))"

definition cache_valid where
  "cache_valid c sum64 (ns :: node option list) dp U cache \<longleftrightarrow>
     distinct (map fst (cacheEntries cache))
     \<and> (\<forall>k e. map_of (cacheEntries cache) k = Some e \<longrightarrow> entry_valid c sum64 ns dp U k e)
     \<and> (\<forall>i ps d. map_of (cacheProviders cache) i = Some ps \<longrightarrow> i < length ns \<longrightarrow> ns ! i = Some d \<longrightarrow>
          referencedProviders d dp = Inr ps)"

lemma cache_valid_new: "cache_valid c sum64 ns dp U NewRenderCache"
  by (simp add: cache_valid_def NewRenderCache_def)

lemma cache_valid_put_entry:
  assumes "cache_valid c sum64 ns dp U cache" "entry_valid c sum64 ns dp U k e"
  shows "cache_valid c sum64 ns dp U (cache\<lparr>cacheEntries := amap_put k e (cacheEntries cache)\<rparr>)"
  using assms by (auto simp: cache_valid_def distinct_amap_put map_of_amap_put)

lemma cache_valid_sweep:
  assumes "cache_valid c sum64 ns dp U cache"
  shows "cache_valid c sum64 ns dp U (sweep cache)"
proof -
  let ?es = "cacheEntries cache"
  let ?f = "filter (\<lambda>(k, e). used e) ?es"
  have d: "distinct (map fst ?es)"
    using assms by (simp add: cache_valid_def)
  then have df: "distinct (map fst ?f)"
    by (simp add: distinct_map_filter)
  have fst_map: "map fst (map (\<lambda>(k, e). (k, e\<lparr>used := False\<rparr>)) ?f) = map fst ?f"
    by auto
  have "\<exists>e'. map_of ?es k = Some e' \<and> e = e'\<lparr>used := False\<rparr>"
    if "map_of (map (\<lambda>(k, e). (k, e\<lparr>used := False\<rparr>)) ?f) k = Some e" for k e
    using that d by (auto dest!: map_of_SomeD)
  then show ?thesis
    using assms df unfolding cache_valid_def sweep_def
    by (auto simp: fst_map entry_valid_def simp del: map_map)
qed

section \<open>Rendering with and without the cache\<close>

text \<open>What the renderer may assume of the sets of variables it is given.\<close>

definition contract :: "string \<Rightarrow> Vars set \<Rightarrow> bool" where
  "contract dp U \<longleftrightarrow> (\<forall>v\<in>U. defaultProvider v = dp)
     \<and> (\<forall>v\<in>U. \<forall>w\<in>U. cacheKey v \<noteq> [] \<longrightarrow> cacheKey v = cacheKey w \<longrightarrow> same_content v w)"

text \<open>The inputs with their positions and the providers they refer to.\<close>

definition indexed :: "node option list \<Rightarrow> string \<Rightarrow> nat \<times> node option \<times> string list \<Rightarrow> bool" where
  "indexed ns dp inp \<longleftrightarrow> (case inp of (i, x, provs) \<Rightarrow> i < length ns \<and> ns ! i = x
     \<and> (\<forall>ms p. x = Some (Dict ms p) \<longrightarrow> referencedProviders (Dict ms p) dp = Inr provs))"

lemma entry_valid_render:
  assumes "contract dp U" "v \<in> U" "cacheKey v \<noteq> []" "renderInput c sum64 ms p v = Inr e0" "norm e = norm e0"
    and "indexed ns dp (i, Some (Dict ms p), provs)" "\<not> referencesFetchProvider v provs"
  shows "entry_valid c sum64 ns dp U (i, cacheKey v) e"
  unfolding entry_valid_def
proof (intro allI impI)
  fix w ms' p' provs'
  assume w: "w \<in> U" "cacheKey w = snd (i, cacheKey v)" "ns ! fst (i, cacheKey v) = Some (Dict ms' p')"
    "referencedProviders (Dict ms' p') dp = Inr provs'"
  have "same_content v w" "defaultProvider v = dp" "ms' = ms" "p' = p"
    using assms w by (auto simp: contract_def indexed_def)
  then have "renderInput c sum64 ms p w = renderInput c sum64 ms p v"
    using assms(6,7) by (intro same_content_renderInput) (auto simp: indexed_def)
  then show "\<exists>e0. renderInput c sum64 ms' p' w = Inr e0 \<and> norm e = norm e0"
    using assms(4,5) \<open>ms' = ms\<close> \<open>p' = p\<close> by simp
qed

text \<open>The cached run of obtaining an entry against the uncached one.\<close>

lemma obtainEntry_cached:
  assumes "contract dp U" "v \<in> U" "indexed ns dp (i, Some (Dict ms p), provs)"
    and "cache_valid c sum64 ns dp U rc"
  shows "case renderInput c sum64 ms p v of
      Inl er \<Rightarrow> obtainEntry c sum64 i ms p provs v (Some rc) = Inl er
    | Inr e0 \<Rightarrow> \<exists>e rc'. obtainEntry c sum64 i ms p provs v (Some rc) = Inr (e, Some rc')
        \<and> norm e = norm e0 \<and> cache_valid c sum64 ns dp U rc'"
proof (cases "cacheKey v \<noteq> [] \<and> \<not> referencesFetchProvider v provs")
  case False
  then show ?thesis
    using assms(4) by (auto simp: obtainEntry_def split: sum.splits)
next
  case True
  show ?thesis
  proof (cases "map_of (cacheEntries rc) (i, cacheKey v)")
    case None
    then show ?thesis
    proof (cases "renderInput c sum64 ms p v")
      case (Inr e0)
      have "entry_valid c sum64 ns dp U (i, cacheKey v) (e0\<lparr>used := True, rendered := None\<rparr>)"
        using assms True Inr by (intro entry_valid_render) auto
      with assms(4) True None Inr show ?thesis
        by (auto simp: obtainEntry_def cache_get_def cache_put_def Let_def intro: cache_valid_put_entry)
    qed (use True None in \<open>simp add: obtainEntry_def cache_get_def\<close>)
  next
    case (Some e)
    then have ev: "entry_valid c sum64 ns dp U (i, cacheKey v) e"
      using assms(4) by (simp add: cache_valid_def)
    then obtain e0 where e0: "renderInput c sum64 ms p v = Inr e0" "norm e = norm e0"
      using assms(2,3) True by (auto simp: entry_valid_def indexed_def)
    have "entry_valid c sum64 ns dp U (i, cacheKey v) (e\<lparr>used := True\<rparr>)"
      using ev by (simp add: entry_valid_def)
    with assms(4) True Some e0 show ?thesis
      by (auto simp: obtainEntry_def cache_get_def Let_def intro: cache_valid_put_entry)
  qed
qed

text \<open>The states of the two runs.\<close>

definition related where
  "related c sum64 ns dp U st st0 \<longleftrightarrow> seenHashes st = seenHashes st0 \<and> rinfo st = rinfo st0
     \<and> map norm (rentries st) = map norm (rentries st0) \<and> rcache st0 = None
     \<and> (\<exists>rc. rcache st = Some rc \<and> cache_valid c sum64 ns dp U rc)"

definition related_res where
  "related_res c sum64 ns dp U r r0 \<longleftrightarrow> (case r0 of
       Inl er \<Rightarrow> r = Inl er | Inr st0 \<Rightarrow> (\<exists>st. r = Inr st \<and> related c sum64 ns dp U st st0))"

lemma renderStep_related:
  assumes "contract dp U" "v \<in> U" "indexed ns dp inp" "related c sum64 ns dp U st st0"
  shows "related_res c sum64 ns dp U (renderStep c sum64 v inp st) (renderStep c sum64 v inp st0)"
proof (cases "\<exists>i ms p provs. inp = (i, Some (Dict ms p), provs) \<and>
    \<not> (dynamicProvider v \<noteq> [] \<and> dynamicProvider v \<notin> set provs)")
  case False
  then have "renderStep c sum64 v inp st = Inr st" "renderStep c sum64 v inp st0 = Inr st0"
    by (cases inp; auto simp: renderStep_def split: node.splits option.splits)+
  with assms(4) show ?thesis by (simp add: related_res_def)
next
  case True
  then obtain i ms p provs where inp: "inp = (i, Some (Dict ms p), provs)"
    and ref: "\<not> (dynamicProvider v \<noteq> [] \<and> dynamicProvider v \<notin> set provs)" by blast
  obtain rc where rc: "rcache st = Some rc" "cache_valid c sum64 ns dp U rc" "rcache st0 = None"
    using assms(4) by (auto simp: related_def)
  note obt = obtainEntry_cached[OF assms(1,2) assms(3)[unfolded inp] rc(2)]
  show ?thesis
  proof (cases "renderInput c sum64 ms p v")
    case (Inl er)
    with obt rc inp ref show ?thesis
      by (auto simp: related_res_def renderStep_def obtainEntry_def)
  next
    case (Inr e0)
    then obtain e rc' where e: "obtainEntry c sum64 i ms p provs v (Some rc) = Inr (e, Some rc')"
      "norm e = norm e0" "cache_valid c sum64 ns dp U rc'"
      using obt by auto
    have "obtainEntry c sum64 i ms p provs v None = Inr (e0, None)"
      using Inr by (simp add: obtainEntry_def)
    with assms(4) rc e inp ref show ?thesis
      using norm_fields[OF e(2)]
      by (auto simp: related_res_def related_def renderStep_def Let_def)
  qed
qed

lemma rfold_related:
  assumes "\<And>x st st0. x \<in> set xs \<Longrightarrow> related c sum64 ns dp U st st0 \<Longrightarrow>
      related_res c sum64 ns dp U (f x st) (f x st0)"
    and "related c sum64 ns dp U st st0"
  shows "related_res c sum64 ns dp U (rfold f xs st) (rfold f xs st0)"
  using assms
proof (induction xs arbitrary: st st0)
  case Nil
  then show ?case by (simp add: related_res_def)
next
  case (Cons x xs)
  have hd: "related_res c sum64 ns dp U (f x st) (f x st0)"
    using Cons.prems by simp
  have tl: "related_res c sum64 ns dp U (rfold f xs s) (rfold f xs s0)" if "related c sum64 ns dp U s s0" for s s0
    using that Cons.prems(1) by (intro Cons.IH) simp_all
  show ?case
  proof (cases "f x st0")
    case (Inl er)
    with hd show ?thesis by (simp add: related_res_def)
  next
    case (Inr b)
    with hd obtain s where "f x st = Inr s" "related c sum64 ns dp U s b"
      by (auto simp: related_res_def)
    with tl Inr show ?thesis by simp
  qed
qed

lemma renderAll_related:
  assumes "contract dp U" "set vs \<subseteq> U" "\<And>inp. inp \<in> set inps \<Longrightarrow> indexed ns dp inp"
    and "related c sum64 ns dp U st st0"
  shows "related_res c sum64 ns dp U (renderAll c sum64 inps vs st) (renderAll c sum64 inps vs st0)"
  unfolding renderAll_def using assms
  by (intro rfold_related) (auto intro!: rfold_related renderStep_related)

text \<open>The positions and providers that the loop works with are those of the inputs.\<close>

lemma inputProviders_uncached:
  assumes "inputProviders dp i ns None = Inr (pss, cache)"
  shows "cache = None \<and> length pss = length ns \<and> (\<forall>j<length ns. \<forall>ms p. ns ! j = Some (Dict ms p) \<longrightarrow>
      referencedProviders (Dict ms p) dp = Inr (pss ! j))"
  using assms
proof (induction ns arbitrary: i pss cache)
  case (Cons x xs)
  show ?case
  proof (cases "\<exists>ms p. x = Some (Dict ms p)")
    case True
    then obtain ms p where x: "x = Some (Dict ms p)" by blast
    with Cons.prems obtain ps pss' where "referencedProviders (Dict ms p) dp = Inr ps"
      "inputProviders dp (i + 1) xs None = Inr (pss', cache)" "pss = ps # pss'"
      by (auto simp: rbind_eq_Inr)
    with Cons.IH[of "i + 1" pss' cache] x show ?thesis
      by (auto simp: nth_Cons split: nat.splits)
  next
    case False
    with Cons.prems obtain pss' where "inputProviders dp (i + 1) xs None = Inr (pss', cache)" "pss = [] # pss'"
      by (auto simp: rbind_eq_Inr split: option.splits node.splits)
    with Cons.IH[of "i + 1" pss' cache] False show ?thesis
      by (auto simp: nth_Cons split: nat.splits)
  qed
qed simp

lemma inputProviders_cached:
  assumes "cache_valid c sum64 (ms0 @ ns) dp U rc" "i = length ms0"
  shows "case inputProviders dp i ns None of
      Inl er \<Rightarrow> inputProviders dp i ns (Some rc) = Inl er
    | Inr (pss, _) \<Rightarrow> \<exists>rc'. inputProviders dp i ns (Some rc) = Inr (pss, Some rc')
        \<and> cache_valid c sum64 (ms0 @ ns) dp U rc'"
  using assms
proof (induction ns arbitrary: i ms0 rc)
  case (Cons x xs)
  have IH: "case inputProviders dp (i + 1) xs None of
      Inl er \<Rightarrow> inputProviders dp (i + 1) xs (Some rc') = Inl er
    | Inr (pss, _) \<Rightarrow> \<exists>rc''. inputProviders dp (i + 1) xs (Some rc') = Inr (pss, Some rc'')
        \<and> cache_valid c sum64 (ms0 @ x # xs) dp U rc''"
    if "cache_valid c sum64 (ms0 @ x # xs) dp U rc'" for rc'
  proof -
    have app: "(ms0 @ [x]) @ xs = ms0 @ x # xs" by simp
    show ?thesis
      using Cons.IH[of "ms0 @ [x]" rc' "i + 1", unfolded app, OF that] Cons.prems(2) by simp
  qed
  show ?case
  proof (cases "\<exists>ms p. x = Some (Dict ms p)")
    case False
    then show ?thesis
      using IH[OF Cons.prems(1)] by (auto split: sum.splits option.splits node.splits)
  next
    case True
    then obtain ms p where x: "x = Some (Dict ms p)" by blast
    have prov: "case referencedProviders (Dict ms p) dp of
        Inl er \<Rightarrow> cache_inputProviders rc i (Dict ms p) dp = Inl er
      | Inr ps \<Rightarrow> \<exists>rc'. cache_inputProviders rc i (Dict ms p) dp = Inr (ps, rc')
          \<and> cache_valid c sum64 (ms0 @ x # xs) dp U rc'"
    proof (cases "map_of (cacheProviders rc) i")
      case (Some ps)
      moreover have "(ms0 @ x # xs) ! i = Some (Dict ms p)" using Cons.prems(2) x by simp
      ultimately have "referencedProviders (Dict ms p) dp = Inr ps"
        using Cons.prems unfolding cache_valid_def by auto
      with Some Cons.prems(1) show ?thesis by (simp add: cache_inputProviders_def)
    next
      case None
      show ?thesis
      proof (cases "referencedProviders (Dict ms p) dp")
        case (Inr ps)
        have "cache_valid c sum64 (ms0 @ x # xs) dp U
            (rc\<lparr>cacheProviders := amap_put i ps (cacheProviders rc)\<rparr>)"
          using Cons.prems x Inr unfolding cache_valid_def by (auto simp: map_of_amap_put)
        with None Inr show ?thesis by (simp add: cache_inputProviders_def)
      qed (simp add: None cache_inputProviders_def)
    qed
    show ?thesis
    proof (cases "referencedProviders (Dict ms p) dp")
      case (Inl er)
      with prov x show ?thesis by simp
    next
      case (Inr ps)
      with prov obtain rc' where "cache_inputProviders rc i (Dict ms p) dp = Inr (ps, rc')"
        and valid: "cache_valid c sum64 (ms0 @ x # xs) dp U rc'" by auto
      with Inr x IH[OF valid] show ?thesis
        by (auto split: sum.splits)
    qed
  qed
qed simp

lemma indexed_inputs:
  assumes "inputProviders dp 0 ns None = Inr (pss, None)" "inp \<in> set (zip [0..<length ns] (zip ns pss))"
  shows "indexed ns dp inp"
  using inputProviders_uncached[OF assms(1)] assms(2)
  by (auto simp: indexed_def set_zip)

text \<open>The observable result of a run.\<close>

fun same_outcome :: "tr_error + RenderedInputs \<times> RenderCache option \<Rightarrow>
    tr_error + RenderedInputs \<times> RenderCache option \<Rightarrow> bool" where
  "same_outcome (Inl e) (Inl e') = (e = e')"
| "same_outcome (Inr (r, _)) (Inr (r', _)) =
     (Info r = Info r' \<and> RenderedInputs_Maps r = RenderedInputs_Maps r')"
| "same_outcome _ _ = False"

lemma map_mapped_norm: "map norm es = map norm es' \<Longrightarrow> map mapped es = map mapped es'"
proof -
  have "mapped e = mapped (norm e)" for e
    by (simp add: norm_def)
  then have "map mapped es = map mapped (map norm es)" for es
    by simp
  then show "map norm es = map norm es' \<Longrightarrow> map mapped es = map mapped es'"
    by metis
qed

lemma cached_rendering_agrees:
  assumes "contract dp U" "set vs \<subseteq> U" "vs \<noteq> []" "cache_valid c sum64 ns dp U rc"
  shows "same_outcome (RenderInputsCached c sum64 (Key k (Some (List ns q))) vs (Some rc))
      (RenderInputsCached c sum64 (Key k (Some (List ns q))) vs None)
    \<and> (\<forall>r rc'. RenderInputsCached c sum64 (Key k (Some (List ns q))) vs (Some rc) = Inr (r, Some rc') \<longrightarrow>
        cache_valid c sum64 ns dp U rc')"
proof -
  have dp: "(case vs of [] \<Rightarrow> [] | v # _ \<Rightarrow> defaultProvider v) = dp"
    using assms(1-3) by (cases vs) (auto simp: contract_def)
  note prov = inputProviders_cached[of c sum64 "[]" ns dp U rc 0, simplified, OF assms(4)]
  show ?thesis
  proof (cases "inputProviders dp 0 ns None")
    case (Inl er)
    with prov dp show ?thesis by (simp add: RenderInputsCached_def)
  next
    case (Inr a)
    then obtain pss where pss: "inputProviders dp 0 ns None = Inr (pss, None)"
      using inputProviders_uncached[of dp 0 ns] by (cases a) auto
    with prov obtain rc' where rc': "inputProviders dp 0 ns (Some rc) = Inr (pss, Some rc')"
      "cache_valid c sum64 ns dp U rc'" by auto
    let ?inps = "zip [0..<length ns] (zip ns pss)"
    let ?st = "\<lambda>cache. \<lparr>seenHashes = [], rentries = [], rinfo = [], rcache = cache\<rparr>"
    have "related_res c sum64 ns dp U (renderAll c sum64 ?inps vs (?st (Some rc')))
        (renderAll c sum64 ?inps vs (?st None))"
      using assms rc'(2) indexed_inputs[OF pss]
      by (intro renderAll_related) (auto simp: related_def)
    then show ?thesis
      using dp pss rc'(1)
      by (cases "renderAll c sum64 ?inps vs (?st None)")
        (auto simp: RenderInputsCached_def related_res_def related_def RenderedInputs_Maps_def
          intro: map_mapped_norm cache_valid_sweep)
  qed
qed

text \<open>C2: Rendering the inputs of a policy with a valid cache gives the maps, the rendering information
  and the errors that rendering without a cache gives, and leaves a valid cache, for sets of
  variables that keep the contract of their cache keys.\<close>

theorem render_cache_is_transparent:
  assumes "contract dp U" "set vs \<subseteq> U" "vs \<noteq> []" "cache_valid c sum64 ns dp U rc"
  shows "same_outcome (RenderInputsCached c sum64 (Key k (Some (List ns q))) vs (Some rc))
      (RenderInputsCached c sum64 (Key k (Some (List ns q))) vs None)
    \<and> (\<forall>r rc'. RenderInputsCached c sum64 (Key k (Some (List ns q))) vs (Some rc) = Inr (r, Some rc') \<longrightarrow>
        cache_valid c sum64 ns dp U rc')"
  using assms by (rule cached_rendering_agrees)

definition example_config :: eql_config where
  "example_config = \<lparr>parser = \<lambda>_. None, iteration = \<lambda>_. 0, engine = \<lambda>_. None\<rparr>"

theorem render_cache_is_transparent_witness:
  "same_outcome
     (RenderInputsCached example_config length
       (Key ''inputs'' (Some (NewList [Some (NewDict [Some (Key ''id'' (Some (NewStrVal ''${env.A}'')))])])))
       [SetCacheKey (NewVarsFromAst ''v'' (Some (NewDict [])) [] ''env'') ''k''] (Some NewRenderCache))
     (RenderInputsCached example_config length
       (Key ''inputs'' (Some (NewList [Some (NewDict [Some (Key ''id'' (Some (NewStrVal ''${env.A}'')))])])))
       [SetCacheKey (NewVarsFromAst ''v'' (Some (NewDict [])) [] ''env'') ''k''] None)"
  using render_cache_is_transparent[of "''env''" "{SetCacheKey (NewVarsFromAst ''v'' (Some (NewDict [])) [] ''env'') ''k''}"
      "[SetCacheKey (NewVarsFromAst ''v'' (Some (NewDict [])) [] ''env'') ''k'']" example_config length
      "[Some (NewDict [Some (Key ''id'' (Some (NewStrVal ''${env.A}'')))])]" NewRenderCache "''inputs''" None]
  by (simp add: contract_def same_content_def SetCacheKey_def NewVarsFromAst_def cache_valid_new)

end
