(* ===== verification/Render_Dedup.thy ===== *)
theory Render_Dedup
  imports Render_Props
begin

text \<open>
  What the rendered inputs of \<^verbatim>\<open>inputs.go\<close> and the rendered outputs of \<^verbatim>\<open>outputs.go\<close> look like: inputs
  skipped for a provider they do not use are duplicates, no two rendered inputs have the same
  hash, and outputs keep their names.
\<close>

section \<open>Skipped inputs\<close>

lemma finishInput_hash:
  assumes "finishInput sum64 u r b bp obs = Inr x"
  shows "\<not> removed x \<and> entryHash x = sum64 (Hash64With r)"
proof -
  from assms obtain g dict newId where "(case g of
       GMap m \<Rightarrow> Inr \<lparr>removed = False, rendered = Some dict, mapped = m,
         entryHash = sum64 (Hash64With r), entryId = newId,
         providerVars = providerOwnedVars (dynamicProvider u) obs, used = False\<rparr>
     | _ \<Rightarrow> Inl TPanic) = Inr x"
    unfolding finishInput_def by (fastforce simp: rbind_eq_Inr)
  then show ?thesis by (cases g) auto
qed

text \<open>Whether an input is removed, and its hash, are functions of what applying the variables gives.\<close>

definition render_summary ::
  "(string \<Rightarrow> nat) \<Rightarrow> node option list \<Rightarrow> processors \<Rightarrow> tr_error + applied \<times> string list \<Rightarrow> bool \<times> nat" where
  "render_summary sum64 ns p r = (case r of
       Inr (Same, _) \<Rightarrow> (False, sum64 (Hash64With (Dict ns p)))
     | Inr (New (Dict rs rp), _) \<Rightarrow>
         if getStreams ns = Inr True \<and> getStreams rs = Inr False then (True, 0)
         else (False, sum64 (Hash64With (Dict rs rp)))
     | _ \<Rightarrow> (True, 0))"

lemma renderInput_summary:
  assumes "renderInput c sum64 ns p v = Inr e"
  shows "(removed e, entryHash e) = render_summary sum64 ns p (Apply c v (Dict ns p))"
proof -
  obtain hs where hs: "getStreams ns = Inr hs"
    using assms by (auto simp: renderInput_def rbind_eq_Inr)
  show ?thesis
  proof (cases "Apply c v (Dict ns p)")
    case (Inl er)
    with assms hs show ?thesis
      by (auto simp: renderInput_def render_summary_def removedEntry_def simp del: Apply.simps split: if_splits)
  next
    case (Inr r)
    then obtain a obs where r: "Apply c v (Dict ns p) = Inr (a, obs)" by (cases r) simp
    note render = assms[unfolded renderInput_def hs r rbind_simps sum.case prod.case]
    show ?thesis
    proof (cases a)
      case Same
      with render hs show ?thesis
        by (auto simp: r render_summary_def rbind_eq_Inr simp del: Apply.simps
            dest: finishInput_hash split: if_splits)
    next
      case Removed
      with render show ?thesis
        by (auto simp: r render_summary_def removedEntry_def simp del: Apply.simps)
    next
      case (New n)
      with render hs show ?thesis
        by (cases n) (auto simp: r render_summary_def removedEntry_def rbind_eq_Inr simp del: Apply.simps
            dest: finishInput_hash split: if_splits)
    qed
  qed
qed

lemma renderInput_hash:
  assumes "Apply c w (Dict ns p) = Apply c v (Dict ns p)"
    and "renderInput c sum64 ns p v = Inr e" "renderInput c sum64 ns p w = Inr e'"
  shows "removed e' = removed e \<and> entryHash e' = entryHash e"
  using renderInput_summary[OF assms(2)] renderInput_summary[OF assms(3)] assms(1) by (metis prod.inject)


definition context_vars :: Vars where
  "context_vars = NewVarsFromAst [] (Some (NewDict [Some (Key ''h'' (Some (NewStrVal ''x'')))])) [] []"

definition dynamic_vars :: Vars where
  "dynamic_vars = context_vars\<lparr>varsID := ''d-1'', dynamicProvider := ''d'',
     tree := Some (NewDict [Some (Key ''d'' (Some (NewStrVal ''y''))), Some (Key ''h'' (Some (NewStrVal ''x'')))])\<rparr>"

lemma split_on_before_sep: "\<exists>ps. split_on c s = before_sep c s # ps"
  by (induction s) (auto simp: before_sep_def split: list.splits)

lemma context_dynamic_agree: "before_sep CHR ''.'' x = ''h'' \<Longrightarrow> agree_on context_vars dynamic_vars x"
  using split_on_before_sep[of "CHR ''.''" x]
  by (auto simp: agree_on_def replacer_of_def lookupNode_def Lookup_def splitPath_def Find_def
      context_vars_def dynamic_vars_def NewVarsFromAst_def before_sep_def)


section \<open>The rendered inputs\<close>

lemma rfold_invariant:
  assumes "\<And>x s s'. x \<in> set xs \<Longrightarrow> P s \<Longrightarrow> f x s = Inr s' \<Longrightarrow> P s'" "P s" "rfold f xs s = Inr s'"
  shows "P s'"
  using assms
proof (induction xs arbitrary: s)
  case (Cons x xs)
  then obtain s1 where "f x s = Inr s1" "rfold f xs s1 = Inr s'"
    by (auto simp: rbind_eq_Inr)
  with Cons.prems(1,2) Cons.IH[of s1] show ?case by auto
qed simp

text \<open>The invariant of the loop: what has been collected is new each time, and is accounted for.\<close>

definition collected_ok :: "renderState \<Rightarrow> bool" where
  "collected_ok st \<longleftrightarrow> seenHashes st = rev (map entryHash (rentries st)) \<and> distinct (seenHashes st)
     \<and> (\<forall>e\<in>set (rentries st). \<not> removed e) \<and> sorted_map (rinfo st)
     \<and> (\<forall>i info. map_of (rinfo st) i = Some info \<longrightarrow>
          (\<exists>e\<in>set (rentries st). entryId e = i \<and> providerVars e = ProviderVars info))"

lemma renderStep_cases:
  assumes "renderStep c sum64 v inp st = Inr st'"
  shows "(seenHashes st' = seenHashes st \<and> rentries st' = rentries st \<and> rinfo st' = rinfo st)
    \<or> (\<exists>e. \<not> removed e \<and> entryHash e \<notin> set (seenHashes st)
        \<and> seenHashes st' = entryHash e # seenHashes st \<and> rentries st' = rentries st @ [e]
        \<and> rinfo st' = (if dynamicProvider v \<noteq> []
            then map_put (entryId e) \<lparr>DynamicProvider = dynamicProvider v, ProviderVars = providerVars e\<rparr> (rinfo st)
            else rinfo st))"
proof (cases "\<exists>i ns p provs. inp = (i, Some (Dict ns p), provs)
    \<and> \<not> (dynamicProvider v \<noteq> [] \<and> dynamicProvider v \<notin> set provs)")
  case False
  then have "st' = st"
    using assms by (auto simp: renderStep_def split: prod.splits option.splits node.splits if_splits)
  then show ?thesis by simp
next
  case True
  then obtain i ns p provs where inp: "inp = (i, Some (Dict ns p), provs)"
    "\<not> (dynamicProvider v \<noteq> [] \<and> dynamicProvider v \<notin> set provs)" by blast
  obtain e cache' where o: "obtainEntry c sum64 i ns p provs v (rcache st) = Inr (e, cache')"
    using assms inp by (cases "obtainEntry c sum64 i ns p provs v (rcache st)") (auto simp: renderStep_def)
  show ?thesis
    using assms unfolding renderStep_def inp(1) prod.case option.case node.case if_not_P[OF inp(2)] o Let_def
    by (cases "removed e \<or> entryHash e \<in> set (seenHashes st)") auto
qed

lemma renderStep_collected:
  assumes "collected_ok st" "renderStep c sum64 v inp st = Inr st'"
  shows "collected_ok st'"
  using renderStep_cases[OF assms(2)]
proof (elim disjE exE conjE)
  fix e
  assume "\<not> removed e" "entryHash e \<notin> set (seenHashes st)"
    "seenHashes st' = entryHash e # seenHashes st" "rentries st' = rentries st @ [e]"
    "rinfo st' = (if dynamicProvider v \<noteq> []
       then map_put (entryId e) \<lparr>DynamicProvider = dynamicProvider v, ProviderVars = providerVars e\<rparr> (rinfo st)
       else rinfo st)"
  with assms(1) show ?thesis
    by (auto simp: collected_ok_def map_of_map_put split: if_splits)
qed (use assms(1) in \<open>auto simp: collected_ok_def\<close>)

text \<open>C19: No two rendered inputs have the same hash, none of them is marked as removed, and each piece of
  rendering information is about a rendered input with that id and those variables.\<close>

theorem rendered_inputs_are_distinct:
  assumes "RenderInputsCached c sum64 inputs vs cache = Inr (r, cache')"
  shows "distinct (map entryHash (renderedEntries r)) \<and> (\<forall>e\<in>set (renderedEntries r). \<not> removed e)
    \<and> (\<forall>i info. map_of (Info r) i = Some info \<longrightarrow>
        (\<exists>e\<in>set (renderedEntries r). entryId e = i \<and> providerVars e = ProviderVars info))"
proof -
  obtain inps st0 st where st0: "collected_ok st0" and st: "renderAll c sum64 inps vs st0 = Inr st"
    and r: "r = \<lparr>Info = rinfo st, renderedEntries = rentries st\<rparr>"
  proof (cases "\<exists>k ns q. inputs = Key k (Some (List ns q))")
    case True
    then show ?thesis
      using assms that by (force simp: RenderInputsCached_def rbind_eq_Inr collected_ok_def)
  next
    case False
    then show ?thesis
      using assms by (auto simp: RenderInputsCached_def split: node.splits option.splits)
  qed
  have "collected_ok st"
    using st unfolding renderAll_def
    by (rule rfold_invariant[of _ collected_ok, rotated 2])
      (auto intro: st0 rfold_invariant[of _ collected_ok] renderStep_collected)
  then show ?thesis
    by (auto simp: r collected_ok_def)
qed

theorem rendered_inputs_are_distinct_witness:
  "\<exists>r. RenderInputsCached example_config length
       (Key ''inputs'' (Some (NewList [Some (NewDict []), Some (NewDict [])]))) [context_vars] None = Inr (r, None)
     \<and> length (renderedEntries r) = 1 \<and> distinct (map entryHash (renderedEntries r))"
proof -
  let ?call = "RenderInputsCached example_config length
       (Key ''inputs'' (Some (NewList [Some (NewDict []), Some (NewDict [])]))) [context_vars] None"
  have "\<exists>r. ?call = Inr (r, None) \<and> length (renderedEntries r) = 1"
    by (simp add: RenderInputsCached_def referencedProviders_def renderAll_def renderStep_def
        obtainEntry_def renderInput_def getStreams_def finishInput_def with_unique_id_def Let_def
        promoteProcessors_def context_vars_def NewVarsFromAst_def removedEntry_def)
  then show ?thesis
    using rendered_inputs_are_distinct by blast
qed


end
