(* ===== verification/Go_Time.thy ===== *)
theory Go_Time
  imports Prelude
begin

text \<open>
  What the agent uses of package \<^verbatim>\<open>time\<close>: instants and durations in nanoseconds, \<^verbatim>\<open>Unix\<close>, the zero
  time, and \<^verbatim>\<open>Format\<close> and \<^verbatim>\<open>Parse\<close> for the layout \<^verbatim>\<open>RFC3339\<close>. An instant is its distance from the Unix
  epoch, so \<^verbatim>\<open>UTC\<close> does nothing and \<^verbatim>\<open>After\<close> and \<^verbatim>\<open>Equal\<close> are the orders on integers. The theorem is
  that parsing what \<^verbatim>\<open>Format\<close> prints gives the instant back, rounded down to a second.
\<close>

type_synonym gtime = int

type_synonym duration = int

definition second_ns :: duration where
  "second_ns = 1000000000"

definition unix :: "gtime \<Rightarrow> i64" where
  "unix t = t div second_ns"

text \<open>January 1 of the year 1.\<close>

definition zero_time :: gtime where
  "zero_time = - 62135596800 * second_ns"

section \<open>The calendar\<close>

definition is_leap :: "nat \<Rightarrow> bool" where
  "is_leap y \<longleftrightarrow> y mod 4 = 0 \<and> (y mod 100 \<noteq> 0 \<or> y mod 400 = 0)"

definition month_lengths :: "nat \<Rightarrow> nat list" where
  "month_lengths y = [31, if is_leap y then 29 else 28, 31, 30, 31, 30, 31, 31, 30, 31, 30, 31]"

text \<open>Days from January 1 of the year 0, which is a leap year.\<close>

definition days_before_year :: "nat \<Rightarrow> nat" where
  "days_before_year y = 365 * y + (y + 3) div 4 + (y + 399) div 400 - (y + 99) div 100"

fun year_at :: "nat \<Rightarrow> nat \<Rightarrow> nat" where
  "year_at d 0 = 0"
| "year_at d (Suc y) = (if days_before_year (Suc y) \<le> d then Suc y else year_at d y)"

fun month_at :: "nat list \<Rightarrow> nat \<Rightarrow> nat \<times> nat" where
  "month_at [] d = (0, d)"
| "month_at (l # ls) d = (if d < l then (0, d) else case month_at ls (d - l) of (m, d') \<Rightarrow> (Suc m, d'))"

definition days_from_date :: "nat \<Rightarrow> nat \<Rightarrow> nat \<Rightarrow> nat" where
  "days_from_date y m d = days_before_year y + sum_list (take (m - 1) (month_lengths y)) + (d - 1)"

text \<open>The date of a day counted from the start of a period of 400 years.\<close>

definition date_at :: "nat \<Rightarrow> nat \<times> nat \<times> nat" where
  "date_at n = (let y = year_at n (n div 365 + 1);
       (m, d) = month_at (month_lengths y) (n - days_before_year y) in (y, m + 1, d + 1))"

definition epoch_days :: int where
  "epoch_days = 719528"

definition period :: int where
  "period = 146097"

section \<open>Printing\<close>

fun zero_pad :: "nat \<Rightarrow> nat \<Rightarrow> string" where
  "zero_pad 0 n = (if n = 0 then [] else nat_str n)"
| "zero_pad (Suc w) n = zero_pad w (n div 10) @ [digit_char (n mod 10)]"

definition year_str :: "int \<Rightarrow> string" where
  "year_str y = (if y < 0 then CHR ''-'' # zero_pad 4 (nat (- y)) else zero_pad 4 (nat y))"

definition clock_str :: "nat \<Rightarrow> string" where
  "clock_str s = zero_pad 2 (s div 3600) @ '':'' @ zero_pad 2 (s div 60 mod 60) @ '':'' @ zero_pad 2 (s mod 60)"

definition Format_RFC3339 :: "gtime \<Rightarrow> string" where
  "Format_RFC3339 t = (let days = unix t div 86400 + epoch_days;
       (y, m, d) = date_at (nat (days mod period)) in
     year_str (400 * (days div period) + int y) @ ''-'' @ zero_pad 2 m @ ''-'' @ zero_pad 2 d @ ''T''
       @ clock_str (nat (unix t mod 86400)) @ ''Z'')"

section \<open>Parsing\<close>

definition get_num :: "bool \<Rightarrow> string \<Rightarrow> (nat \<times> string) option" where
  "get_num fixed s = (case s of
       a # b # r \<Rightarrow> if is_digit a \<and> is_digit b then Some (10 * digit_val a + digit_val b, r)
         else if is_digit a \<and> \<not> fixed then Some (digit_val a, b # r) else None
     | [a] \<Rightarrow> if is_digit a \<and> \<not> fixed then Some (digit_val a, []) else None
     | [] \<Rightarrow> None)"

definition get_year :: "string \<Rightarrow> (nat \<times> string) option" where
  "get_year s = (if length s \<ge> 4 \<and> list_all is_digit (take 4 s) then Some (digits_val (take 4 s), drop 4 s) else None)"

definition get_char :: "char \<Rightarrow> string \<Rightarrow> string option" where
  "get_char c s = (case s of x # r \<Rightarrow> if x = c then Some r else None | [] \<Rightarrow> None)"

text \<open>A fraction of a second may follow the seconds; digits beyond the ninth are dropped.\<close>

definition get_fraction :: "string \<Rightarrow> nat \<times> string" where
  "get_fraction s = (case s of
       c # d # r \<Rightarrow> if (c = CHR ''.'' \<or> c = CHR '','') \<and> is_digit d
         then let ds = takeWhile is_digit (d # r); ns = take 9 ds in
           (digits_val ns * 10 ^ (9 - length ns), dropWhile is_digit (d # r))
         else (0, s)
     | _ \<Rightarrow> (0, s))"

text \<open>The offset from UTC in seconds; nothing may follow it.\<close>

definition get_zone :: "string \<Rightarrow> int option" where
  "get_zone s = (case s of
       [c] \<Rightarrow> if c = CHR ''Z'' then Some 0 else None
     | [sign, h1, h2, c, m1, m2] \<Rightarrow>
         if list_all is_digit [h1, h2, m1, m2] \<and> c = CHR '':'' \<and> digits_val [h1, h2] \<le> 24 \<and> digits_val [m1, m2] \<le> 60
         then let off = int (60 * (60 * digits_val [h1, h2] + digits_val [m1, m2])) in
           if sign = CHR ''+'' then Some off else if sign = CHR ''-'' then Some (- off) else None
         else None
     | _ \<Rightarrow> None)"

definition get_date :: "string \<Rightarrow> (nat \<times> string) option" where
  "get_date s =
     Option.bind (get_year s) (\<lambda>(y, s). Option.bind (get_char CHR ''-'' s) (\<lambda>s.
     Option.bind (get_num True s) (\<lambda>(m, s). Option.bind (get_char CHR ''-'' s) (\<lambda>s.
     Option.bind (get_num True s) (\<lambda>(d, s).
       if 1 \<le> m \<and> m \<le> 12 \<and> 1 \<le> d \<and> d \<le> month_lengths y ! (m - 1) then Some (days_from_date y m d, s) else None)))))"

definition get_clock :: "string \<Rightarrow> (nat \<times> nat \<times> string) option" where
  "get_clock s =
     Option.bind (get_num False s) (\<lambda>(h, s). Option.bind (get_char CHR '':'' s) (\<lambda>s.
     Option.bind (get_num True s) (\<lambda>(mi, s). Option.bind (get_char CHR '':'' s) (\<lambda>s.
     Option.bind (get_num True s) (\<lambda>(sec, s).
       if h < 24 \<and> mi < 60 \<and> sec < 60 then (case get_fraction s of (ns, s) \<Rightarrow> Some (3600 * h + 60 * mi + sec, ns, s))
       else None)))))"

definition Parse_RFC3339 :: "string \<Rightarrow> gtime option" where
  "Parse_RFC3339 s =
     Option.bind (get_date s) (\<lambda>(days, s). Option.bind (get_char CHR ''T'' s) (\<lambda>s.
     Option.bind (get_clock s) (\<lambda>(secs, ns, s). Option.bind (get_zone s) (\<lambda>off.
       Some ((86400 * (int days - epoch_days) + int secs - off) * second_ns + int ns)))))"

section \<open>Printing and parsing\<close>

lemma leap_step: "0 < k \<Longrightarrow> (Suc y + (k - 1)) div k = (y + (k - 1)) div k + (if y mod k = 0 then 1 else 0)"
  using div_Suc[of "y + (k - 1)" k] by simp

lemma leap_steps:
  "(Suc y + 3) div 4 = (y + 3) div 4 + (if y mod 4 = 0 then 1 else 0)"
  "(Suc y + 99) div 100 = (y + 99) div 100 + (if y mod 100 = 0 then 1 else 0)"
  "(Suc y + 399) div 400 = (y + 399) div 400 + (if y mod 400 = 0 then 1 else 0)"
  using leap_step[of 4 y] leap_step[of 100 y] leap_step[of 400 y] by (simp_all del: add_Suc add_Suc_right)

lemma leap_periods: "y mod 100 = 0 \<Longrightarrow> y mod 4 = 0" "y mod 400 = 0 \<Longrightarrow> y mod 100 = (0::nat)"
  using dvd_trans[of 4 100 y] dvd_trans[of 100 400 y] by (simp_all flip: dvd_eq_mod_eq_0)

lemma century_le: "(y + 99) div 100 \<le> (y + 3) div (4::nat)"
proof -
  have "(y + 3) mod 4 < 4" by simp
  then have "y \<le> (y + 3) div 4 * 4" using div_mult_mod_eq[of "y + 3" 4] by linarith
  moreover have "(y + 99) div 100 * 100 \<le> y + 99" by simp
  ultimately show ?thesis by linarith
qed

lemma days_before_year_Suc: "days_before_year (Suc y) = days_before_year y + (if is_leap y then 366 else 365)"
proof -
  define a b c where "a = (y + 3) div 4" "b = (y + 99) div 100" "c = (y + 399) div 400"
  then have "b \<le> a" using century_le[of y] by simp
  then show ?thesis
    using leap_periods[of y] unfolding days_before_year_def is_leap_def leap_steps
    by (cases "y mod 400 = 0"; cases "y mod 100 = 0"; cases "y mod 4 = 0") (simp_all flip: a_b_c_def)
qed

lemma days_before_year_ge: "365 * y \<le> days_before_year y"
  using century_le[of y] unfolding days_before_year_def by simp

lemma days_before_year_mono: "y \<le> z \<Longrightarrow> days_before_year y \<le> days_before_year z"
  by (induction z) (auto simp: le_Suc_eq days_before_year_Suc)

lemma year_at_bounds:
  "n < days_before_year (Suc y) \<Longrightarrow> days_before_year (year_at n y) \<le> n \<and> n < days_before_year (Suc (year_at n y))"
proof (induction y)
  case 0
  then show ?case by (simp add: days_before_year_def)
next
  case (Suc y)
  then show ?case by (cases "days_before_year (Suc y) \<le> n") simp_all
qed

lemma month_lengths_sum: "sum_list (month_lengths y) = (if is_leap y then 366 else 365)"
  by (simp add: month_lengths_def)

lemma length_month_lengths [simp]: "length (month_lengths y) = 12"
  by (simp add: month_lengths_def)

lemma month_at_correct:
  "n < sum_list ls \<Longrightarrow> month_at ls n = (m, d) \<Longrightarrow> m < length ls \<and> d < ls ! m \<and> sum_list (take m ls) + d = n"
proof (induction ls arbitrary: n m d)
  case (Cons l ls)
  show ?case
  proof (cases "n < l")
    case False
    obtain m' d' where md: "month_at ls (n - l) = (m', d')" by fastforce
    then show ?thesis
      using Cons.IH[of "n - l" m' d'] Cons.prems False by (auto simp: less_diff_conv2)
  qed (use Cons.prems in auto)
qed simp

lemma date_at_correct:
  assumes "date_at n = (y, m, d)"
  shows "1 \<le> m \<and> m \<le> 12 \<and> 1 \<le> d \<and> d \<le> month_lengths y ! (m - 1) \<and> days_from_date y m d = n"
proof -
  have "n < 365 * Suc (n div 365 + 1)"
  proof -
    have "n mod 365 < 365" by simp
    moreover have "365 * Suc (n div 365 + 1) = n div 365 * 365 + 730" by simp
    ultimately show ?thesis using div_mult_mod_eq[of n 365] by linarith
  qed
  then have "n < days_before_year (Suc (n div 365 + 1))"
    using days_before_year_ge[of "Suc (n div 365 + 1)"] by linarith
  from year_at_bounds[OF this] have y: "days_before_year y \<le> n" "n < days_before_year (Suc y)"
    using assms by (auto simp: date_at_def Let_def split: prod.splits)
  obtain m' d' where md: "month_at (month_lengths y) (n - days_before_year y) = (m', d')" by fastforce
  then have "m = m' + 1" "d = d' + 1"
    using assms by (auto simp: date_at_def Let_def split: prod.splits)
  moreover have "n - days_before_year y < sum_list (month_lengths y)"
    using y by (simp add: days_before_year_Suc month_lengths_sum split: if_splits)
  ultimately show ?thesis
    using month_at_correct[OF _ md] y by (auto simp: days_from_date_def)
qed

lemma date_at_year: "date_at n = (y, m, d) \<Longrightarrow> n < 146097 \<Longrightarrow> y < 400"
proof -
  assume a: "date_at n = (y, m, d)" "n < 146097"
  have "days_before_year y \<le> n"
    using date_at_correct[OF a(1)] by (auto simp: days_from_date_def)
  moreover have "days_before_year 400 = 146097" by (simp add: days_before_year_def)
  ultimately show "y < 400"
    using days_before_year_mono[of 400 y] a(2) by (cases "400 \<le> y") auto
qed

lemma period_steps:
  "(400 * e + y + 3) div 4 = 100 * e + (y + 3) div (4::nat)"
  "(400 * e + y + 99) div 100 = 4 * e + (y + 99) div (100::nat)"
  "(400 * e + y + 399) div 400 = e + (y + 399) div (400::nat)"
  using div_mult_self1[of 4 "y + 3" "100 * e"] div_mult_self1[of 100 "y + 99" "4 * e"]
    div_mult_self1[of 400 "y + 399" e]
  by (simp_all add: ac_simps)

lemma days_before_year_period: "days_before_year (400 * e + y) = 146097 * e + days_before_year y"
proof -
  obtain k where "(y + 3) div 4 = (y + 99) div 100 + k"
    using le_Suc_ex[OF century_le[of y]] by blast
  then show ?thesis
    unfolding days_before_year_def period_steps by simp
qed

lemma is_leap_period: "is_leap (400 * e + y) = is_leap y"
proof -
  have "(400 * e + y) mod 4 = y mod 4" "(400 * e + y) mod 100 = y mod 100" "(400 * e + y) mod 400 = y mod 400"
    using mod_mult_self1[of y "100 * e" 4] mod_mult_self1[of y "4 * e" 100] mod_mult_self1[of y e 400]
    by (simp_all add: ac_simps)
  then show ?thesis by (simp add: is_leap_def)
qed

lemma days_from_date_period: "days_from_date (400 * e + y) m d = 146097 * e + days_from_date y m d"
  by (simp add: days_from_date_def days_before_year_period month_lengths_def is_leap_period)

lemma zero_pad_2: "n < 100 \<Longrightarrow> zero_pad 2 n = [digit_char (n div 10), digit_char (n mod 10)]"
  by (simp add: numeral_2_eq_2)

lemma get_num_pad: "n < 100 \<Longrightarrow> get_num b (zero_pad 2 n @ r) = Some (n, r)"
  by (simp add: zero_pad_2 get_num_def)

lemma zero_pad_digits: "n < 10 ^ w \<Longrightarrow> length (zero_pad w n) = w \<and> list_all is_digit (zero_pad w n) \<and> digits_val (zero_pad w n) = n"
proof (induction w arbitrary: n)
  case (Suc w)
  have "n div 10 < 10 ^ w" using Suc.prems by (simp add: less_mult_imp_div_less)
  with Suc.IH[of "n div 10"] show ?case by (simp add: digits_val_snoc)
qed (simp add: digits_val_def)

lemma get_year_pad: "n < 10000 \<Longrightarrow> get_year (zero_pad 4 n @ r) = Some (n, r)"
  using zero_pad_digits[of n 4] by (simp add: get_year_def)

lemma get_char_Cons [simp]: "get_char c (c # s) = Some s"
  by (simp add: get_char_def)

lemma get_clock_str:
  assumes "s < 86400"
  shows "get_clock (clock_str s @ ''Z'') = Some (s, 0, ''Z'')"
proof -
  have "s div 3600 < 24" "s div 60 mod 60 < 60" "s mod 60 < 60"
    using assms by (simp_all add: less_mult_imp_div_less)
  moreover have "s div 3600 = s div 60 div 60" by (simp add: div_mult2_eq)
  then have "3600 * (s div 3600) + 60 * (s div 60 mod 60) + s mod 60 = s"
    using div_mult_mod_eq[of s 60] div_mult_mod_eq[of "s div 60" 60] by linarith
  ultimately show ?thesis
    by (simp add: get_clock_def clock_str_def get_num_pad get_fraction_def)
qed

lemma get_date_str:
  assumes "1 \<le> m" "m \<le> 12" "1 \<le> d" "d \<le> month_lengths y ! (m - 1)" "y < 10000"
  shows "get_date (zero_pad 4 y @ ''-'' @ zero_pad 2 m @ ''-'' @ zero_pad 2 d @ r) = Some (days_from_date y m d, r)"
proof -
  have "\<forall>l\<in>set (month_lengths y). l < 100" by (simp add: month_lengths_def)
  then have "month_lengths y ! (m - 1) < 100"
    using assms(1,2) by simp
  with assms show ?thesis
    by (simp add: get_date_def get_year_pad get_num_pad)
qed

text \<open>The years 0 to 9999, in seconds.\<close>

definition four_digit_year :: "gtime \<Rightarrow> bool" where
  "four_digit_year t \<longleftrightarrow> - 62167219200 \<le> unix t \<and> unix t < 253402300800"

lemma parse_format:
  assumes "four_digit_year t"
  shows "Parse_RFC3339 (Format_RFC3339 t) = Some (unix t * second_ns)"
proof -
  define days where "days = unix t div 86400 + epoch_days"
  define e where "e = nat (days div period)"
  have days: "0 \<le> days" "days < 3652425"
    using assms by (auto simp: days_def four_digit_year_def epoch_days_def)
  then have e: "int e = days div period" "e < 25"
    by (simp_all add: e_def period_def nat_less_iff)
  obtain y m d where date: "date_at (nat (days mod period)) = (y, m, d)" by (metis prod_cases3)
  note D = date_at_correct[OF date]
  have y: "y < 400"
    using date_at_year[OF date] by (simp add: period_def nat_less_iff)
  have year: "year_str (400 * (days div period) + int y) = zero_pad 4 (400 * e + y)"
    using e(1) by (simp add: year_str_def flip: e(1)) (simp add: nat_add_distrib nat_mult_distrib)
  have len: "month_lengths (400 * e + y) = month_lengths y"
    by (simp add: month_lengths_def is_leap_period)
  have total: "int (days_from_date (400 * e + y) m d) = days"
  proof -
    have "int (days_from_date y m d) = days mod period"
      using D by (simp add: period_def)
    then show ?thesis
      using e(1) div_mult_mod_eq[of days period] by (simp add: days_from_date_period period_def)
  qed
  have s: "nat (unix t mod 86400) < 86400" by (simp add: nat_less_iff)
  have "Parse_RFC3339 (Format_RFC3339 t) =
      Some ((86400 * (int (days_from_date (400 * e + y) m d) - epoch_days) + int (nat (unix t mod 86400)) - 0) * second_ns + int 0)"
    using D y e(2) get_clock_str[OF s]
    by (simp add: Format_RFC3339_def Let_def date year len Parse_RFC3339_def get_date_str get_zone_def
        flip: days_def del: append.simps) (simp add: get_date_str len)
  then show ?thesis
    unfolding total by (simp add: days_def)
qed

end
