(* ===== verification/Actions.thy ===== *)
theory Actions
  imports Go_Time Go_Value
begin

text \<open>
  The actions of \<^verbatim>\<open>pkg/fleetapi/action.go\<close>: one record per struct, over a common base, and the methods
  of the interfaces \<^verbatim>\<open>Action\<close>, \<^verbatim>\<open>ScheduledAction\<close> and \<^verbatim>\<open>RetryableAction\<close>. A type assertion to
  \<^verbatim>\<open>ScheduledAction\<close> is the constructor \<^verbatim>\<open>Scheduled\<close>; only upgrades are retryable. The names of the
  action types come from the API of the fleet server, which is a parameter.
\<close>

record api_types =
  UPGRADE :: string
  UNENROLL :: string
  POLICYCHANGE :: string
  POLICYREASSIGN :: string
  SETTINGS :: string
  INPUTACTION :: string
  CANCEL :: string
  REQUESTDIAGNOSTICS :: string
  MIGRATE :: string
  PRIVILEGELEVELCHANGE :: string

record Signed =
  SignedData :: string
  Signature :: string

record action_base =
  ActionID :: string
  ActionType :: string

record ActionUnknown = action_base +
  OriginalType :: string

record ActionPolicyReassign = action_base +
  PolicyID :: string

record ActionPolicyChange = action_base +
  Policy :: "(string \<times> gval) list"

record scheduled_base = action_base +
  ActionStartTime :: string
  ActionExpiration :: string

record ActionUpgrade = scheduled_base +
  Version :: string
  Sources :: "string list"
  Retry :: int
  Rollback :: bool
  UpgradeSigned :: "Signed option"
  UpgradeErr :: "gerror option"

record ActionRestart = scheduled_base +
  RestartSignature :: "Signed option"
  RestartErr :: "gerror option"

record ActionUnenroll = action_base +
  IsDetected :: bool
  UnenrollSigned :: "Signed option"

record ActionSettings = action_base +
  LogLevel :: string

record ActionMigrate = action_base +
  TargetURI :: string
  EnrollmentToken :: string
  MigrateSettings :: string
  MigrateSignature :: "Signed option"
  MigrateErr :: "gerror option"

record ActionCancel = action_base +
  TargetID :: string

record ActionDiagnostics = action_base +
  AdditionalMetrics :: "string list"
  ExcludeEventsLog :: bool
  UploadID :: string
  DiagnosticsErr :: "gerror option"

record ActionApp = action_base +
  InputType :: string
  AppTimeout :: i64
  AppData :: string
  AppResponse :: "(string \<times> gval) list option"
  StartedAt :: string
  CompletedAt :: string
  AppSignature :: "Signed option"
  AppError :: string

record UserInfo =
  Groupname :: string
  Password :: string
  Username :: string

record ActionPrivilegeLevelChange = action_base +
  Unprivileged :: bool
  ChangeUserInfo :: "UserInfo option"
  PrivilegeErr :: "gerror option"

datatype scheduled_action = Upgrade ActionUpgrade | Restart ActionRestart

datatype action =
    Scheduled scheduled_action
  | Unknown ActionUnknown
  | PolicyReassign ActionPolicyReassign
  | PolicyChange ActionPolicyChange
  | Unenroll ActionUnenroll
  | Settings ActionSettings
  | Migrate ActionMigrate
  | Cancel ActionCancel
  | Diagnostics ActionDiagnostics
  | App ActionApp
  | PrivilegeLevelChange ActionPrivilegeLevelChange

definition ActionTypeUnknown :: string where
  "ActionTypeUnknown = ''UNKNOWN''"

definition ActionTypeRestart :: string where
  "ActionTypeRestart = ''RESTART''"

section \<open>The interface Action\<close>

fun scheduled_ID :: "scheduled_action \<Rightarrow> string" where
  "scheduled_ID (Upgrade a) = ActionID a"
| "scheduled_ID (Restart a) = ActionID a"

fun scheduled_Type :: "scheduled_action \<Rightarrow> string" where
  "scheduled_Type (Upgrade a) = ActionType a"
| "scheduled_Type (Restart a) = ActionType a"

fun action_ID :: "action \<Rightarrow> string" where
  "action_ID (Scheduled a) = scheduled_ID a"
| "action_ID (Unknown a) = ActionID a"
| "action_ID (PolicyReassign a) = ActionID a"
| "action_ID (PolicyChange a) = ActionID a"
| "action_ID (Unenroll a) = ActionID a"
| "action_ID (Settings a) = ActionID a"
| "action_ID (Migrate a) = ActionID a"
| "action_ID (Cancel a) = ActionID a"
| "action_ID (Diagnostics a) = ActionID a"
| "action_ID (App a) = ActionID a"
| "action_ID (PrivilegeLevelChange a) = ActionID a"

fun action_Type :: "action \<Rightarrow> string" where
  "action_Type (Scheduled a) = scheduled_Type a"
| "action_Type (Unknown a) = ActionTypeUnknown"
| "action_Type (PolicyReassign a) = ActionType a"
| "action_Type (PolicyChange a) = ActionType a"
| "action_Type (Unenroll a) = ActionType a"
| "action_Type (Settings a) = ActionType a"
| "action_Type (Migrate a) = ActionType a"
| "action_Type (Cancel a) = ActionType a"
| "action_Type (Diagnostics a) = ActionType a"
| "action_Type (App a) = ActionType a"
| "action_Type (PrivilegeLevelChange a) = ActionType a"

definition NewAction :: "api_types \<Rightarrow> string \<Rightarrow> action" where
  "NewAction api t =
     (if t = CANCEL api then Cancel \<lparr>ActionID = [], ActionType = [], TargetID = []\<rparr>
      else if t = REQUESTDIAGNOSTICS api then Diagnostics \<lparr>ActionID = [], ActionType = [],
        AdditionalMetrics = [], ExcludeEventsLog = False, UploadID = [], DiagnosticsErr = None\<rparr>
      else if t = INPUTACTION api then App \<lparr>ActionID = [], ActionType = [], InputType = [], AppTimeout = 0,
        AppData = [], AppResponse = None, StartedAt = [], CompletedAt = [], AppSignature = None, AppError = []\<rparr>
      else if t = POLICYCHANGE api then PolicyChange \<lparr>ActionID = [], ActionType = [], Policy = []\<rparr>
      else if t = POLICYREASSIGN api then PolicyReassign \<lparr>ActionID = [], ActionType = [], PolicyID = []\<rparr>
      else if t = SETTINGS api then Settings \<lparr>ActionID = [], ActionType = [], LogLevel = []\<rparr>
      else if t = UNENROLL api then Unenroll \<lparr>ActionID = [], ActionType = [], IsDetected = False, UnenrollSigned = None\<rparr>
      else if t = UPGRADE api then Scheduled (Upgrade \<lparr>ActionID = [], ActionType = [], ActionStartTime = [],
        ActionExpiration = [], Version = [], Sources = [], Retry = 0, Rollback = False, UpgradeSigned = None, UpgradeErr = None\<rparr>)
      else if t = MIGRATE api then Migrate \<lparr>ActionID = [], ActionType = [], TargetURI = [], EnrollmentToken = [],
        MigrateSettings = [], MigrateSignature = None, MigrateErr = None\<rparr>
      else if t = PRIVILEGELEVELCHANGE api then PrivilegeLevelChange \<lparr>ActionID = [], ActionType = [],
        Unprivileged = False, ChangeUserInfo = None, PrivilegeErr = None\<rparr>
      else if t = ActionTypeRestart then Scheduled (Restart \<lparr>ActionID = [], ActionType = [], ActionStartTime = [],
        ActionExpiration = [], RestartSignature = None, RestartErr = None\<rparr>)
      else Unknown \<lparr>ActionID = [], ActionType = [], OriginalType = t\<rparr>)"

section \<open>Scheduled actions\<close>

datatype time_error = ErrNoStartTime | ErrNoExpiration | ErrTimeFormat

definition time_field :: "time_error \<Rightarrow> string \<Rightarrow> time_error + gtime" where
  "time_field missing s = (if s = [] then Inl missing
     else case Parse_RFC3339 s of None \<Rightarrow> Inl ErrTimeFormat | Some t \<Rightarrow> Inr t)"

fun StartTime :: "scheduled_action \<Rightarrow> time_error + gtime" where
  "StartTime (Upgrade a) = time_field ErrNoStartTime (ActionStartTime a)"
| "StartTime (Restart a) = time_field ErrNoStartTime (ActionStartTime a)"

fun Expiration :: "scheduled_action \<Rightarrow> time_error + gtime" where
  "Expiration (Upgrade a) = time_field ErrNoExpiration (ActionExpiration a)"
| "Expiration (Restart a) = time_field ErrNoExpiration (ActionExpiration a)"

section \<open>Retryable actions\<close>

definition RetryAttempt :: "ActionUpgrade \<Rightarrow> int" where
  "RetryAttempt a = Retry a"

definition SetRetryAttempt :: "int \<Rightarrow> ActionUpgrade \<Rightarrow> ActionUpgrade" where
  "SetRetryAttempt n a = a\<lparr>Retry := n\<rparr>"

definition GetError :: "ActionUpgrade \<Rightarrow> gerror option" where
  "GetError a = UpgradeErr a"

definition SetError :: "gerror option \<Rightarrow> ActionUpgrade \<Rightarrow> ActionUpgrade" where
  "SetError e a = a\<lparr>UpgradeErr := e\<rparr>"

definition SetStartTime :: "gtime \<Rightarrow> ActionUpgrade \<Rightarrow> ActionUpgrade" where
  "SetStartTime t a = a\<lparr>ActionStartTime := Format_RFC3339 t\<rparr>"

text \<open>The error and the payload of the ack event of an upgrade: whether it will be retried, and the attempt.\<close>

definition upgrade_ack_payload :: "ActionUpgrade \<Rightarrow> (gerror \<times> bool \<times> int) option" where
  "upgrade_ack_payload a = map_option (\<lambda>e. (e, Retry a \<ge> 1, Retry a)) (UpgradeErr a)"

text \<open>\<^verbatim>\<open>PolicyID\<close>, which may be called on nil.\<close>

definition policy_id :: "ActionPolicyChange option \<Rightarrow> string" where
  "policy_id a = (case a of None \<Rightarrow> [] | Some p \<Rightarrow>
     (case map_of (Policy p) ''id'' of Some (GStr s) \<Rightarrow> s | _ \<Rightarrow> []))"

section \<open>Lemmas\<close>

lemma Format_not_Nil: "Format_RFC3339 t \<noteq> []"
  by (simp add: Format_RFC3339_def Let_def split: prod.splits)

text \<open>The start time that is set for a retry is read back as the same second.\<close>

lemma retry_start_time:
  assumes "four_digit_year t"
  shows "StartTime (Upgrade (SetStartTime t a)) = Inr (unix t * second_ns)"
  using parse_format[OF assms] by (simp add: SetStartTime_def time_field_def Format_not_Nil)

end
