(* ===== verification/Priority_Queue.thy ===== *)
theory Priority_Queue
  imports Actions "HOL-Library.Multiset"
begin

text \<open>
  The interface \<^verbatim>\<open>priorityQueue\<close> through which the dispatcher reaches the action queue
  (\<^verbatim>\<open>dispatcher.go\<close>), as a record of methods, and the contract an implementation owes: what each
  method does to the actions pending with their times. Cancelling by type may panic (None), which
  the contract excludes.
\<close>

record 'q priorityQueue =
  pqAdd :: "scheduled_action \<Rightarrow> i64 \<Rightarrow> 'q \<Rightarrow> 'q"
  pqDequeueActions :: "i64 \<Rightarrow> 'q \<Rightarrow> scheduled_action list \<times> 'q"
  pqActions :: "'q \<Rightarrow> scheduled_action list"
  pqCancelType :: "string \<Rightarrow> 'q \<Rightarrow> (nat \<times> 'q) option"
  pqSave :: "'q \<Rightarrow> gerror option \<times> 'q"

type_synonym timed_action = "scheduled_action \<times> i64"

definition due :: "i64 \<Rightarrow> timed_action \<Rightarrow> bool" where
  "due ts x \<longleftrightarrow> snd x \<le> ts"

definition of_type :: "string \<Rightarrow> timed_action \<Rightarrow> bool" where
  "of_type t x \<longleftrightarrow> scheduled_Type (fst x) = t"

lemma of_type_fun: "of_type t = (\<lambda>x. scheduled_Type (fst x) = t)"
  by (simp add: fun_eq_iff of_type_def)

locale priority_queue =
  fixes Q :: "'q priorityQueue"
    and ok :: "'q \<Rightarrow> bool"
    and pending :: "'q \<Rightarrow> timed_action multiset"
  assumes Add: "ok q \<Longrightarrow> ok (pqAdd Q a p q) \<and> pending (pqAdd Q a p q) = add_mset (a, p) (pending q)"
    and Dequeue: "ok q \<Longrightarrow> pqDequeueActions Q ts q = (as, q') \<Longrightarrow>
      ok q' \<and> pending q' = filter_mset (\<lambda>x. \<not> due ts x) (pending q) \<and>
      (\<exists>xs. as = map fst xs \<and> sorted (map snd xs) \<and> mset xs = filter_mset (due ts) (pending q))"
    and Actions: "ok q \<Longrightarrow> mset (pqActions Q q) = image_mset fst (pending q)"
    and CancelType: "ok q \<Longrightarrow> \<exists>q'. pqCancelType Q t q = Some (size (filter_mset (of_type t) (pending q)), q')
      \<and> ok q' \<and> pending q' = filter_mset (\<lambda>x. \<not> of_type t x) (pending q)"
    and Save: "ok q \<Longrightarrow> ok (snd (pqSave Q q)) \<and> pending (snd (pqSave Q q)) = pending q"

end
