(* ===== verification/Container_Heap.thy ===== *)
theory Container_Heap
  imports Prelude "HOL-Library.Multiset"
begin

text \<open>
  The package \<^verbatim>\<open>container/heap\<close> of the standard library, on which the action queue is built. Its
  \<^verbatim>\<open>heap.Interface\<close> is a record of methods on a heap state \<^typ>\<open>'h\<close>; the laws an implementation owes,
  and what the package then guarantees, are a locale. Indices are naturals: a slice is far shorter
  than the range of an int, so \<^verbatim>\<open>2*i+1\<close> does not overflow.
\<close>

record ('h, 'e) heap_methods =
  iLen :: "'h \<Rightarrow> nat"
  iLess :: "'h \<Rightarrow> nat \<Rightarrow> nat \<Rightarrow> bool"
  iSwap :: "'h \<Rightarrow> nat \<Rightarrow> nat \<Rightarrow> 'h"
  iPush :: "'h \<Rightarrow> 'e \<Rightarrow> 'h"
  iPop :: "'h \<Rightarrow> 'e \<times> 'h"

text \<open>The smaller child of \<^verbatim>\<open>i\<close> below \<^verbatim>\<open>n\<close>, when it has a child at all.\<close>

definition min_child :: "('h, 'e) heap_methods \<Rightarrow> 'h \<Rightarrow> nat \<Rightarrow> nat \<Rightarrow> nat" where
  "min_child I h i n = (if 2 * i + 2 < n \<and> iLess I h (2 * i + 2) (2 * i + 1) then 2 * i + 2 else 2 * i + 1)"

lemma min_child_bounds: "i < min_child I h i n" "2 * i + 1 < n \<Longrightarrow> min_child I h i n < n"
  by (auto simp: min_child_def)

text \<open>\<^verbatim>\<open>down\<close>, with the final position of the element in place of whether it moved.\<close>

function heap_down :: "('h, 'e) heap_methods \<Rightarrow> 'h \<Rightarrow> nat \<Rightarrow> nat \<Rightarrow> 'h \<times> nat" where
  "heap_down I h i n =
     (if 2 * i + 1 \<ge> n then (h, i)
      else let j = min_child I h i n in
        if \<not> iLess I h j i then (h, i) else heap_down I (iSwap I h i j) j n)"
  by pat_completeness auto
termination
  by (relation "measure (\<lambda>(I, h, i, n). n - i)") (auto simp: min_child_def split: if_splits)

function heap_up :: "('h, 'e) heap_methods \<Rightarrow> 'h \<Rightarrow> nat \<Rightarrow> 'h" where
  "heap_up I h j =
     (let i = (j - 1) div 2 in
      if i = j \<or> \<not> iLess I h j i then h else heap_up I (iSwap I h i j) i)"
  by pat_completeness auto
termination
  by (relation "measure (\<lambda>(I, h, j). j)") auto

declare heap_down.simps [simp del] heap_up.simps [simp del]

fun heap_Init_loop :: "('h, 'e) heap_methods \<Rightarrow> 'h \<Rightarrow> nat \<Rightarrow> nat \<Rightarrow> 'h" where
  "heap_Init_loop I h n 0 = h"
| "heap_Init_loop I h n (Suc i) = heap_Init_loop I (fst (heap_down I h i n)) n i"

definition heap_Init :: "('h, 'e) heap_methods \<Rightarrow> 'h \<Rightarrow> 'h" where
  "heap_Init I h = heap_Init_loop I h (iLen I h) (iLen I h div 2)"

definition heap_Push :: "('h, 'e) heap_methods \<Rightarrow> 'h \<Rightarrow> 'e \<Rightarrow> 'h" where
  "heap_Push I h x = (let h' = iPush I h x in heap_up I h' (iLen I h' - 1))"

definition heap_Pop :: "('h, 'e) heap_methods \<Rightarrow> 'h \<Rightarrow> 'e \<times> 'h" where
  "heap_Pop I h = (let n = iLen I h - 1 in iPop I (fst (heap_down I (iSwap I h 0 n) 0 n)))"

definition heap_Remove :: "('h, 'e) heap_methods \<Rightarrow> 'h \<Rightarrow> nat \<Rightarrow> 'e \<times> 'h" where
  "heap_Remove I h i = (let n = iLen I h - 1 in
     iPop I (if n = i then h
       else case heap_down I (iSwap I h i n) i n of
         (h', i') \<Rightarrow> if i' > i then h' else heap_up I h' i))"

section \<open>Swapping in lists\<close>

definition swap_list :: "'a list \<Rightarrow> nat \<Rightarrow> nat \<Rightarrow> 'a list" where
  "swap_list xs i j = xs[i := xs ! j, j := xs ! i]"

lemma swap_list_nth:
  "k < length xs \<Longrightarrow> i < length xs \<Longrightarrow> j < length xs \<Longrightarrow>
   swap_list xs i j ! k = (if k = j then xs ! i else if k = i then xs ! j else xs ! k)"
  by (auto simp: swap_list_def nth_list_update)

lemma length_swap_list [simp]: "length (swap_list xs i j) = length xs"
  by (simp add: swap_list_def)

lemma mset_swap_list [simp]: "i < length xs \<Longrightarrow> j < length xs \<Longrightarrow> mset (swap_list xs i j) = mset xs"
  by (simp add: swap_list_def mset_swap)

lemma drop_swap_list: "i < n \<Longrightarrow> j < n \<Longrightarrow> drop n (swap_list xs i j) = drop n xs"
  by (simp add: swap_list_def)

section \<open>What the package guarantees\<close>

text \<open>The parent of a position.\<close>

abbreviation par :: "nat \<Rightarrow> nat" where
  "par k \<equiv> (k - 1) div 2"

lemma par_less: "0 < k \<Longrightarrow> par k < k"
  by simp

lemma par_le: "par k \<le> k"
  by simp

locale heap_laws =
  fixes I :: "('h, 'e) heap_methods"
    and valid :: "'h \<Rightarrow> bool"
    and elems :: "'h \<Rightarrow> 'e list"
    and view :: "'h \<Rightarrow> 'e \<Rightarrow> 'v"
    and rank :: "'v \<Rightarrow> int"
    and fresh :: "'h \<Rightarrow> 'e \<Rightarrow> bool"
  assumes Len: "valid h \<Longrightarrow> iLen I h = length (elems h)"
    and Less: "valid h \<Longrightarrow> i < length (elems h) \<Longrightarrow> j < length (elems h) \<Longrightarrow>
      iLess I h i j \<longleftrightarrow> rank (view h (elems h ! i)) < rank (view h (elems h ! j))"
    and Swap: "valid h \<Longrightarrow> i < length (elems h) \<Longrightarrow> j < length (elems h) \<Longrightarrow>
      valid (iSwap I h i j) \<and> elems (iSwap I h i j) = swap_list (elems h) i j \<and> view (iSwap I h i j) = view h"
    and Push: "valid h \<Longrightarrow> fresh h x \<Longrightarrow>
      valid (iPush I h x) \<and> elems (iPush I h x) = elems h @ [x] \<and> view (iPush I h x) = view h"
    and Pop: "valid h \<Longrightarrow> elems h \<noteq> [] \<Longrightarrow> fst (iPop I h) = last (elems h)
      \<and> valid (snd (iPop I h)) \<and> elems (snd (iPop I h)) = butlast (elems h) \<and> view (snd (iPop I h)) = view h"
begin

definition key :: "'h \<Rightarrow> nat \<Rightarrow> int" where
  "key h k = rank (view h (elems h ! k))"

text \<open>Heap order below the position \<^verbatim>\<open>s\<close> among the first \<^verbatim>\<open>n\<close> elements.\<close>

definition heap_from :: "nat \<Rightarrow> nat \<Rightarrow> 'h \<Rightarrow> bool" where
  "heap_from s n h \<longleftrightarrow> (\<forall>k. 0 < k \<and> k < n \<and> s \<le> par k \<longrightarrow> key h (par k) \<le> key h k)"

text \<open>Heap order except around \<^verbatim>\<open>i\<close>, whose children are not below its parent.\<close>

definition defect :: "nat \<Rightarrow> nat \<Rightarrow> nat \<Rightarrow> 'h \<Rightarrow> bool" where
  "defect s n i h \<longleftrightarrow>
     (\<forall>k. 0 < k \<and> k < n \<and> s \<le> par k \<and> par k \<noteq> i \<and> k \<noteq> i \<longrightarrow> key h (par k) \<le> key h k)
     \<and> (0 < i \<and> s \<le> par i \<longrightarrow> (\<forall>k. 0 < k \<and> k < n \<and> par k = i \<longrightarrow> key h (par i) \<le> key h k))"

definition above_ok :: "nat \<Rightarrow> nat \<Rightarrow> 'h \<Rightarrow> bool" where
  "above_ok s i h \<longleftrightarrow> (0 < i \<and> s \<le> par i \<longrightarrow> key h (par i) \<le> key h i)"

definition below_ok :: "nat \<Rightarrow> nat \<Rightarrow> 'h \<Rightarrow> bool" where
  "below_ok n i h \<longleftrightarrow> (\<forall>k. 0 < k \<and> k < n \<and> par k = i \<longrightarrow> key h i \<le> key h k)"

text \<open>The same elements with the same priorities, and those from \<^verbatim>\<open>n\<close> on in place.\<close>

definition permuted :: "nat \<Rightarrow> 'h \<Rightarrow> 'h \<Rightarrow> bool" where
  "permuted n h h' \<longleftrightarrow> valid h' \<and> mset (elems h') = mset (elems h) \<and> view h' = view h
     \<and> drop n (elems h') = drop n (elems h)"

lemma permuted_refl: "valid h \<Longrightarrow> permuted n h h"
  by (simp add: permuted_def)

lemma permuted_trans: "permuted n h h' \<Longrightarrow> permuted n h' h'' \<Longrightarrow> permuted n h h''"
  by (simp add: permuted_def)

lemma permuted_length: "permuted n h h' \<Longrightarrow> length (elems h') = length (elems h)"
  unfolding permuted_def using mset_eq_length by blast

lemma key_Swap:
  assumes "valid h" "i < length (elems h)" "j < length (elems h)" "k < length (elems h)"
  shows "key (iSwap I h i j) k = (if k = j then key h i else if k = i then key h j else key h k)"
  using Swap[OF assms(1-3)] assms by (auto simp: key_def swap_list_nth)

lemma permuted_Swap:
  assumes "valid h" "i < n" "j < n" "n \<le> length (elems h)"
  shows "permuted n h (iSwap I h i j)"
  using Swap[of h i j] assms by (auto simp: permuted_def drop_swap_list)

lemma heap_from_defect:
  "defect s n i h \<Longrightarrow> above_ok s i h \<Longrightarrow> below_ok n i h \<Longrightarrow> heap_from s n h"
  unfolding heap_from_def defect_def above_ok_def below_ok_def by metis

lemma defect_of_heap: "heap_from (Suc i) n h \<Longrightarrow> defect i n i h \<and> above_ok i i h"
  unfolding heap_from_def defect_def above_ok_def by auto

lemma min_child_least:
  assumes "valid h" "n \<le> length (elems h)" "2 * i + 1 < n" "k < n" "0 < k" "par k = i"
  shows "key h (min_child I h i n) \<le> key h k"
proof -
  have "k = 2 * i + 1 \<or> k = 2 * i + 2" using assms(5,6) by presburger
  then show ?thesis
    using Less[OF assms(1), of "2 * i + 2" "2 * i + 1"] assms(2-4)
    by (auto simp: min_child_def key_def)
qed

lemma down_step:
  assumes "valid h" "n \<le> length (elems h)" "2 * i + 1 < n" "defect s n i h"
    and "j = min_child I h i n" "iLess I h j i" "s \<le> i"
  shows "defect s n j (iSwap I h i j) \<and> above_ok s j (iSwap I h i j)"
proof -
  have j: "i < j" "j < n" "par j = i"
    using assms(3) unfolding assms(5) by (auto simp: min_child_def)
  note K = key_Swap[OF assms(1), of i j]
  have lt: "key h j < key h i"
    using Less[OF assms(1), of j i] assms(2,6) j by (simp add: key_def)
  have le: "key h j \<le> key h k" if "0 < k" "k < n" "par k = i" for k
    using min_child_least[OF assms(1-3) that(2,1,3)] assms(5) by simp
  have "key (iSwap I h i j) (par k) \<le> key (iSwap I h i j) k"
    if k: "0 < k" "k < n" "s \<le> par k" "par k \<noteq> j" "k \<noteq> j" for k
  proof -
    have len: "par k < length (elems h)" "k < length (elems h)" "i < length (elems h)" "j < length (elems h)"
      using k(2) j assms(2) by linarith+
    consider "k = i" | "par k = i" "k \<noteq> i" | "par k \<noteq> i" "k \<noteq> i" by blast
    then show ?thesis
    proof cases
      case 1
      then have "key h (par i) \<le> key h j"
        using assms(4) k j by (auto simp: defect_def)
      moreover have "par i \<noteq> i" using 1 k by linarith
      ultimately show ?thesis
        using K[OF len(3,4,1)] K[OF len(3,4,2)] 1 k by simp
    next
      case 2
      then show ?thesis
        using K[OF len(3,4,1)] K[OF len(3,4,2)] le[OF k(1,2)] k j by simp
    next
      case 3
      then have "key h (par k) \<le> key h k"
        using assms(4) k by (simp add: defect_def)
      with 3 show ?thesis
        using K[OF len(3,4,1)] K[OF len(3,4,2)] k by simp
    qed
  qed
  moreover have "key (iSwap I h i j) (par j) \<le> key (iSwap I h i j) k" if "0 < k" "k < n" "par k = j" for k
  proof -
    have len: "i < length (elems h)" "j < length (elems h)" "k < length (elems h)" "k \<noteq> j" "k \<noteq> i" "i \<noteq> j"
      using that j assms(2) by linarith+
    have "s \<le> par k" "par k \<noteq> i" using that j(1) assms(7) by linarith+
    then have "key h (par k) \<le> key h k"
      using assms(4) that(1,2) len(5) unfolding defect_def by blast
    then have "key h j \<le> key h k" unfolding that(3) .
    then show ?thesis
      unfolding j(3) using K[OF len(1,2,1)] K[OF len(1,2,3)] len(4-6) by simp
  qed
  moreover have "above_ok s j (iSwap I h i j)"
  proof -
    have len: "i < length (elems h)" "j < length (elems h)" using j assms(2) by linarith+
    show ?thesis
      unfolding above_ok_def j(3) using K[OF len(1,2,1)] K[OF len(1,2,2)] j(1) lt by simp
  qed
  ultimately show ?thesis by (auto simp: defect_def)
qed

lemma down_stop:
  assumes "valid h" "n \<le> length (elems h)" "i < n"
    and "2 * i + 1 < n \<Longrightarrow> \<not> iLess I h (min_child I h i n) i"
  shows "below_ok n i h"
  unfolding below_ok_def
proof (intro allI impI)
  fix k assume k: "0 < k \<and> k < n \<and> par k = i"
  then have c: "2 * i + 1 < n" by presburger
  then have "key h i \<le> key h (min_child I h i n)"
    using assms Less[OF assms(1), of "min_child I h i n" i] min_child_bounds(2)[of i n I h]
    by (simp add: key_def)
  also have "\<dots> \<le> key h k"
    using k by (intro min_child_least[OF assms(1,2) c]) auto
  finally show "key h i \<le> key h k" .
qed

lemma down_heap:
  assumes "valid h" "n \<le> length (elems h)" "i < n" "defect s n i h" "above_ok s i h" "s \<le> i"
  shows "heap_from s n (fst (heap_down I h i n)) \<and> permuted n h (fst (heap_down I h i n))"
  using assms
proof (induction "n - i" arbitrary: h i rule: less_induct)
  case less
  show ?case
  proof (cases "2 * i + 1 < n \<and> iLess I h (min_child I h i n) i")
    case False
    then have "heap_down I h i n = (h, i)"
      by (subst heap_down.simps) (auto simp: Let_def)
    moreover have "below_ok n i h"
      using False less.prems by (intro down_stop) auto
    ultimately show ?thesis
      using less.prems by (simp add: heap_from_defect permuted_refl)
  next
    case True
    define j where "j = min_child I h i n"
    have j: "i < j" "j < n"
      using True min_child_bounds(1)[of i I h n] min_child_bounds(2)[of i n I h] by (auto simp: j_def)
    then have down: "heap_down I h i n = heap_down I (iSwap I h i j) j n"
      using True by (subst heap_down.simps) (auto simp: Let_def j_def)
    have perm: "permuted n h (iSwap I h i j)"
      using less.prems j by (intro permuted_Swap) auto
    have step: "defect s n j (iSwap I h i j) \<and> above_ok s j (iSwap I h i j)"
      using less.prems True by (intro down_step) (auto simp: j_def)
    have "heap_from s n (fst (heap_down I (iSwap I h i j) j n))
        \<and> permuted n (iSwap I h i j) (fst (heap_down I (iSwap I h i j) j n))"
      using less.prems j step perm permuted_length[OF perm]
      by (intro less.hyps) (auto simp: permuted_def)
    then show ?thesis
      unfolding down using permuted_trans[OF perm] by blast
  qed
qed

lemma down_moves: "snd (heap_down I h i n) \<ge> i"
proof (induction "n - i" arbitrary: h i rule: less_induct)
  case less
  show ?case
  proof (cases "2 * i + 1 < n \<and> iLess I h (min_child I h i n) i")
    case False
    then show ?thesis by (subst heap_down.simps) (auto simp: Let_def)
  next
    case True
    then have "i < min_child I h i n" "n - min_child I h i n < n - i"
      using min_child_bounds(1)[of i I h n] by auto
    with True show ?thesis
      using less[of "min_child I h i n" "iSwap I h i (min_child I h i n)"]
      by (subst heap_down.simps) (simp add: Let_def)
  qed
qed

text \<open>From a defect in both directions: either the element sinks and order is restored, or it stays.\<close>

lemma down_defect:
  assumes "valid h" "n \<le> length (elems h)" "i < n" "defect s n i h" "s \<le> i"
  shows "case heap_down I h i n of (h', i') \<Rightarrow>
    if i' > i then heap_from s n h' \<and> permuted n h h' else h' = h \<and> below_ok n i h"
proof (cases "2 * i + 1 < n \<and> iLess I h (min_child I h i n) i")
  case False
  then have "heap_down I h i n = (h, i)"
    by (subst heap_down.simps) (auto simp: Let_def)
  moreover have "below_ok n i h"
    using False assms by (intro down_stop) auto
  ultimately show ?thesis by simp
next
  case True
  define j where "j = min_child I h i n"
  have j: "i < j" "j < n"
    using True min_child_bounds(1)[of i I h n] min_child_bounds(2)[of i n I h] by (auto simp: j_def)
  have down: "heap_down I h i n = heap_down I (iSwap I h i j) j n"
    using True by (subst heap_down.simps) (auto simp: Let_def j_def)
  have perm: "permuted n h (iSwap I h i j)"
    using assms j by (intro permuted_Swap) auto
  have "defect s n j (iSwap I h i j) \<and> above_ok s j (iSwap I h i j)"
    using assms True by (intro down_step) (auto simp: j_def)
  then have "heap_from s n (fst (heap_down I h i n)) \<and> permuted n (iSwap I h i j) (fst (heap_down I h i n))"
    unfolding down using assms j perm permuted_length[OF perm]
    by (intro down_heap) (auto simp: permuted_def)
  moreover have "snd (heap_down I h i n) > i"
    unfolding down using down_moves[of j "iSwap I h i j" n] j by linarith
  ultimately show ?thesis
    using permuted_trans[OF perm] by (auto split: prod.splits)
qed

lemma up_heap:
  assumes "valid h" "j < length (elems h)" "n \<le> length (elems h)" "j < n" "defect 0 n j h" "below_ok n j h"
  shows "heap_from 0 n (heap_up I h j) \<and> permuted n h (heap_up I h j)"
  using assms
proof (induction j arbitrary: h rule: less_induct)
  case (less j)
  show ?case
  proof (cases "j = 0 \<or> \<not> iLess I h j (par j)")
    case True
    then have "heap_up I h j = h"
      by (subst heap_up.simps) (auto simp: Let_def)
    moreover have "above_ok 0 j h"
      using True Less[OF less.prems(1), of j "par j"] less.prems by (auto simp: above_ok_def key_def)
    ultimately show ?thesis
      using less.prems by (simp add: heap_from_defect permuted_refl)
  next
    case False
    define i where "i = par j"
    have i: "i < j" using False unfolding i_def by linarith
    have up: "heap_up I h j = heap_up I (iSwap I h i j) i"
      using False i by (subst heap_up.simps) (auto simp: Let_def i_def)
    have lt: "key h j < key h i"
      using False Less[OF less.prems(1), of j i] less.prems i by (auto simp: key_def i_def)
    have perm: "permuted n h (iSwap I h i j)"
      using less.prems i by (intro permuted_Swap) auto
    have ij: "i < length (elems h)" "j < length (elems h)" "i \<noteq> j"
      using less.prems(2) i by linarith+
    note K = key_Swap[OF less.prems(1) ij(1,2)]
    have le: "key h (par k) \<le> key h k" if "0 < k" "k < n" "k \<noteq> j" for k
      using less.prems(5,6) that by (cases "par k = j") (auto simp: defect_def below_ok_def)
    have ge: "key h i \<le> key h k" if "0 < k" "k < n" "par k = j" for k
      using less.prems(5) that i by (auto simp: defect_def i_def)
    have "defect 0 n i (iSwap I h i j)"
      unfolding defect_def
    proof (intro conjI allI impI)
      fix k assume k: "0 < k \<and> k < n \<and> 0 \<le> par k \<and> par k \<noteq> i \<and> k \<noteq> i"
      then have len: "par k < length (elems h)" "k < length (elems h)" using less.prems(3) by linarith+
      have "k \<noteq> j" using k unfolding i_def by blast
      then show "key (iSwap I h i j) (par k) \<le> key (iSwap I h i j) k"
        using K[OF len(1)] K[OF len(2)] le[of k] ge[of k] k by (cases "par k = j") simp_all
    next
      fix k assume a: "0 < i \<and> 0 \<le> par i" "0 < k \<and> k < n \<and> par k = i"
      then have len: "par i < length (elems h)" "k < length (elems h)" and ne: "par i \<noteq> i" "par i \<noteq> j"
        using less.prems(2,3) i by linarith+
      have "key h (par i) \<le> key h i"
        using le[of i] a i less.prems(4) by linarith
      moreover have "key h i \<le> key h k" if "k \<noteq> j"
        using le[of k] a that by metis
      moreover have "k \<noteq> i" using a by linarith
      ultimately show "key (iSwap I h i j) (par i) \<le> key (iSwap I h i j) k"
        using K[OF len(1)] K[OF len(2)] ne by (cases "k = j") simp_all
    qed
    moreover have "below_ok n i (iSwap I h i j)"
      unfolding below_ok_def
    proof (intro allI impI)
      fix k assume k: "0 < k \<and> k < n \<and> par k = i"
      then have "k \<noteq> i" and len: "k < length (elems h)" using less.prems(3) by linarith+
      moreover have "key h i \<le> key h k" if "k \<noteq> j"
        using le[of k] k that by metis
      ultimately show "key (iSwap I h i j) i \<le> key (iSwap I h i j) k"
        using K[OF ij(1)] K[OF len] ij(3) lt by (cases "k = j") simp_all
    qed
    ultimately have "heap_from 0 n (heap_up I (iSwap I h i j) i)
        \<and> permuted n (iSwap I h i j) (heap_up I (iSwap I h i j) i)"
      using less.prems i perm permuted_length[OF perm]
      by (intro less.IH) (auto simp: permuted_def)
    then show ?thesis
      unfolding up using permuted_trans[OF perm] by blast
  qed
qed

text \<open>A heap: valid and in heap order.\<close>

definition is_heap :: "'h \<Rightarrow> bool" where
  "is_heap h \<longleftrightarrow> valid h \<and> heap_from 0 (length (elems h)) h"

lemma Init_loop_heap:
  assumes "valid h" "n = length (elems h)" "i \<le> n" "heap_from i n h"
  shows "heap_from 0 n (heap_Init_loop I h n i) \<and> permuted n h (heap_Init_loop I h n i)"
  using assms
proof (induction i arbitrary: h)
  case 0
  then show ?case by (simp add: permuted_refl)
next
  case (Suc i)
  define h' where "h' = fst (heap_down I h i n)"
  have down: "heap_from i n h' \<and> permuted n h h'"
    unfolding h'_def
  proof (rule down_heap)
    show "valid h" "n \<le> length (elems h)" "i < n" "i \<le> i" using Suc.prems(1-3) by simp_all
    show "defect i n i h" "above_ok i i h" using defect_of_heap[OF Suc.prems(4)] by blast+
  qed
  have "heap_from 0 n (heap_Init_loop I h' n i) \<and> permuted n h' (heap_Init_loop I h' n i)"
  proof (rule Suc.IH)
    show "valid h'" "heap_from i n h'" using down by (simp_all add: permuted_def)
    show "n = length (elems h')" "i \<le> n" using permuted_length[of n h h'] down Suc.prems(2,3) by simp_all
  qed
  then show ?case
    using down permuted_trans[of n h h'] by (simp add: h'_def)
qed

lemma Init_heap:
  assumes "valid h"
  shows "is_heap (heap_Init I h) \<and> mset (elems (heap_Init I h)) = mset (elems h) \<and> view (heap_Init I h) = view h"
proof -
  define n where "n = length (elems h)"
  have "heap_from (n div 2) n h"
    unfolding heap_from_def
  proof (intro allI impI)
    fix k assume "0 < k \<and> k < n \<and> n div 2 \<le> par k"
    then have "k \<le> par k + par k + 2" "k < n" "n \<le> par k + par k + 1" "par k + par k + 1 \<le> k" by linarith+
    then show "key h (par k) \<le> key h k" by linarith
  qed
  then have "heap_from 0 n (heap_Init_loop I h n (n div 2)) \<and> permuted n h (heap_Init_loop I h n (n div 2))"
    using assms by (intro Init_loop_heap) (simp_all add: n_def)
  moreover have "heap_Init I h = heap_Init_loop I h n (n div 2)"
    by (simp add: heap_Init_def Len[OF assms] n_def)
  ultimately have init: "heap_from 0 n (heap_Init I h)" "permuted n h (heap_Init I h)"
    by simp_all
  then show ?thesis
    using permuted_length[OF init(2)] by (simp add: is_heap_def permuted_def n_def)
qed

lemma Push_heap:
  assumes "is_heap h" "fresh h x"
  shows "is_heap (heap_Push I h x) \<and> mset (elems (heap_Push I h x)) = add_mset x (mset (elems h))
    \<and> view (heap_Push I h x) = view h"
proof -
  define h' where "h' = iPush I h x"
  let ?n = "length (elems h)"
  have h': "valid h'" "elems h' = elems h @ [x]" "view h' = view h"
    using Push[of h x] assms by (auto simp: is_heap_def h'_def)
  have key: "key h' k = key h k" if "k < ?n" for k
    using that h' by (simp add: key_def nth_append)
  have old: "key h (par k) \<le> key h k" if "0 < k" "k < ?n" for k
    using assms(1) that by (simp add: is_heap_def heap_from_def)
  have "defect 0 (Suc ?n) ?n h'"
    unfolding defect_def
  proof (intro conjI allI impI)
    fix k assume k: "0 < k \<and> k < Suc ?n \<and> 0 \<le> par k \<and> par k \<noteq> ?n \<and> k \<noteq> ?n"
    then have "k < ?n" "par k < ?n" using par_le[of k] by simp_all
    then show "key h' (par k) \<le> key h' k" using key[of k] key[of "par k"] old[of k] k by simp
  next
    fix k assume "0 < k \<and> k < Suc ?n \<and> par k = ?n"
    then have False using par_less[of k] by simp
    then show "key h' (par ?n) \<le> key h' k" ..
  qed
  moreover have "below_ok (Suc ?n) ?n h'"
    unfolding below_ok_def
  proof (intro allI impI)
    fix k assume "0 < k \<and> k < Suc ?n \<and> par k = ?n"
    then have False using par_less[of k] by simp
    then show "key h' ?n \<le> key h' k" ..
  qed
  ultimately have up: "heap_from 0 (Suc ?n) (heap_up I h' ?n)" "permuted (Suc ?n) h' (heap_up I h' ?n)"
    using up_heap[of h' ?n "Suc ?n"] h'(1,2) by simp_all
  have "heap_Push I h x = heap_up I h' ?n"
    using Len[OF h'(1)] h'(2) by (simp add: heap_Push_def h'_def Let_def)
  then show ?thesis
    using permuted_length[OF up(2)] up h'(2,3) by (simp add: is_heap_def permuted_def)
qed

lemma heap_least:
  assumes "is_heap h" "k < length (elems h)"
  shows "key h 0 \<le> key h k"
  using assms(2)
proof (induction k rule: less_induct)
  case (less k)
  show ?case
  proof (cases "k = 0")
    case False
    then have "key h 0 \<le> key h (par k)" "key h (par k) \<le> key h k"
      using less assms(1) by (auto simp: is_heap_def heap_from_def)
    then show ?thesis by linarith
  qed simp
qed

text \<open>Taking off the last element of a state whose other elements are in heap order.\<close>

lemma Pop_last:
  assumes "valid h" "Suc n = length (elems h)" "heap_from 0 n h"
  shows "case iPop I h of (x, h') \<Rightarrow> x = elems h ! n \<and> is_heap h' \<and> view h' = view h
    \<and> elems h' = take n (elems h)"
proof -
  have ne: "elems h \<noteq> []" using assms(2) by auto
  have "key (snd (iPop I h)) k = key h k" if "k < n" for k
    using Pop[OF assms(1) ne] assms(2) that by (simp add: key_def nth_butlast)
  moreover have "length (elems (snd (iPop I h))) = n"
    using Pop[OF assms(1) ne] assms(2) by simp
  moreover have "par k < n" if "k < n" for k
    using that by linarith
  ultimately have "heap_from 0 (length (elems (snd (iPop I h)))) (snd (iPop I h))"
    using assms(3) unfolding heap_from_def by simp
  moreover have "last (elems h) = elems h ! n" "butlast (elems h) = take n (elems h)"
    using last_conv_nth[OF ne] butlast_conv_take[of "elems h"] by (simp_all flip: assms(2))
  ultimately show ?thesis
    using Pop[OF assms(1) ne] by (auto simp: is_heap_def split: prod.splits)
qed

text \<open>The element that leaves is swapped to the end first.\<close>

lemma swap_out:
  assumes "is_heap h" "Suc n = length (elems h)" "i < n"
  shows "defect 0 n i (iSwap I h i n)"
proof -
  have len: "i < length (elems h)" "n < length (elems h)" using assms(2,3) by linarith+
  note K = key_Swap[OF _ len]
  have h: "valid h" "\<And>k. 0 < k \<Longrightarrow> k < Suc n \<Longrightarrow> key h (par k) \<le> key h k"
    using assms(1) by (auto simp: is_heap_def heap_from_def assms(2))
  show ?thesis
    unfolding defect_def
  proof (intro conjI allI impI)
    fix k assume k: "0 < k \<and> k < n \<and> 0 \<le> par k \<and> par k \<noteq> i \<and> k \<noteq> i"
    then have l: "par k < length (elems h)" "k < length (elems h)" "par k \<noteq> n" "k \<noteq> n"
      using len by linarith+
    show "key (iSwap I h i n) (par k) \<le> key (iSwap I h i n) k"
      using K[OF h(1) l(1)] K[OF h(1) l(2)] h(2)[of k] k l(3,4) by simp
  next
    fix k assume k: "0 < i \<and> 0 \<le> par i" "0 < k \<and> k < n \<and> par k = i"
    then have l: "par i < length (elems h)" "k < length (elems h)" "par i \<noteq> n" "k \<noteq> n" "par i \<noteq> i" "k \<noteq> i"
      using len assms(3) by linarith+
    have "key h (par i) \<le> key h i" "key h (par k) \<le> key h k"
      using h(2)[of i] h(2)[of k] k assms(3) by linarith+
    then show "key (iSwap I h i n) (par i) \<le> key (iSwap I h i n) k"
      using K[OF h(1) l(1)] K[OF h(1) l(2)] k l(3-6) by simp
  qed
qed

text \<open>What a state looks like when the element at \<^verbatim>\<open>i\<close> has been taken out of a heap.\<close>

definition removed_from :: "'h \<Rightarrow> nat \<Rightarrow> 'e \<times> 'h \<Rightarrow> bool" where
  "removed_from h i r \<longleftrightarrow> fst r = elems h ! i \<and> is_heap (snd r) \<and> view (snd r) = view h
     \<and> mset (elems (snd r)) = mset (elems h) - {#elems h ! i#}"

lemma removed_from_swapped:
  assumes "valid h" "Suc n = length (elems h)" "i < Suc n"
    and "permuted n (iSwap I h i n) h'" "heap_from 0 n h'"
  shows "removed_from h i (iPop I h')"
proof -
  have len: "i < length (elems h)" "n < length (elems h)" using assms(2,3) by linarith+
  note S = Swap[OF assms(1) len]
  have p: "valid h'" "mset (elems h') = mset (elems h)" "view h' = view h"
    "drop n (elems h') = drop n (swap_list (elems h) i n)"
    using assms(4) S len by (auto simp: permuted_def)
  have l': "Suc n = length (elems h')"
    using p(2) assms(2) mset_eq_length by metis
  have "elems h' ! n = hd (drop n (elems h'))"
    using l' by (simp add: hd_drop_conv_nth)
  also have "\<dots> = elems h ! i"
    using len by (simp add: p(4) hd_drop_conv_nth swap_list_nth)
  finally have last: "elems h' ! n = elems h ! i" .
  have "elems h' = take n (elems h') @ [elems h' ! n]"
    using take_Suc_conv_app_nth[of n "elems h'"] l' by simp
  from arg_cong[OF this, of mset]
  have "mset (elems h') = add_mset (elems h' ! n) (mset (take n (elems h')))"
    by simp
  then show ?thesis
    using Pop_last[OF p(1) l' assms(5)] p last by (auto simp: removed_from_def split: prod.splits)
qed

lemma Pop_heap:
  assumes "is_heap h" "elems h \<noteq> []"
  shows "removed_from h 0 (heap_Pop I h)"
proof -
  obtain n where n: "Suc n = length (elems h)" using assms(2) by (metis length_0_conv not0_implies_Suc)
  have v: "valid h" and h1: "valid (iSwap I h 0 n)"  "length (elems (iSwap I h 0 n)) = Suc n"
    using assms Swap[of h 0 n] n by (auto simp: is_heap_def)
  have "heap_from 0 n (fst (heap_down I (iSwap I h 0 n) 0 n))
      \<and> permuted n (iSwap I h 0 n) (fst (heap_down I (iSwap I h 0 n) 0 n))"
  proof (cases "n = 0")
    case True
    then have "fst (heap_down I (iSwap I h 0 n) 0 n) = iSwap I h 0 n"
      by (subst heap_down.simps) simp
    then show ?thesis using True h1 by (simp add: heap_from_def permuted_refl)
  next
    case False
    then show ?thesis
      using h1 swap_out[OF assms(1) n] by (intro down_heap) (auto simp: above_ok_def)
  qed
  then have "removed_from h 0 (iPop I (fst (heap_down I (iSwap I h 0 n) 0 n)))"
    using v n by (intro removed_from_swapped) auto
  then show ?thesis
    using Len[OF v] by (simp add: heap_Pop_def flip: n)
qed

lemma Remove_heap:
  assumes "is_heap h" "i < length (elems h)"
  shows "removed_from h i (heap_Remove I h i)"
proof -
  obtain n where n: "Suc n = length (elems h)" using assms(2) by (metis less_nat_zero_code not0_implies_Suc)
  have v: "valid h" using assms(1) by (simp add: is_heap_def)
  show ?thesis
  proof (cases "n = i")
    case True
    have "heap_from 0 n h"
      using assms(1) by (auto simp: is_heap_def heap_from_def simp flip: n)
    moreover have "permuted n (iSwap I h n n) h"
      using Swap[OF v, of n n] v n by (auto simp: permuted_def swap_list_def)
    ultimately have "removed_from h n (iPop I h)"
      using v n by (intro removed_from_swapped) auto
    then show ?thesis
      using Len[OF v] True by (simp add: heap_Remove_def flip: n)
  next
    case False
    define h1 where "h1 = iSwap I h i n"
    have i: "i < n" using False assms(2) n by linarith
    have h1: "valid h1" "length (elems h1) = Suc n" "defect 0 n i h1"
      using Swap[OF v, of i n] n i swap_out[OF assms(1) n i] by (auto simp: h1_def)
    obtain h2 i' where down: "heap_down I h1 i n = (h2, i')" by fastforce
    have "heap_from 0 n (if i' > i then h2 else heap_up I h2 i)
        \<and> permuted n h1 (if i' > i then h2 else heap_up I h2 i)"
      using down_defect[of h1 n i 0] h1 i down up_heap[of h1 i n] by (auto split: if_splits)
    then have "removed_from h i (iPop I (if i' > i then h2 else heap_up I h2 i))"
      using v n i unfolding h1_def by (intro removed_from_swapped) auto
    then show ?thesis
      using Len[OF v] False down by (simp add: heap_Remove_def h1_def flip: n)
  qed
qed

end

end
