(* ===== verification/Action_Queue.thy ===== *)
theory Action_Queue
  imports Priority_Queue Container_Heap
begin

text \<open>
  The action queue of \<^verbatim>\<open>internal/pkg/queue/actionqueue.go\<close>. The queue is a slice of pointers to items,
  and an item knows its position in the slice: \<^verbatim>\<open>Cancel\<close> collects pointers first and then removes each
  one at the position it has by then. So the items live in a store, an address being a position in
  it, and the slice holds addresses. The storage that \<^verbatim>\<open>Save\<close> writes to is a parameter.
\<close>

record item =
  item_action :: scheduled_action
  item_priority :: i64
  item_index :: int

record queue =
  items :: "item list"
  slots :: "nat list"

abbreviation item_at :: "queue \<Rightarrow> nat \<Rightarrow> item" where
  "item_at q i \<equiv> items q ! (slots q ! i)"

definition set_index_of :: "nat \<Rightarrow> int \<Rightarrow> item list \<Rightarrow> item list" where
  "set_index_of p i st = st[p := (st ! p)\<lparr>item_index := i\<rparr>]"

section \<open>The methods of the heap interface\<close>

definition queue_Len :: "queue \<Rightarrow> nat" where
  "queue_Len q = length (slots q)"

definition queue_Less :: "queue \<Rightarrow> nat \<Rightarrow> nat \<Rightarrow> bool" where
  "queue_Less q i j \<longleftrightarrow> item_priority (item_at q i) < item_priority (item_at q j)"

definition queue_Swap :: "queue \<Rightarrow> nat \<Rightarrow> nat \<Rightarrow> queue" where
  "queue_Swap q i j = (let s = (slots q)[i := slots q ! j, j := slots q ! i] in
     \<lparr>items = set_index_of (s ! j) (int j) (set_index_of (s ! i) (int i) (items q)), slots = s\<rparr>)"

definition queue_Push :: "queue \<Rightarrow> nat \<Rightarrow> queue" where
  "queue_Push q p = \<lparr>items = set_index_of p (int (length (slots q))) (items q), slots = slots q @ [p]\<rparr>"

definition queue_Pop :: "queue \<Rightarrow> nat \<times> queue" where
  "queue_Pop q = (let p = last (slots q) in
     (p, \<lparr>items = set_index_of p (- 1) (items q), slots = butlast (slots q)\<rparr>))"

definition queue_methods :: "(queue, nat) heap_methods" where
  "queue_methods = \<lparr>iLen = queue_Len, iLess = queue_Less, iSwap = queue_Swap, iPush = queue_Push, iPop = queue_Pop\<rparr>"

section \<open>The operations\<close>

definition newQueue :: "scheduled_action list \<Rightarrow> time_error + queue" where
  "newQueue actions = (case those (map (\<lambda>a. case StartTime a of Inl _ \<Rightarrow> None | Inr t \<Rightarrow> Some t) actions) of
       None \<Rightarrow> Inl (hd [e. Inl e \<leftarrow> map StartTime actions])
     | Some ts \<Rightarrow> Inr (heap_Init queue_methods
         \<lparr>items = map (\<lambda>(i, a, t). \<lparr>item_action = a, item_priority = unix t, item_index = int i\<rparr>)
            (zip [0..<length actions] (zip actions ts)),
          slots = [0..<length actions]\<rparr>))"

definition queue_Add :: "scheduled_action \<Rightarrow> i64 \<Rightarrow> queue \<Rightarrow> queue" where
  "queue_Add a p q = heap_Push queue_methods
     (q\<lparr>items := items q @ [\<lparr>item_action = a, item_priority = p, item_index = 0\<rparr>]\<rparr>) (length (items q))"

text \<open>The loop of \<^verbatim>\<open>DequeueActions\<close>; each round takes one item off, so the length bounds the rounds.\<close>

fun dequeue_loop :: "nat \<Rightarrow> i64 \<Rightarrow> queue \<Rightarrow> scheduled_action list \<times> queue" where
  "dequeue_loop 0 ts q = ([], q)"
| "dequeue_loop (Suc n) ts q =
     (if queue_Len q = 0 \<or> item_priority (item_at q 0) > ts then ([], q)
      else case heap_Pop queue_methods q of (p, q') \<Rightarrow>
        (case dequeue_loop n ts q' of (as, q'') \<Rightarrow> (item_action (items q' ! p) # as, q'')))"

definition DequeueActions :: "i64 \<Rightarrow> queue \<Rightarrow> scheduled_action list \<times> queue" where
  "DequeueActions ts q = dequeue_loop (queue_Len q) ts q"

text \<open>Removing the items at the given addresses; an index out of range panics.\<close>

fun remove_items :: "nat list \<Rightarrow> queue \<Rightarrow> queue option" where
  "remove_items [] q = Some q"
| "remove_items (p # ps) q = (let i = item_index (items q ! p) in
     if i < 0 \<or> int (queue_Len q) \<le> i then None
     else remove_items ps (snd (heap_Remove queue_methods q (nat i))))"

definition cancel_where :: "(scheduled_action \<Rightarrow> bool) \<Rightarrow> queue \<Rightarrow> (nat \<times> queue) option" where
  "cancel_where P q = (let ps = filter (\<lambda>p. P (item_action (items q ! p))) (slots q) in
     map_option (\<lambda>q'. (length ps, q')) (remove_items ps q))"

definition queue_Cancel :: "string \<Rightarrow> queue \<Rightarrow> (nat \<times> queue) option" where
  "queue_Cancel actionID = cancel_where (\<lambda>a. scheduled_ID a = actionID)"

definition queue_CancelType :: "string \<Rightarrow> queue \<Rightarrow> (nat \<times> queue) option" where
  "queue_CancelType actionType = cancel_where (\<lambda>a. scheduled_Type a = actionType)"

definition queue_Actions :: "queue \<Rightarrow> scheduled_action list" where
  "queue_Actions q = map (\<lambda>p. item_action (items q ! p)) (slots q)"

section \<open>The queue with its storage\<close>

record 's saver =
  SetQueue :: "scheduled_action list \<Rightarrow> 's \<Rightarrow> 's"
  SaverSave :: "'s \<Rightarrow> gerror option \<times> 's"

record 's ActionQueue =
  aq :: queue
  storage :: 's

definition NewActionQueue :: "scheduled_action list \<Rightarrow> 's \<Rightarrow> time_error + 's ActionQueue" where
  "NewActionQueue actions s = rbind (newQueue actions) (\<lambda>q. Inr \<lparr>aq = q, storage = s\<rparr>)"

definition queue_Save :: "'s saver \<Rightarrow> 's ActionQueue \<Rightarrow> gerror option \<times> 's ActionQueue" where
  "queue_Save sv q = (case SaverSave sv (SetQueue sv (queue_Actions (aq q)) (storage q)) of
     (e, s) \<Rightarrow> (e, q\<lparr>storage := s\<rparr>))"

text \<open>The action queue as the dispatcher sees it.\<close>

definition action_queue_methods :: "'s saver \<Rightarrow> 's ActionQueue priorityQueue" where
  "action_queue_methods sv = \<lparr>
     pqAdd = \<lambda>a p q. q\<lparr>aq := queue_Add a p (aq q)\<rparr>,
     pqDequeueActions = \<lambda>ts q. apsnd (\<lambda>q'. q\<lparr>aq := q'\<rparr>) (DequeueActions ts (aq q)),
     pqActions = \<lambda>q. queue_Actions (aq q),
     pqCancelType = \<lambda>t q. map_option (apsnd (\<lambda>q'. q\<lparr>aq := q'\<rparr>)) (queue_CancelType t (aq q)),
     pqSave = queue_Save sv\<rparr>"

section \<open>The queue keeps the heap laws\<close>

text \<open>No address occurs twice, every item exists, and every item knows its position.\<close>

definition indexed_queue :: "queue \<Rightarrow> bool" where
  "indexed_queue q \<longleftrightarrow> distinct (slots q) \<and> (\<forall>p\<in>set (slots q). p < length (items q))
     \<and> (\<forall>k<length (slots q). item_index (item_at q k) = int k)"

definition fresh_item :: "queue \<Rightarrow> nat \<Rightarrow> bool" where
  "fresh_item q p \<longleftrightarrow> p < length (items q) \<and> p \<notin> set (slots q)"

text \<open>What an item is, without its index.\<close>

definition core :: "queue \<Rightarrow> nat \<Rightarrow> scheduled_action \<times> i64" where
  "core q p = (item_action (items q ! p), item_priority (items q ! p))"

lemma nth_set_index_of:
  "set_index_of p i st ! r = (if r = p \<and> p < length st then (st ! p)\<lparr>item_index := i\<rparr> else st ! r)"
  by (cases "p < length st") (auto simp: set_index_of_def nth_list_update list_update_beyond)

lemma length_set_index_of [simp]: "length (set_index_of p i st) = length st"
  by (simp add: set_index_of_def)

lemma core_set_index:
  "item_action (set_index_of p i st ! r) = item_action (st ! r)"
  "item_priority (set_index_of p i st ! r) = item_priority (st ! r)"
  by (auto simp: nth_set_index_of)

lemma queue_Swap_fields:
  "slots (queue_Swap q i j) = swap_list (slots q) i j" "core (queue_Swap q i j) = core q"
  by (auto simp: queue_Swap_def swap_list_def Let_def core_def core_set_index)

lemma queue_Swap_indexed:
  assumes "indexed_queue q" "i < length (slots q)" "j < length (slots q)"
  shows "indexed_queue (queue_Swap q i j)"
proof -
  let ?s = "swap_list (slots q) i j"
  have s: "distinct ?s" "set ?s = set (slots q)"
    using assms by (simp_all add: indexed_queue_def swap_list_def)
  have "item_index (item_at (queue_Swap q i j) k) = int k" if "k < length (slots q)" for k
  proof -
    have "?s ! k \<in> set (slots q)" "?s ! i \<in> set (slots q)" "?s ! j \<in> set (slots q)"
      using that assms(2,3) s(2) by (metis length_swap_list nth_mem)+
    then have lt: "?s ! k < length (items q)" "?s ! i < length (items q)" "?s ! j < length (items q)"
      using assms(1) by (auto simp: indexed_queue_def)
    have inj: "?s ! a = ?s ! b \<longleftrightarrow> a = b" if "a < length (slots q)" "b < length (slots q)" for a b
      using s(1) that by (simp add: nth_eq_iff_index_eq)
    have old: "item_index (items q ! (?s ! k)) = int k" if "k \<noteq> i" "k \<noteq> j"
      using assms that \<open>k < length (slots q)\<close> by (simp add: swap_list_nth indexed_queue_def)
    show ?thesis
      using lt old inj[of k i] inj[of k j] that assms(2,3)
      by (auto simp: queue_Swap_def Let_def nth_set_index_of simp flip: swap_list_def)
  qed
  then show ?thesis
    using assms(1) s by (auto simp: indexed_queue_def queue_Swap_fields) (auto simp: queue_Swap_def Let_def)
qed

lemma queue_Push_indexed:
  assumes "indexed_queue q" "fresh_item q p"
  shows "indexed_queue (queue_Push q p)"
  using assms
  by (auto simp: indexed_queue_def fresh_item_def queue_Push_def nth_append nth_set_index_of less_Suc_eq)

lemma queue_Pop_indexed:
  assumes "indexed_queue q" "slots q \<noteq> []"
  shows "indexed_queue (snd (queue_Pop q))"
proof -
  obtain ps p where s: "slots q = ps @ [p]" using assms(2) by (cases "slots q" rule: rev_cases) auto
  have "\<And>k. k < length ps \<Longrightarrow> ps ! k \<noteq> p" "\<And>k. k < length ps \<Longrightarrow> slots q ! k = ps ! k"
    using assms(1) s by (auto simp: indexed_queue_def nth_append)
  moreover have "\<And>k. k < length ps \<Longrightarrow> item_index (items q ! (ps ! k)) = int k"
    using assms(1) s unfolding indexed_queue_def by (metis length_append_singleton less_SucI nth_append)
  ultimately show ?thesis
    using assms(1) by (auto simp: indexed_queue_def queue_Pop_def Let_def s nth_set_index_of)
qed

lemma queue_Push_Pop_fields:
  "slots (queue_Push q p) = slots q @ [p]" "core (queue_Push q p) = core q"
  "slots (snd (queue_Pop q)) = butlast (slots q)" "core (snd (queue_Pop q)) = core q"
  "fst (queue_Pop q) = last (slots q)"
  by (auto simp: queue_Push_def queue_Pop_def Let_def core_def core_set_index)

lemmas queue_fields = queue_Swap_fields queue_Push_Pop_fields

interpretation hq: heap_laws queue_methods indexed_queue slots core snd fresh_item
  by unfold_locales
    (simp_all add: queue_methods_def queue_Len_def queue_fields queue_Swap_indexed queue_Push_indexed
      queue_Pop_indexed, simp add: queue_Less_def core_def)

section \<open>The contents of a queue\<close>

definition contents :: "queue \<Rightarrow> (scheduled_action \<times> i64) multiset" where
  "contents q = mset (map (core q) (slots q))"

definition queue_ok :: "queue \<Rightarrow> bool" where
  "queue_ok q \<longleftrightarrow> indexed_queue q \<and> hq.heap_from 0 (length (slots q)) q"

lemma queue_ok_heap: "queue_ok q \<longleftrightarrow> hq.is_heap q"
  by (simp add: queue_ok_def hq.is_heap_def)

lemma contents_Actions: "mset (queue_Actions q) = image_mset fst (contents q)"
  by (simp add: queue_Actions_def contents_def core_def image_mset.compositionality comp_def)

lemma contents_removed:
  assumes "hq.removed_from q i (p, q')" "i < length (slots q)"
  shows "p = slots q ! i" "queue_ok q'" "core q' = core q" "mset (slots q') = mset (slots q) - {#p#}"
    "contents q = add_mset (core q p) (contents q')" "length (slots q) = Suc (length (slots q'))"
proof -
  show p: "p = slots q ! i" "queue_ok q'" "core q' = core q" "mset (slots q') = mset (slots q) - {#p#}"
    using assms(1) by (simp_all add: hq.removed_from_def queue_ok_heap)
  have m: "mset (slots q) = add_mset p (mset (slots q'))"
    using p(1,4) assms(2) by simp
  then show "contents q = add_mset (core q p) (contents q')"
    by (simp add: contents_def p(3))
  show "length (slots q) = Suc (length (slots q'))"
    using arg_cong[OF m, of size] by simp
qed

subsection \<open>Making a queue\<close>

lemma indexed_queue_new:
  assumes "length ts = length actions"
  shows "indexed_queue \<lparr>items = map (\<lambda>(i, a, t). \<lparr>item_action = a, item_priority = unix t, item_index = int i\<rparr>)
      (zip [0..<length actions] (zip actions ts)), slots = [0..<length actions]\<rparr>"
  using assms by (auto simp: indexed_queue_def)

lemma those_SomeD: "those xs = Some ys \<Longrightarrow> xs = map Some ys"
  by (induction xs arbitrary: ys) (auto split: option.splits)

lemma newQueue_ok:
  assumes "newQueue actions = Inr q"
  shows "queue_ok q \<and> contents q = mset (map (\<lambda>a. (a, unix (projr (StartTime a)))) actions)"
proof -
  let ?f = "\<lambda>a. case StartTime a of Inl _ \<Rightarrow> None | Inr t \<Rightarrow> Some t"
  obtain ts where ts: "those (map ?f actions) = Some ts"
    using assms by (auto simp: newQueue_def split: option.splits)
  define q0 where "q0 = \<lparr>items = map (\<lambda>(i, a, t). \<lparr>item_action = a, item_priority = unix t, item_index = int i\<rparr>)
      (zip [0..<length actions] (zip actions ts)), slots = [0..<length actions]\<rparr>"
  have q: "q = heap_Init queue_methods q0"
    using assms by (simp add: newQueue_def ts q0_def)
  have f: "map ?f actions = map Some ts" using those_SomeD[OF ts] .
  then have len: "length ts = length actions" using map_eq_imp_length_eq by metis
  have t: "StartTime (actions ! k) = Inr (ts ! k)" if "k < length actions" for k
    using arg_cong[OF f, of "\<lambda>xs. xs ! k"] that len by (auto split: sum.splits)
  have "map (core q0) (slots q0) = map (\<lambda>a. (a, unix (projr (StartTime a)))) actions"
    by (rule nth_equalityI) (auto simp: q0_def core_def len t)
  moreover have "indexed_queue q0"
    unfolding q0_def by (rule indexed_queue_new[OF len])
  ultimately show ?thesis
    using hq.Init_heap[of q0] unfolding q queue_ok_heap contents_def
    by (metis mset_map)
qed

subsection \<open>Adding\<close>

lemma queue_Add_ok:
  assumes "queue_ok q"
  shows "queue_ok (queue_Add a p q) \<and> contents (queue_Add a p q) = add_mset (a, p) (contents q)"
proof -
  let ?n = "length (items q)"
  define q' where "q' = q\<lparr>items := items q @ [\<lparr>item_action = a, item_priority = p, item_index = 0\<rparr>]\<rparr>"
  have lt: "r < ?n" if "r \<in> set (slots q)" for r
    using assms that by (auto simp: queue_ok_def indexed_queue_def)
  have s: "slots q' = slots q" "\<And>r. r < ?n \<Longrightarrow> items q' ! r = items q ! r"
    by (simp_all add: q'_def nth_append)
  have c: "core q' r = core q r" if "r < ?n" for r
    using that s by (simp add: core_def)
  have "indexed_queue q'" "fresh_item q' ?n"
    using assms lt by (auto simp: queue_ok_def indexed_queue_def fresh_item_def q'_def nth_append intro: less_SucI)
  moreover have "hq.key q' k = hq.key q k" if "k < length (slots q)" for k
    using that lt c s by (simp add: hq.key_def)
  then have "hq.heap_from 0 (length (slots q')) q'"
    using assms par_le unfolding queue_ok_def hq.heap_from_def s by (metis le_less_trans)
  ultimately have "hq.is_heap q'" "fresh_item q' ?n"
    by (simp_all add: hq.is_heap_def)
  note P = hq.Push_heap[OF this]
  have "map (core q') (slots q) = map (core q) (slots q)"
    using c lt by simp
  then have "mset (map (core q') (slots q)) = contents q"
    by (simp only: contents_def)
  moreover have "core q' ?n = (a, p)"
    by (simp add: core_def q'_def nth_append)
  ultimately show ?thesis
    using P unfolding queue_Add_def q'_def[symmetric] queue_ok_heap contents_def
    by (simp add: s)
qed

subsection \<open>Taking out what is due\<close>

lemma queue_ok_least:
  assumes "queue_ok q" "x \<in># contents q"
  shows "item_priority (item_at q 0) \<le> snd x"
proof -
  obtain k where k: "k < length (slots q)" "x = core q (slots q ! k)"
    using assms(2) by (auto simp: contents_def in_set_conv_nth)
  then show ?thesis
    using hq.heap_least[of q k] assms(1) by (simp add: queue_ok_heap hq.key_def core_def)
qed

lemma dequeue_loop_ok:
  assumes "queue_ok q" "length (slots q) \<le> n" "dequeue_loop n ts q = (as, q')"
  shows "queue_ok q' \<and> contents q' = filter_mset (\<lambda>x. \<not> due ts x) (contents q) \<and>
    (\<exists>xs. as = map fst xs \<and> sorted (map snd xs) \<and> mset xs = filter_mset (due ts) (contents q))"
  using assms
proof (induction n arbitrary: q as)
  case 0
  then show ?case by (simp add: contents_def)
next
  case (Suc n)
  show ?case
  proof (cases "queue_Len q = 0 \<or> item_priority (item_at q 0) > ts")
    case True
    have "\<not> due ts x" if "x \<in># contents q" for x
      using True
    proof
      assume "queue_Len q = 0"
      with that show ?thesis by (simp add: queue_Len_def contents_def)
    next
      assume "item_priority (item_at q 0) > ts"
      with queue_ok_least[OF Suc.prems(1) that] show ?thesis by (simp add: due_def)
    qed
    then have "filter_mset (due ts) (contents q) = {#}" "filter_mset (\<lambda>x. \<not> due ts x) (contents q) = contents q"
      by (simp_all add: filter_mset_eq_conv)
    with True Suc.prems show ?thesis by simp
  next
    case False
    obtain p q1 where pop: "heap_Pop queue_methods q = (p, q1)" by fastforce
    obtain bs where bs: "dequeue_loop n ts q1 = (bs, q')" "as = item_action (items q1 ! p) # bs"
      using Suc.prems(3) False pop by (auto split: prod.splits)
    have ne: "slots q \<noteq> []" using False by (simp add: queue_Len_def)
    then have "hq.removed_from q 0 (p, q1)"
      using hq.Pop_heap[of q] Suc.prems(1) by (simp add: pop queue_ok_heap)
    note R = contents_removed[OF this, simplified, OF ne]
    have x: "core q p = (item_action (items q1 ! p), item_priority (item_at q 0))"
      using R(1,3) by (metis core_def prod.inject)
    obtain xs where IH: "queue_ok q'" "contents q' = filter_mset (\<lambda>x. \<not> due ts x) (contents q1)"
      "bs = map fst xs" "sorted (map snd xs)" "mset xs = filter_mset (due ts) (contents q1)"
      using Suc.IH[OF R(2) _ bs(1)] Suc.prems(2) R(6) by auto
    have le: "item_priority (item_at q 0) \<le> snd y" if "y \<in> set xs" for y
    proof -
      have "y \<in># contents q1" using that IH(5) by (metis mset_subset_eqD multiset_filter_subset set_mset_mset)
      then show ?thesis using queue_ok_least[OF Suc.prems(1), of y] R(5) by simp
    qed
    have d: "due ts (core q p)" using False x by (simp add: due_def)
    have "as = map fst (core q p # xs)" "sorted (map snd (core q p # xs))"
      "mset (core q p # xs) = filter_mset (due ts) (contents q)"
      using bs(2) IH(3-5) le d R(5) x by auto
    moreover have "contents q' = filter_mset (\<lambda>x. \<not> due ts x) (contents q)"
      using IH(2) d R(5) by simp
    ultimately show ?thesis using IH(1) by blast
  qed
qed

subsection \<open>Cancelling\<close>

lemma indexed_position:
  assumes "indexed_queue q" "p \<in> set (slots q)"
  shows "0 \<le> item_index (items q ! p)" "item_index (items q ! p) < int (queue_Len q)"
    "slots q ! nat (item_index (items q ! p)) = p"
proof -
  obtain k where "k < length (slots q)" "slots q ! k = p" using assms(2) by (auto simp: in_set_conv_nth)
  moreover from this have "item_index (items q ! p) = int k" using assms(1) by (auto simp: indexed_queue_def)
  ultimately show "0 \<le> item_index (items q ! p)" "item_index (items q ! p) < int (queue_Len q)"
    "slots q ! nat (item_index (items q ! p)) = p" by (simp_all add: queue_Len_def)
qed

lemma remove_items_ok:
  assumes "queue_ok q" "distinct ps" "set ps \<subseteq> set (slots q)"
  shows "\<exists>q'. remove_items ps q = Some q' \<and> queue_ok q' \<and> core q' = core q
    \<and> mset (slots q') = mset (slots q) - mset ps"
  using assms
proof (induction ps arbitrary: q)
  case (Cons p ps)
  have idx: "indexed_queue q" using Cons.prems(1) by (simp add: queue_ok_def)
  note P = indexed_position[OF idx, of p]
  let ?i = "nat (item_index (items q ! p))"
  have i: "?i < length (slots q)" using P Cons.prems(3) by (simp add: queue_Len_def nat_less_iff)
  obtain r q1 where rem: "heap_Remove queue_methods q ?i = (r, q1)" by fastforce
  have "hq.removed_from q ?i (r, q1)"
    using hq.Remove_heap[of q ?i] Cons.prems(1) i rem by (simp add: queue_ok_heap)
  note R = contents_removed[OF this i]
  have r: "r = p" using R(1) P(3) Cons.prems(3) by simp
  have dist: "distinct (slots q)" using idx by (simp add: indexed_queue_def)
  have "mset (slots q1) = mset (remove1 p (slots q))" using R(4) r by simp
  then have "set (slots q1) = set (remove1 p (slots q))" by (rule mset_eq_setD)
  then have "set (slots q1) = set (slots q) - {p}" using dist by simp
  then have "set ps \<subseteq> set (slots q1)" using Cons.prems(2,3) by auto
  then obtain q' where "remove_items ps q1 = Some q'" "queue_ok q'" "core q' = core q1"
    "mset (slots q') = mset (slots q1) - mset ps"
    using Cons.IH[of q1] R(2) Cons.prems(2) by auto
  then show ?case
    using P Cons.prems(3) rem R(3,4) r by (simp add: Let_def not_less)
qed simp

lemma cancel_where_ok:
  assumes "queue_ok q"
  shows "\<exists>q'. cancel_where P q = Some (size (filter_mset (\<lambda>x. P (fst x)) (contents q)), q')
    \<and> queue_ok q' \<and> contents q' = filter_mset (\<lambda>x. \<not> P (fst x)) (contents q)"
proof -
  let ?P = "\<lambda>p. P (item_action (items q ! p))"
  have P: "?P p \<longleftrightarrow> P (fst (core q p))" for p by (simp add: core_def)
  have "distinct (filter ?P (slots q))" using assms by (simp add: queue_ok_def indexed_queue_def)
  from remove_items_ok[OF assms this] obtain q' where q': "remove_items (filter ?P (slots q)) q = Some q'"
    "queue_ok q'" "core q' = core q" "mset (slots q') = mset (slots q) - mset (filter ?P (slots q))"
    by auto
  have "mset (slots q') = filter_mset (\<lambda>p. \<not> ?P p) (mset (slots q))"
    using q'(4) by (simp add: multiset_eq_iff)
  then have "contents q' = filter_mset (\<lambda>x. \<not> P (fst x)) (contents q)"
    by (simp add: contents_def q'(3) P filter_mset_image_mset)
  moreover have "length (filter ?P (slots q)) = size (filter_mset (\<lambda>x. P (fst x)) (contents q))"
    by (simp add: contents_def P filter_mset_image_mset flip: mset_filter)
  ultimately show ?thesis
    using q'(1,2) by (auto simp: cancel_where_def Let_def)
qed

lemma DequeueActions_ok:
  assumes "queue_ok q" "DequeueActions ts q = (as, q')"
  shows "queue_ok q' \<and> contents q' = filter_mset (\<lambda>x. \<not> due ts x) (contents q) \<and>
    (\<exists>xs. as = map fst xs \<and> sorted (map snd xs) \<and> mset xs = filter_mset (due ts) (contents q))"
  using dequeue_loop_ok[OF assms(1) _ assms(2)[unfolded DequeueActions_def]] by (simp add: queue_Len_def)

section \<open>The contract of the dispatcher\<close>

interpretation apq: priority_queue "action_queue_methods sv" "\<lambda>q. queue_ok (aq q)" "\<lambda>q. contents (aq q)"
proof
  fix q :: "'a ActionQueue" and t
  assume "queue_ok (aq q)"
  then show "\<exists>q'. pqCancelType (action_queue_methods sv) t q = Some (size (filter_mset (of_type t) (contents (aq q))), q')
      \<and> queue_ok (aq q') \<and> contents (aq q') = filter_mset (\<lambda>x. \<not> of_type t x) (contents (aq q))"
    using cancel_where_ok[of "aq q" "\<lambda>a. scheduled_Type a = t"]
    by (auto simp: action_queue_methods_def queue_CancelType_def of_type_fun)
next
  fix q q' :: "'a ActionQueue" and ts as
  assume q: "queue_ok (aq q)" "pqDequeueActions (action_queue_methods sv) ts q = (as, q')"
  then have "DequeueActions ts (aq q) = (as, aq q')"
    by (cases "DequeueActions ts (aq q)") (auto simp: action_queue_methods_def)
  with q(1) show "queue_ok (aq q') \<and> contents (aq q') = filter_mset (\<lambda>x. \<not> due ts x) (contents (aq q)) \<and>
      (\<exists>xs. as = map fst xs \<and> sorted (map snd xs) \<and> mset xs = filter_mset (due ts) (contents (aq q)))"
    by (rule DequeueActions_ok)
qed (auto simp: action_queue_methods_def queue_Add_ok contents_Actions queue_Save_def split: prod.splits)

section \<open>Runs of a queue\<close>

text \<open>Every queue that the methods can produce, in any order of calls.\<close>

inductive queue_run :: "queue \<Rightarrow> bool" where
  run_new: "newQueue actions = Inr q \<Longrightarrow> queue_run q"
| run_add: "queue_run q \<Longrightarrow> queue_run (queue_Add a p q)"
| run_dequeue: "queue_run q \<Longrightarrow> DequeueActions ts q = (as, q') \<Longrightarrow> queue_run q'"
| run_cancel: "queue_run q \<Longrightarrow> queue_Cancel i q = Some (n, q') \<Longrightarrow> queue_run q'"
| run_cancel_type: "queue_run q \<Longrightarrow> queue_CancelType t q = Some (n, q') \<Longrightarrow> queue_run q'"

lemma queue_run_ok: "queue_run q \<Longrightarrow> queue_ok q"
proof (induction rule: queue_run.induct)
  case (run_cancel q i n q')
  then show ?case
    using cancel_where_ok[of q "\<lambda>a. scheduled_ID a = i"] by (auto simp: queue_Cancel_def)
next
  case (run_cancel_type q t n q')
  then show ?case
    using cancel_where_ok[of q "\<lambda>a. scheduled_Type a = t"] by (auto simp: queue_CancelType_def)
qed (auto simp: newQueue_ok queue_Add_ok dest: DequeueActions_ok)

definition sample_upgrade :: "string \<Rightarrow> string \<Rightarrow> scheduled_action" where
  "sample_upgrade i start = Upgrade \<lparr>ActionID = i, ActionType = ''UPGRADE'', ActionStartTime = start,
     ActionExpiration = [], Version = ''9.1.0'', Sources = [], Retry = 0, Rollback = False,
     UpgradeSigned = None, UpgradeErr = None\<rparr>"

definition sample_queue :: queue where
  "sample_queue = queue_Add (sample_upgrade ''b'' []) 3 (queue_Add (sample_upgrade ''a'' []) 7 \<lparr>items = [], slots = []\<rparr>)"

lemma empty_queue_run: "queue_run \<lparr>items = [], slots = []\<rparr>"
  by (rule run_new[of "[]"]) (simp add: newQueue_def heap_Init_def queue_methods_def queue_Len_def)

lemma sample_queue_run: "queue_run sample_queue"
  unfolding sample_queue_def by (intro run_add empty_queue_run)

lemma sample_queue_contents: "contents sample_queue = {#(sample_upgrade ''b'' [], 3), (sample_upgrade ''a'' [], 7)#}"
  using queue_Add_ok[OF queue_run_ok[OF empty_queue_run]] queue_Add_ok[OF queue_run_ok[OF run_add[OF empty_queue_run]]]
  by (simp add: sample_queue_def contents_def)

text \<open>C8: Whatever was added, dequeued and cancelled before, dequeuing at a time returns exactly the actions
  that are due, earliest first, and leaves exactly the others.\<close>

theorem dequeue_returns_what_is_due:
  assumes "queue_run q" "DequeueActions ts q = (as, q')"
  shows "contents q' = filter_mset (\<lambda>x. \<not> due ts x) (contents q) \<and>
    (\<exists>xs. as = map fst xs \<and> sorted (map snd xs) \<and> mset xs = filter_mset (due ts) (contents q))"
  using DequeueActions_ok[OF queue_run_ok[OF assms(1)] assms(2)] by blast

theorem dequeue_returns_what_is_due_witness:
  "DequeueActions 5 sample_queue
     = ([sample_upgrade ''b'' []],
        snd (DequeueActions 5 sample_queue))
   \<and> contents (snd (DequeueActions 5 sample_queue))
     = {#(sample_upgrade ''a'' [], 7)#}"
proof -
  obtain as q' where d: "DequeueActions 5 sample_queue = (as, q')" by fastforce
  from dequeue_returns_what_is_due[OF sample_queue_run d] show ?thesis
    by (auto simp: d sample_queue_contents due_def)
qed

text \<open>C23: Cancelling by id, whatever happened before, never runs out of the slice although every removal
  moves other items; it removes exactly the matching actions, and returns their number.\<close>

theorem cancel_removes_exactly_the_matches:
  assumes "queue_run q"
  shows "\<exists>q'. queue_Cancel i q = Some (size (filter_mset (\<lambda>x. scheduled_ID (fst x) = i) (contents q)), q')
    \<and> contents q' = filter_mset (\<lambda>x. scheduled_ID (fst x) \<noteq> i) (contents q)"
  using cancel_where_ok[OF queue_run_ok[OF assms], of "\<lambda>a. scheduled_ID a = i"] by (auto simp: queue_Cancel_def)

theorem cancel_removes_exactly_the_matches_witness:
  "\<exists>q'. queue_Cancel ''a'' sample_queue
     = Some (1, q') \<and> contents q' = {#(sample_upgrade ''b'' [], 3)#}"
  using cancel_removes_exactly_the_matches[OF sample_queue_run, of "''a''"]
  by (auto simp: sample_queue_contents sample_upgrade_def)

text \<open>C35: In every queue the items know their positions, no item is in two places, and the action at
  position 0 is the earliest.\<close>

theorem queue_positions_and_head:
  assumes "queue_run q"
  shows "distinct (slots q) \<and> (\<forall>k<queue_Len q. item_index (item_at q k) = int k)
    \<and> (\<forall>k<queue_Len q. item_priority (item_at q 0) \<le> item_priority (item_at q k))"
proof -
  have ok: "queue_ok q" by (rule queue_run_ok[OF assms])
  have "item_priority (item_at q 0) \<le> item_priority (item_at q k)" if "k < queue_Len q" for k
    using queue_ok_least[OF ok, of "core q (slots q ! k)"] that
    by (simp add: contents_def queue_Len_def core_def)
  with ok show ?thesis
    by (auto simp: queue_ok_def indexed_queue_def queue_Len_def)
qed

theorem queue_positions_and_head_witness:
  "item_priority (item_at sample_queue 0)
   \<le> item_priority (item_at sample_queue 1)"
proof -
  have "size (contents sample_queue) = 2" by (simp add: sample_queue_contents)
  then have "queue_Len sample_queue = 2" by (simp add: contents_def queue_Len_def)
  then show ?thesis using queue_positions_and_head[OF sample_queue_run] by simp
qed

end
