(* ===== verification/Upgrade_Details.thy ===== *)
theory Upgrade_Details
  imports Actions
begin

text \<open>
  The details of an ongoing upgrade, \<^verbatim>\<open>pkg/upgrade/details/details.go\<close>. A setter returns the new details
  and what it tells the observers, in order; an observer is a name. The mutex is left out, each
  method being one step. Equality of pointers is an argument of \<^verbatim>\<open>Equals\<close>.
\<close>

abbreviation StateScheduled :: string where "StateScheduled \<equiv> ''UPG_SCHEDULED''"
abbreviation StateCompleted :: string where "StateCompleted \<equiv> ''UPG_COMPLETED''"
abbreviation StateFailed :: string where "StateFailed \<equiv> ''UPG_FAILED''"

record Metadata =
  ScheduledAt :: "gtime option"
  DownloadPercent :: f64
  DownloadRate :: f64
  RetryErrorMsg :: string
  RetryUntil :: "gtime option"
  FailedState :: string
  ErrorMsg :: string
  Reason :: string

record 'o Details =
  TargetVersion :: string
  DState :: string
  DActionID :: string
  DMetadata :: Metadata
  observers :: "'o list"

type_synonym snapshot = "(string \<times> string \<times> string \<times> Metadata) option"

definition zero_Metadata :: Metadata where
  "zero_Metadata = \<lparr>ScheduledAt = None, DownloadPercent = Fin False 0, DownloadRate = Fin False 0,
     RetryErrorMsg = [], RetryUntil = None, FailedState = [], ErrorMsg = [], Reason = []\<rparr>"

definition NewDetails :: "string \<Rightarrow> string \<Rightarrow> string \<Rightarrow> 'o Details" where
  "NewDetails targetVersion initialState actionID =
     \<lparr>TargetVersion = targetVersion, DState = initialState, DActionID = actionID,
      DMetadata = zero_Metadata, observers = []\<rparr>"

section \<open>Observers\<close>

text \<open>What an observer is given: nil when the upgrade is completed, otherwise a copy.\<close>

definition notifyObserver :: "'o Details \<Rightarrow> 'o \<Rightarrow> 'o \<times> snapshot" where
  "notifyObserver d ob = (ob, if DState d = StateCompleted then None
     else Some (TargetVersion d, DState d, DActionID d, DMetadata d))"

definition notifyObservers :: "'o Details \<Rightarrow> ('o \<times> snapshot) list" where
  "notifyObservers d = map (notifyObserver d) (observers d)"

definition notifying :: "'o Details \<Rightarrow> 'o Details \<times> ('o \<times> snapshot) list" where
  "notifying d = (d, notifyObservers d)"

definition RegisterObserver :: "'o \<Rightarrow> 'o Details \<Rightarrow> 'o Details \<times> ('o \<times> snapshot) list" where
  "RegisterObserver ob d = (let d' = d\<lparr>observers := observers d @ [ob]\<rparr> in (d', [notifyObserver d' ob]))"

section \<open>Setters\<close>

definition clear_failure :: "string \<Rightarrow> Metadata \<Rightarrow> Metadata" where
  "clear_failure s m = (if s \<noteq> StateFailed then m\<lparr>ErrorMsg := [], FailedState := []\<rparr> else m)"

definition SetState :: "string \<Rightarrow> 'o Details \<Rightarrow> 'o Details \<times> ('o \<times> snapshot) list" where
  "SetState s d = notifying (d\<lparr>DState := s, DMetadata := clear_failure s (DMetadata d)\<rparr>)"

definition SetStateWithReason :: "string \<Rightarrow> string \<Rightarrow> 'o Details \<Rightarrow> 'o Details \<times> ('o \<times> snapshot) list" where
  "SetStateWithReason s reason d =
     notifying (d\<lparr>DState := s, DMetadata := clear_failure s ((DMetadata d)\<lparr>Reason := reason\<rparr>)\<rparr>)"

definition SetDownloadProgress :: "f64 \<Rightarrow> f64 \<Rightarrow> 'o Details \<Rightarrow> 'o Details \<times> ('o \<times> snapshot) list" where
  "SetDownloadProgress percent rate d = notifying (d\<lparr>DMetadata := (DMetadata d)\<lparr>DownloadPercent := percent,
     DownloadRate := (case rate of Fin _ _ \<Rightarrow> rate | _ \<Rightarrow> Fin False 0)\<rparr>\<rparr>)"

definition SetRetryableError :: "gerror option \<Rightarrow> 'o Details \<Rightarrow> 'o Details \<times> ('o \<times> snapshot) list" where
  "SetRetryableError e d = notifying (d\<lparr>DMetadata := (DMetadata d)\<lparr>RetryErrorMsg :=
     (case e of None \<Rightarrow> [] | Some msg \<Rightarrow> msg)\<rparr>\<rparr>)"

definition SetRetryUntil :: "gtime option \<Rightarrow> 'o Details \<Rightarrow> 'o Details \<times> ('o \<times> snapshot) list" where
  "SetRetryUntil t d = notifying (d\<lparr>DMetadata := (DMetadata d)\<lparr>RetryUntil := t\<rparr>\<rparr>)"

definition Fail :: "gerror \<Rightarrow> 'o Details \<Rightarrow> 'o Details \<times> ('o \<times> snapshot) list" where
  "Fail e d = (let m = (if DState d \<noteq> StateFailed then (DMetadata d)\<lparr>FailedState := DState d\<rparr> else DMetadata d)
     in notifying (d\<lparr>DMetadata := m\<lparr>ErrorMsg := e\<rparr>, DState := StateFailed\<rparr>))"

section \<open>Comparison\<close>

definition Metadata_Equals :: "Metadata \<Rightarrow> Metadata \<Rightarrow> bool" where
  "Metadata_Equals m n \<longleftrightarrow> ScheduledAt m = ScheduledAt n \<and> FailedState m = FailedState n \<and> ErrorMsg m = ErrorMsg n
     \<and> f64_eq (DownloadPercent m) (DownloadPercent n) \<and> f64_eq (DownloadRate m) (DownloadRate n)
     \<and> RetryUntil m = RetryUntil n \<and> RetryErrorMsg m = RetryErrorMsg n \<and> Reason m = Reason n"

definition Details_Equals :: "bool \<Rightarrow> 'o Details option \<Rightarrow> 'o Details option \<Rightarrow> bool" where
  "Details_Equals same_pointer d d' = (case (d, d') of
       (None, None) \<Rightarrow> True
     | (Some a, Some b) \<Rightarrow> same_pointer \<or> (DState a = DState b \<and> TargetVersion a = TargetVersion b
         \<and> DActionID a = DActionID b \<and> Metadata_Equals (DMetadata a) (DMetadata b))
     | _ \<Rightarrow> False)"

section \<open>Upgrades step by step\<close>

text \<open>The setters in any order. As documented, \<^verbatim>\<open>SetState\<close> is not called with the failed state.\<close>

inductive details_run :: "'o Details \<Rightarrow> ('o \<times> snapshot) list \<Rightarrow> bool" where
  run_New: "s \<noteq> StateFailed \<Longrightarrow> details_run (NewDetails v s i) []"
| run_Register: "details_run d ns \<Longrightarrow> RegisterObserver ob d = (d', ms) \<Longrightarrow> details_run d' (ns @ ms)"
| run_SetState: "details_run d ns \<Longrightarrow> s \<noteq> StateFailed \<Longrightarrow> SetState s d = (d', ms) \<Longrightarrow> details_run d' (ns @ ms)"
| run_SetStateWithReason: "details_run d ns \<Longrightarrow> s \<noteq> StateFailed \<Longrightarrow> SetStateWithReason s r d = (d', ms) \<Longrightarrow> details_run d' (ns @ ms)"
| run_SetDownloadProgress: "details_run d ns \<Longrightarrow> SetDownloadProgress p q d = (d', ms) \<Longrightarrow> details_run d' (ns @ ms)"
| run_SetRetryableError: "details_run d ns \<Longrightarrow> SetRetryableError e d = (d', ms) \<Longrightarrow> details_run d' (ns @ ms)"
| run_SetRetryUntil: "details_run d ns \<Longrightarrow> SetRetryUntil t d = (d', ms) \<Longrightarrow> details_run d' (ns @ ms)"
| run_Fail: "details_run d ns \<Longrightarrow> Fail msg d = (d', ms) \<Longrightarrow> details_run d' (ns @ ms)"

lemmas details_setters = RegisterObserver_def SetState_def SetStateWithReason_def SetDownloadProgress_def
  SetRetryableError_def SetRetryUntil_def Fail_def notifying_def NewDetails_def zero_Metadata_def clear_failure_def Let_def

text \<open>What a failure leaves behind, and that the rate is a number.\<close>

definition details_ok :: "'o Details \<Rightarrow> bool" where
  "details_ok d \<longleftrightarrow> (DState d \<noteq> StateFailed \<longrightarrow> ErrorMsg (DMetadata d) = [] \<and> FailedState (DMetadata d) = [])
     \<and> FailedState (DMetadata d) \<noteq> StateFailed \<and> (\<exists>s r. DownloadRate (DMetadata d) = Fin s r)"

lemma details_run_ok: "details_run d ns \<Longrightarrow> details_ok d"
  by (induction rule: details_run.induct) (auto simp: details_setters details_ok_def split: if_splits f64.splits)

text \<open>The last thing each observer was told.\<close>

definition last_told :: "'o \<Rightarrow> ('o \<times> snapshot) list \<Rightarrow> snapshot option" where
  "last_told ob ns = map_of (rev ns) ob"

lemma map_of_notify: "ob \<in> set obs \<Longrightarrow> map_of (map (notifyObserver d) obs) ob = Some (snd (notifyObserver d ob))"
  by (induction obs) (auto simp: notifyObserver_def)

lemma last_told_notify:
  "ob \<in> set (observers d) \<Longrightarrow> last_told ob (ns @ notifyObservers d) = Some (snd (notifyObserver d ob))"
  using map_of_notify[of ob "rev (observers d)" d] by (simp add: last_told_def notifyObservers_def rev_map)

lemma details_run_told: "details_run d ns \<Longrightarrow> ob \<in> set (observers d) \<Longrightarrow> last_told ob ns = Some (snd (notifyObserver d ob))"
proof (induction rule: details_run.induct)
  case (run_Register d ns ob' d' ms)
  then show ?case
    by (auto simp: RegisterObserver_def Let_def last_told_def notifyObserver_def)
next
  case (run_New s v i)
  then show ?case by (simp add: NewDetails_def)
qed (auto simp: last_told_notify details_setters split: if_splits)



end
