(* ===== verification/Dispatcher.thy ===== *)
theory Dispatcher
  imports Action_Queue Upgrade_Details
begin

text \<open>
  The action dispatcher, \<^verbatim>\<open>dispatcher.go\<close> and \<^verbatim>\<open>retryconfig.go\<close> of
  \<^verbatim>\<open>internal/pkg/agent/application/dispatcher\<close>. The queue is reached through the interface
  \<^verbatim>\<open>priorityQueue\<close>, a record of methods. Handlers, the acker, the clock and the context are parameters: a
  handler may change the queue and the rest of the world, of which the acker is a part. What the
  dispatcher sends on its error channel and to the details observer is recorded in order. A result
  of None is a panic of the queue.
\<close>

section \<open>Waiting times\<close>

definition minute_ns :: duration where
  "minute_ns = 60 * second_ns"

definition defaultRetryConfig :: "duration list" where
  "defaultRetryConfig = [minute_ns, 5 * minute_ns, 10 * minute_ns, 15 * minute_ns, 30 * minute_ns, 60 * minute_ns]"

definition GetWait :: "duration list \<Rightarrow> int \<Rightarrow> duration option" where
  "GetWait steps k = (if k < 0 \<or> int (length steps) \<le> k then None else Some (steps ! nat k))"

section \<open>Handlers\<close>

datatype action_key = KUpgrade | KRestart | KUnknown | KPolicyReassign | KPolicyChange | KUnenroll | KSettings
  | KMigrate | KCancel | KDiagnostics | KApp | KPrivilegeLevelChange

fun key_of_action :: "action \<Rightarrow> action_key" where
  "key_of_action (Scheduled (Upgrade _)) = KUpgrade"
| "key_of_action (Scheduled (Restart _)) = KRestart"
| "key_of_action (Unknown _) = KUnknown"
| "key_of_action (PolicyReassign _) = KPolicyReassign"
| "key_of_action (PolicyChange _) = KPolicyChange"
| "key_of_action (Unenroll _) = KUnenroll"
| "key_of_action (Settings _) = KSettings"
| "key_of_action (Migrate _) = KMigrate"
| "key_of_action (Cancel _) = KCancel"
| "key_of_action (Diagnostics _) = KDiagnostics"
| "key_of_action (App _) = KApp"
| "key_of_action (PrivilegeLevelChange _) = KPrivilegeLevelChange"

type_synonym ('q, 'w) handler = "action \<Rightarrow> 'q \<times> 'w \<Rightarrow> gerror option \<times> 'q \<times> 'w"

record 'w acker =
  ackerAck :: "action \<Rightarrow> 'w \<Rightarrow> gerror option \<times> 'w"
  ackerCommit :: "'w \<Rightarrow> gerror option \<times> 'w"

record ('q, 'w) ActionDispatcher =
  handlers :: "(action_key \<times> ('q, 'w) handler) list"
  def_handler :: "('q, 'w) handler"
  pqueue :: "'q priorityQueue"
  rt :: "duration list"

definition NewDispatcher :: "('q, 'w) handler option \<Rightarrow> 'q priorityQueue \<Rightarrow> gerror + ('q, 'w) ActionDispatcher" where
  "NewDispatcher d Q = (case d of
       None \<Rightarrow> Inl ''missing default handler''
     | Some h \<Rightarrow> Inr \<lparr>handlers = [], def_handler = h, pqueue = Q, rt = defaultRetryConfig\<rparr>)"

definition Register :: "action \<Rightarrow> ('q, 'w) handler \<Rightarrow> ('q, 'w) ActionDispatcher \<Rightarrow> gerror + ('q, 'w) ActionDispatcher" where
  "Register a h ad = (if map_of (handlers ad) (key_of_action a) \<noteq> None then Inl ''already registered''
     else Inr (ad\<lparr>handlers := (key_of_action a, h) # handlers ad\<rparr>))"

section \<open>The state of a dispatch\<close>

record ('q, 'w) denv =
  api :: api_types
  disp :: "('q, 'w) ActionDispatcher"
  ack :: "'w acker"
  quote :: "string \<Rightarrow> string"
  now :: gtime
  dequeueNow :: gtime
  retryNow :: "nat \<Rightarrow> gtime"
  ctxErr :: "nat \<Rightarrow> gerror option"

record ('q, 'w) dstate =
  dqueue :: 'q
  world :: 'w
  needUpdate :: bool
  lastDetails :: "unit Details option"
  lastDetailsSet :: bool
  detailsSent :: "unit Details option list"
  errCh :: "gerror option list"

abbreviation queue_of :: "('q, 'w) denv \<Rightarrow> 'q priorityQueue" where
  "queue_of e \<equiv> pqueue (disp e)"

definition dispatchAction :: "('q, 'w) denv \<Rightarrow> action \<Rightarrow> ('q, 'w) dstate \<Rightarrow> gerror option \<times> ('q, 'w) dstate" where
  "dispatchAction e a st =
     (case (case map_of (handlers (disp e)) (key_of_action a) of None \<Rightarrow> def_handler (disp e) | Some h \<Rightarrow> h) a
         (dqueue st, world st) of
       (err, q, w) \<Rightarrow> (err, st\<lparr>dqueue := q, world := w\<rparr>))"

text \<open>The first upgrade of the gateway stays and displaces every queued one; further upgrades are dropped.\<close>

fun compactAndRemoveQueuedUpgrades ::
  "('q, 'w) denv \<Rightarrow> bool \<Rightarrow> action list \<Rightarrow> ('q, 'w) dstate \<Rightarrow> (action list \<times> ('q, 'w) dstate) option" where
  "compactAndRemoveQueuedUpgrades e found [] st = Some ([], st)"
| "compactAndRemoveQueuedUpgrades e found (a # as) st =
     (if action_Type a = UPGRADE (api e)
      then if found then compactAndRemoveQueuedUpgrades e found as st
        else (case pqCancelType (queue_of e) (UPGRADE (api e)) (dqueue st) of
            None \<Rightarrow> None
          | Some (n, q) \<Rightarrow> map_option (apfst ((#) a)) (compactAndRemoveQueuedUpgrades e True as
              (st\<lparr>dqueue := q, needUpdate := (needUpdate st \<or> n > 0)\<rparr>)))
      else map_option (apfst ((#) a)) (compactAndRemoveQueuedUpgrades e found as st))"

definition is_upgrade_action :: "scheduled_action \<Rightarrow> bool" where
  "is_upgrade_action a \<longleftrightarrow> (case a of Upgrade _ \<Rightarrow> True | Restart _ \<Rightarrow> False)"

fun queueScheduledActions ::
  "('q, 'w) denv \<Rightarrow> action list \<Rightarrow> ('q, 'w) dstate \<Rightarrow> action list \<times> ('q, 'w) dstate" where
  "queueScheduledActions e [] st = ([], st)"
| "queueScheduledActions e (a # as) st =
     (case a of
       Scheduled s \<Rightarrow> (case StartTime s of
           Inl _ \<Rightarrow> apfst ((#) a) (queueScheduledActions e as st)
         | Inr start \<Rightarrow> queueScheduledActions e as (st\<lparr>dqueue := pqAdd (queue_of e) s (unix start) (dqueue st),
             needUpdate := (needUpdate st \<or> is_upgrade_action s)\<rparr>))
     | _ \<Rightarrow> apfst ((#) a) (queueScheduledActions e as st))"

definition queuedUpgradeActions :: "('q, 'w) denv \<Rightarrow> ('q, 'w) dstate \<Rightarrow> string list" where
  "queuedUpgradeActions e st = map scheduled_ID (filter is_upgrade_action (pqActions (queue_of e) (dqueue st)))"

text \<open>The cancel actions are run from the last to the first.\<close>

fun cancel_loop :: "('q, 'w) denv \<Rightarrow> string list \<Rightarrow> action list \<Rightarrow> ('q, 'w) dstate \<Rightarrow> ('q, 'w) dstate" where
  "cancel_loop e queued [] st = st"
| "cancel_loop e queued (a # as) st = (let st' = cancel_loop e queued as st in
     case a of
       Cancel c \<Rightarrow> (case dispatchAction e a st' of
           (_, st'') \<Rightarrow> st''\<lparr>needUpdate := (needUpdate st'' \<or> TargetID c \<in> set queued)\<rparr>)
     | _ \<Rightarrow> st')"

definition is_cancel :: "action \<Rightarrow> bool" where
  "is_cancel a \<longleftrightarrow> (case a of Cancel _ \<Rightarrow> True | _ \<Rightarrow> False)"

definition dispatchCancelActions ::
  "('q, 'w) denv \<Rightarrow> action list \<Rightarrow> ('q, 'w) dstate \<Rightarrow> action list \<times> ('q, 'w) dstate" where
  "dispatchCancelActions e as st =
     (filter (\<lambda>a. \<not> is_cancel a) as, cancel_loop e (queuedUpgradeActions e st) as st)"

text \<open>What becomes of a dequeued action: dispatched, dropped, or expired.\<close>

datatype fate = Dispatched | Dropped | Expired

definition fate_of :: "gtime \<Rightarrow> scheduled_action \<Rightarrow> fate" where
  "fate_of ts a = (case Expiration a of
       Inl err \<Rightarrow> if err = ErrNoExpiration then Dispatched else Dropped
     | Inr expiry \<Rightarrow> if expiry < ts then Expired else Dispatched)"

text \<open>Expired upgrades go back to the queue; an upgrade without a start time is lost with a warning.\<close>

fun requeue_expired :: "('q, 'w) denv \<Rightarrow> scheduled_action list \<Rightarrow> ('q, 'w) dstate \<Rightarrow> ('q, 'w) dstate" where
  "requeue_expired e [] st = st"
| "requeue_expired e (a # as) st = requeue_expired e as (case StartTime a of
       Inl _ \<Rightarrow> st
     | Inr start \<Rightarrow> st\<lparr>dqueue := pqAdd (queue_of e) a (unix start) (dqueue st)\<rparr>)"

definition mergeWithQueuedActions ::
  "('q, 'w) denv \<Rightarrow> action list \<Rightarrow> ('q, 'w) dstate \<Rightarrow> action list \<times> ('q, 'w) dstate" where
  "mergeWithQueuedActions e as st = (case pqDequeueActions (queue_of e) (unix (dequeueNow e)) (dqueue st) of
     (dequeued, q) \<Rightarrow>
       let expired = filter (\<lambda>a. fate_of (now e) a = Expired \<and> scheduled_Type a = UPGRADE (api e)) dequeued;
           actions = as @ map Scheduled (filter (\<lambda>a. fate_of (now e) a = Dispatched) dequeued);
           st' = requeue_expired e expired (st\<lparr>dqueue := q\<rparr>)
       in (actions, st'\<lparr>needUpdate := (needUpdate st' \<or> expired \<noteq> []
            \<or> list_ex (\<lambda>a. action_Type a = UPGRADE (api e)) actions)\<rparr>))"

section \<open>Upgrade details\<close>

text \<open>The next upgrade with its start time, and the zero time when it does not expire.\<close>

fun next_upgrade :: "(ActionUpgrade \<times> gtime \<times> gtime) option \<Rightarrow> scheduled_action list \<Rightarrow> (ActionUpgrade \<times> gtime \<times> gtime) option" where
  "next_upgrade best [] = best"
| "next_upgrade best (Restart _ # as) = next_upgrade best as"
| "next_upgrade best (Upgrade u # as) = (case StartTime (Upgrade u) of
       Inl _ \<Rightarrow> next_upgrade best as
     | Inr start \<Rightarrow> (case (case Expiration (Upgrade u) of
           Inr expiry \<Rightarrow> Some expiry
         | Inl err \<Rightarrow> if err = ErrNoExpiration then Some zero_time else None) of
           None \<Rightarrow> next_upgrade best as
         | Some expiry \<Rightarrow> next_upgrade (case best of
               None \<Rightarrow> Some (u, start, expiry)
             | Some (_, s, _) \<Rightarrow> if start \<le> s then Some (u, start, expiry) else best) as))"

definition GetScheduledUpgradeDetails :: "(string \<Rightarrow> string) \<Rightarrow> scheduled_action list \<Rightarrow> gtime \<Rightarrow> unit Details option" where
  "GetScheduledUpgradeDetails qt actions ts = (case next_upgrade None actions of
       None \<Rightarrow> None
     | Some (u, start, expiry) \<Rightarrow>
         if expiry \<noteq> zero_time \<and> expiry < ts
         then Some (fst (Fail (''upgrade action '' @ qt (ActionID u) @ '' expired on '' @ ActionExpiration u)
           (NewDetails (Version u) StateFailed (ActionID u))))
         else let d = NewDetails (Version u) StateScheduled (ActionID u);
                  m = (DMetadata d)\<lparr>ScheduledAt := Some start\<rparr>
           in Some (d\<lparr>DMetadata := (case GetError u of
                None \<Rightarrow> m
              | Some err \<Rightarrow> m\<lparr>ErrorMsg := ''A prior dispatch attempt failed with: '' @ err\<rparr>)\<rparr>))"

definition updateUpgradeDetails :: "('q, 'w) denv \<Rightarrow> ('q, 'w) dstate \<Rightarrow> ('q, 'w) dstate" where
  "updateUpgradeDetails e st =
     (let d = GetScheduledUpgradeDetails (quote e) (pqActions (queue_of e) (dqueue st)) (now e) in
      if lastDetailsSet st \<and> Details_Equals False (lastDetails st) d then st
      else st\<lparr>lastDetailsSet := True, lastDetails := d, detailsSent := detailsSent st @ [d]\<rparr>)"

section \<open>Retries\<close>

definition ack_and_commit :: "('q, 'w) denv \<Rightarrow> action \<Rightarrow> ('q, 'w) dstate \<Rightarrow> ('q, 'w) dstate" where
  "ack_and_commit e a st = (case ackerAck (ack e) a (world st) of
       (Some _, w) \<Rightarrow> st\<lparr>world := w\<rparr>
     | (None, w) \<Rightarrow> st\<lparr>world := snd (ackerCommit (ack e) w)\<rparr>)"

definition scheduleRetry :: "('q, 'w) denv \<Rightarrow> gtime \<Rightarrow> ActionUpgrade \<Rightarrow> ('q, 'w) dstate \<Rightarrow> ('q, 'w) dstate" where
  "scheduleRetry e t u st = (let attempt = RetryAttempt u in
     case GetWait (rt (disp e)) attempt of
       None \<Rightarrow> ack_and_commit e (Scheduled (Upgrade (SetRetryAttempt (- 1) u))) st
     | Some d \<Rightarrow>
         let startTime = t + d;
             u' = SetStartTime startTime (SetRetryAttempt (attempt + 1) u);
             q = snd (pqSave (queue_of e) (pqAdd (queue_of e) (Upgrade u') (unix startTime) (dqueue st)))
         in ack_and_commit e (Scheduled (Upgrade u')) (st\<lparr>dqueue := q,
              needUpdate := (needUpdate st \<or> ActionType u = UPGRADE (api e))\<rparr>))"

section \<open>Dispatching\<close>

text \<open>The loop over the actions: Inl is the early return on a cancelled context.\<close>

fun dispatch_loop :: "('q, 'w) denv \<Rightarrow> nat \<Rightarrow> action list \<Rightarrow> gerror option \<Rightarrow> ('q, 'w) dstate
    \<Rightarrow> ('q, 'w) dstate + gerror option \<times> ('q, 'w) dstate" where
  "dispatch_loop e i [] rep st = Inr (rep, st)"
| "dispatch_loop e i (a # as) rep st = (case ctxErr e i of
       Some err \<Rightarrow> Inl (st\<lparr>errCh := errCh st @ [Some err]\<rparr>)
     | None \<Rightarrow> (case dispatchAction e a st of
           (None, st') \<Rightarrow> dispatch_loop e (i + 1) as rep st'
         | (Some err, st') \<Rightarrow> (case a of
               Scheduled (Upgrade u) \<Rightarrow>
                 dispatch_loop e (i + 1) as rep (scheduleRetry e (retryNow e i) (SetError (Some err) u) st')
             | _ \<Rightarrow> dispatch_loop e (i + 1) as (Some err) st')))"

definition finish_dispatch :: "('q, 'w) denv \<Rightarrow> gerror option \<Rightarrow> ('q, 'w) dstate \<Rightarrow> ('q, 'w) dstate" where
  "finish_dispatch e rep st = (case ackerCommit (ack e) (world st) of
     (err, w) \<Rightarrow>
       let rep' = (case err of None \<Rightarrow> rep | Some _ \<Rightarrow> err);
           st' = st\<lparr>world := w\<rparr>;
           st'' = (if needUpdate st' then updateUpgradeDetails e st' else st')
       in st''\<lparr>errCh := errCh st'' @ [rep']\<rparr>)"

text \<open>What happens to the actions of the gateway before any but the cancel actions is run.\<close>

definition prepare :: "('q, 'w) denv \<Rightarrow> action list \<Rightarrow> ('q, 'w) dstate \<Rightarrow> (action list \<times> ('q, 'w) dstate) option" where
  "prepare e as st =
     (case compactAndRemoveQueuedUpgrades e False as (st\<lparr>needUpdate := False\<rparr>) of
        None \<Rightarrow> None
      | Some (as1, st1) \<Rightarrow> (case queueScheduledActions e as1 st1 of (as2, st2) \<Rightarrow>
          (case dispatchCancelActions e as2 st2 of (as3, st3) \<Rightarrow>
             Some (mergeWithQueuedActions e as3 st3))))"

definition persist :: "('q, 'w) denv \<Rightarrow> ('q, 'w) dstate \<Rightarrow> ('q, 'w) dstate" where
  "persist e st = (let st' = (if needUpdate st then updateUpgradeDetails e (st\<lparr>needUpdate := False\<rparr>) else st) in
     st'\<lparr>dqueue := snd (pqSave (queue_of e) (dqueue st'))\<rparr>)"

definition Dispatch :: "('q, 'w) denv \<Rightarrow> action list \<Rightarrow> ('q, 'w) dstate \<Rightarrow> ('q, 'w) dstate option" where
  "Dispatch e as st = (case prepare e as st of
       None \<Rightarrow> None
     | Some (as', st') \<Rightarrow>
         let st'' = persist e st' in
         if as' = [] then Some st''
         else Some (case dispatch_loop e 0 as' None st'' of
             Inl s \<Rightarrow> s
           | Inr (rep, s) \<Rightarrow> finish_dispatch e rep s))"

end
