(* ===== verification/Dispatcher_Props.thy ===== *)
theory Dispatcher_Props
  imports Dispatcher
begin

text \<open>
  Correctness of the dispatcher, proved once for every priority queue that keeps the contract, and
  then read off for the action queue: a dispatch never leaves more than one upgrade waiting, what is
  due is run, retries end, and the queue survives a restart.
\<close>

section \<open>Counting upgrades\<close>

definition upgrades_in :: "string \<Rightarrow> action list \<Rightarrow> nat" where
  "upgrades_in u as = length (filter (\<lambda>a. action_Type a = u) as)"

definition upgrades_queued :: "string \<Rightarrow> timed_action multiset \<Rightarrow> nat" where
  "upgrades_queued u M = size (filter_mset (of_type u) M)"

text \<open>Every action is queued at the start time it carries.\<close>

definition stamped :: "timed_action multiset \<Rightarrow> bool" where
  "stamped M \<longleftrightarrow> (\<forall>(a, p) \<in># M. \<exists>t. StartTime a = Inr t \<and> p = unix t)"

lemma upgrades_in_simps [simp]:
  "upgrades_in u [] = 0"
  "upgrades_in u (a # as) = (if action_Type a = u then 1 else 0) + upgrades_in u as"
  "upgrades_in u (as @ bs) = upgrades_in u as + upgrades_in u bs"
  by (simp_all add: upgrades_in_def)

lemma upgrades_in_scheduled: "upgrades_in u (map Scheduled (map fst xs)) = upgrades_queued u (mset xs)"
  by (induction xs) (auto simp: upgrades_queued_def of_type_def)

lemma upgrades_queued_add [simp]:
  "upgrades_queued u {#} = 0"
  "upgrades_queued u (add_mset x M) = (if of_type u x then 1 else 0) + upgrades_queued u M"
  "upgrades_queued u (M + N) = upgrades_queued u M + upgrades_queued u N"
  by (simp_all add: upgrades_queued_def)

lemma upgrades_queued_mono: "M \<subseteq># N \<Longrightarrow> upgrades_queued u M \<le> upgrades_queued u N"
  unfolding upgrades_queued_def by (intro size_mset_mono multiset_filter_mono)

lemma stamped_simps [simp]:
  "stamped {#}" "stamped (add_mset (a, p) M) \<longleftrightarrow> (\<exists>t. StartTime a = Inr t \<and> p = unix t) \<and> stamped M"
  by (auto simp: stamped_def)

lemma stamped_mono: "stamped N \<Longrightarrow> M \<subseteq># N \<Longrightarrow> stamped M"
  unfolding stamped_def by (meson mset_subset_eqD)

section \<open>Over any queue that keeps the contract\<close>

context priority_queue
begin

text \<open>The dispatcher runs on this queue, and no handler adds to the queue.\<close>

definition serves :: "('q, 'w) denv \<Rightarrow> bool" where
  "serves e \<longleftrightarrow> queue_of e = Q \<and> (\<forall>h \<in> insert (def_handler (disp e)) (snd ` set (handlers (disp e))).
     \<forall>a q w err q' w'. ok q \<and> h a (q, w) = (err, q', w') \<longrightarrow> ok q' \<and> pending q' \<subseteq># pending q)"

text \<open>The clock at retries stays within the years that have four digits.\<close>

definition sane_clock :: "('q, 'w) denv \<Rightarrow> bool" where
  "sane_clock e \<longleftrightarrow> (\<forall>i. \<forall>d\<in>set (rt (disp e)). four_digit_year (retryNow e i + d))"

definition sound :: "('q, 'w) denv \<Rightarrow> nat \<Rightarrow> action list \<Rightarrow> ('q, 'w) dstate \<Rightarrow> bool" where
  "sound e n as st \<longleftrightarrow> ok (dqueue st) \<and> stamped (pending (dqueue st))
     \<and> upgrades_queued (UPGRADE (api e)) (pending (dqueue st)) + upgrades_in (UPGRADE (api e)) as \<le> n"

lemma sound_queue:
  assumes "sound e n as st" "ok (dqueue st')" "pending (dqueue st') \<subseteq># pending (dqueue st)"
    and "upgrades_in (UPGRADE (api e)) as' \<le> upgrades_in (UPGRADE (api e)) as"
  shows "sound e n as' st'"
  using assms stamped_mono upgrades_queued_mono[OF assms(3), of "UPGRADE (api e)"]
  unfolding sound_def by fastforce

lemma dispatchAction_queue:
  assumes "serves e" "ok (dqueue st)" "dispatchAction e a st = (err, st')"
  shows "ok (dqueue st') \<and> pending (dqueue st') \<subseteq># pending (dqueue st)"
proof -
  define h where "h = (case map_of (handlers (disp e)) (key_of_action a) of None \<Rightarrow> def_handler (disp e) | Some h \<Rightarrow> h)"
  obtain q w where r: "h a (dqueue st, world st) = (err, q, w)" "st' = st\<lparr>dqueue := q, world := w\<rparr>"
    using assms(3) unfolding dispatchAction_def h_def[symmetric] by (auto split: prod.splits)
  have "h \<in> insert (def_handler (disp e)) (snd ` set (handlers (disp e)))"
  proof (cases "map_of (handlers (disp e)) (key_of_action a)")
    case (Some g)
    then show ?thesis using map_of_SomeD[OF Some] by (force simp: h_def)
  qed (simp add: h_def)
  then have "ok q \<and> pending q \<subseteq># pending (dqueue st)"
    using assms(1,2) r(1) unfolding serves_def by blast
  then show ?thesis by (simp add: r(2))
qed

subsection \<open>The phases\<close>

lemma compact_keeps:
  assumes "queue_of e = Q" "ok (dqueue st)" "stamped (pending (dqueue st))"
  shows "\<exists>as' st'. compactAndRemoveQueuedUpgrades e True as st = Some (as', st')
    \<and> st' = st \<and> upgrades_in (UPGRADE (api e)) as' = 0"
  by (induction as) auto

lemma compact_sound:
  assumes "queue_of e = Q" "sound e 1 [] st"
  shows "\<exists>as' st'. compactAndRemoveQueuedUpgrades e False as st = Some (as', st') \<and> sound e 1 as' st'"
  using assms(2)
proof (induction as)
  case Nil
  then show ?case by simp
next
  case (Cons a as)
  show ?case
  proof (cases "action_Type a = UPGRADE (api e)")
    case False
    then show ?thesis using Cons by (auto simp: sound_def)
  next
    case True
    let ?u = "UPGRADE (api e)"
    obtain q where q: "pqCancelType Q ?u (dqueue st) = Some (size (filter_mset (of_type ?u) (pending (dqueue st))), q)"
      "ok q" "pending q = filter_mset (\<lambda>x. \<not> of_type ?u x) (pending (dqueue st))"
      using CancelType[of "dqueue st" ?u] Cons.prems by (auto simp: sound_def)
    have st: "stamped (pending q)" "upgrades_queued ?u (pending q) = 0"
      using Cons.prems stamped_mono[of "pending (dqueue st)" "pending q"]
      by (auto simp: sound_def q(3) upgrades_queued_def filter_filter_mset)
    let ?st = "st\<lparr>dqueue := q, needUpdate := (needUpdate st \<or> size (filter_mset (of_type ?u) (pending (dqueue st))) > 0)\<rparr>"
    obtain as' where "compactAndRemoveQueuedUpgrades e True as ?st = Some (as', ?st)" "upgrades_in ?u as' = 0"
      using compact_keeps[of e ?st as] assms(1) q(2) st(1) by auto
    then show ?thesis
      using True q st assms(1) by (auto simp: sound_def)
  qed
qed

lemma queue_counts:
  assumes "queue_of e = Q" "ok (dqueue st)" "stamped (pending (dqueue st))" "queueScheduledActions e as st = (as', st')"
  shows "ok (dqueue st') \<and> stamped (pending (dqueue st'))
    \<and> upgrades_queued u (pending (dqueue st')) + upgrades_in u as' = upgrades_queued u (pending (dqueue st)) + upgrades_in u as"
  using assms(2-4)
proof (induction as arbitrary: st as')
  case (Cons a as)
  show ?case
  proof (cases "\<exists>s t. a = Scheduled s \<and> StartTime s = Inr t")
    case True
    then obtain s t where s: "a = Scheduled s" "StartTime s = Inr t" by blast
    let ?st = "st\<lparr>dqueue := pqAdd Q s (unix t) (dqueue st), needUpdate := (needUpdate st \<or> is_upgrade_action s)\<rparr>"
    have "queueScheduledActions e as ?st = (as', st')"
      using Cons.prems(3) s assms(1) by simp
    from Cons.IH[OF _ _ this] show ?thesis
      using Cons.prems Add[of "dqueue st" s "unix t"] s by (simp add: of_type_def)
  next
    case False
    then have "queueScheduledActions e (a # as) st = apfst ((#) a) (queueScheduledActions e as st)"
      by (auto split: action.splits sum.splits)
    then obtain bs where "queueScheduledActions e as st = (bs, st')" "as' = a # bs"
      using Cons.prems(3) by (cases "queueScheduledActions e as st") auto
    with Cons.IH[of st bs] Cons.prems show ?thesis by auto
  qed
qed simp

lemma cancel_loop_queue:
  assumes "serves e" "ok (dqueue st)"
  shows "ok (dqueue (cancel_loop e ids as st)) \<and> pending (dqueue (cancel_loop e ids as st)) \<subseteq># pending (dqueue st)"
proof (induction as)
  case (Cons a as)
  define st' where "st' = cancel_loop e ids as st"
  obtain err st'' where d: "dispatchAction e a st' = (err, st'')" by fastforce
  have "ok (dqueue st'') \<and> pending (dqueue st'') \<subseteq># pending (dqueue st)"
    using dispatchAction_queue[OF assms(1) _ d] Cons by (auto simp: st'_def dest: subset_mset.trans)
  then show ?case
    using Cons d by (cases a) (auto simp: Let_def simp flip: st'_def)
qed (use assms in simp)

lemma upgrades_in_filter: "upgrades_in u (filter P as) \<le> upgrades_in u as"
  by (induction as) auto

lemma cancel_sound:
  assumes "serves e" "sound e n as st" "dispatchCancelActions e as st = (as', st')"
  shows "sound e n as' st'"
proof -
  have as': "as' = filter (\<lambda>a. \<not> is_cancel a) as" "st' = cancel_loop e (queuedUpgradeActions e st) as st"
    using assms(3) by (simp_all add: dispatchCancelActions_def)
  show ?thesis
    unfolding as' using assms(2) cancel_loop_queue[OF assms(1)] upgrades_in_filter
    by (intro sound_queue[OF assms(2)]) (auto simp: sound_def)
qed

lemma requeue_counts:
  assumes "queue_of e = Q" "ok (dqueue st)" "stamped (pending (dqueue st))"
  shows "ok (dqueue (requeue_expired e as st)) \<and> stamped (pending (dqueue (requeue_expired e as st)))
    \<and> upgrades_queued u (pending (dqueue (requeue_expired e as st)))
        \<le> upgrades_queued u (pending (dqueue st)) + upgrades_in u (map Scheduled as)"
  using assms(2,3)
proof (induction as arbitrary: st)
  case (Cons a as)
  show ?case
  proof (cases "StartTime a")
    case (Inl err)
    with Cons.IH[of st] Cons.prems show ?thesis by auto
  next
    case (Inr t)
    let ?st = "st\<lparr>dqueue := pqAdd Q a (unix t) (dqueue st)\<rparr>"
    have "ok (dqueue ?st) \<and> stamped (pending (dqueue ?st))"
      using Cons.prems Add[of "dqueue st" a "unix t"] Inr by auto
    with Cons.IH[of ?st] Cons.prems Add[of "dqueue st" a "unix t"] Inr assms(1) show ?thesis
      by (auto simp: of_type_def)
  qed
qed simp

lemma fates_disjoint:
  "upgrades_in u (map Scheduled (filter (\<lambda>a. fate_of ts a = Dispatched) as))
   + upgrades_in u (map Scheduled (filter (\<lambda>a. fate_of ts a = Expired \<and> P a) as)) \<le> upgrades_in u (map Scheduled as)"
  by (induction as) auto

lemma filter_mset_split: "upgrades_queued u (filter_mset P M) + upgrades_queued u (filter_mset (\<lambda>x. \<not> P x) M) = upgrades_queued u M"
  by (metis multiset_partition upgrades_queued_add(3))

lemma merge_sound:
  assumes "queue_of e = Q" "sound e n as st" "mergeWithQueuedActions e as st = (as', st')"
  shows "sound e n as' st'"
proof -
  let ?u = "UPGRADE (api e)" and ?ts = "unix (dequeueNow e)"
  obtain ds q where d: "pqDequeueActions Q ?ts (dqueue st) = (ds, q)" by fastforce
  obtain xs where xs: "ok q" "pending q = filter_mset (\<lambda>x. \<not> due ?ts x) (pending (dqueue st))" "ds = map fst xs"
    "mset xs = filter_mset (due ?ts) (pending (dqueue st))"
    using Dequeue[OF _ d] assms(2) by (auto simp: sound_def)
  define expired where "expired = filter (\<lambda>a. fate_of (now e) a = Expired \<and> scheduled_Type a = ?u) ds"
  have st': "dqueue st' = dqueue (requeue_expired e expired (st\<lparr>dqueue := q\<rparr>))"
    and as': "as' = as @ map Scheduled (filter (\<lambda>a. fate_of (now e) a = Dispatched) ds)"
    using assms(1,3) d by (auto simp: mergeWithQueuedActions_def Let_def expired_def)
  have "stamped (pending q)"
    using assms(2) stamped_mono[of "pending (dqueue st)" "pending q"] by (simp add: sound_def xs(2))
  then have r: "ok (dqueue st')" "stamped (pending (dqueue st'))"
    "upgrades_queued ?u (pending (dqueue st')) \<le> upgrades_queued ?u (pending q) + upgrades_in ?u (map Scheduled expired)"
    using requeue_counts[of e "st\<lparr>dqueue := q\<rparr>" expired ?u] assms(1) xs(1) by (simp_all add: st')
  have "upgrades_in ?u (map Scheduled ds) + upgrades_queued ?u (pending q) = upgrades_queued ?u (pending (dqueue st))"
    using filter_mset_split[of ?u "due ?ts" "pending (dqueue st)"]
    by (simp add: xs(2,3) upgrades_in_scheduled xs(4) del: map_map)
  then show ?thesis
    using r assms(2) fates_disjoint[of ?u "now e" ds "\<lambda>a. scheduled_Type a = ?u"]
    by (simp add: sound_def as' expired_def)
qed

lemma dqueue_updateUpgradeDetails [simp]: "dqueue (updateUpgradeDetails e st) = dqueue st"
  by (simp add: updateUpgradeDetails_def Let_def)

lemma dqueue_ack_and_commit [simp]: "dqueue (ack_and_commit e a st) = dqueue st"
  by (simp add: ack_and_commit_def split: prod.split option.split)

lemma persist_sound:
  assumes "queue_of e = Q" "sound e n as st"
  shows "sound e n as (persist e st)"
proof -
  have "dqueue (persist e st) = snd (pqSave Q (dqueue st))"
    by (simp add: persist_def Let_def assms(1))
  then show ?thesis
    using assms(2) Save[of "dqueue st"] by (simp add: sound_def)
qed

lemma prepare_sound:
  assumes "serves e" "sound e 1 [] st"
  shows "\<exists>as' st'. prepare e as st = Some (as', st') \<and> sound e 1 as' st'"
proof -
  have Q: "queue_of e = Q" using assms(1) by (simp add: serves_def)
  have "sound e 1 [] (st\<lparr>needUpdate := False\<rparr>)"
    using assms(2) by (simp add: sound_def)
  then obtain as1 st1 where 1: "compactAndRemoveQueuedUpgrades e False as (st\<lparr>needUpdate := False\<rparr>) = Some (as1, st1)"
    "sound e 1 as1 st1"
    using compact_sound[OF Q] by blast
  obtain as2 st2 where 2: "queueScheduledActions e as1 st1 = (as2, st2)" by fastforce
  then have s2: "sound e 1 as2 st2"
    using queue_counts[OF Q _ _ 2, of "UPGRADE (api e)"] 1(2) by (auto simp: sound_def)
  obtain as3 st3 where 3: "dispatchCancelActions e as2 st2 = (as3, st3)" by fastforce
  obtain as4 st4 where 4: "mergeWithQueuedActions e as3 st3 = (as4, st4)" by fastforce
  have "prepare e as st = Some (as4, st4)"
    using 1 2 3 4 by (simp add: prepare_def)
  then show ?thesis
    using merge_sound[OF Q cancel_sound[OF assms(1) s2 3] 4] by blast
qed

subsection \<open>The loop\<close>

lemma retry_sound:
  assumes "queue_of e = Q" "sane_clock e" "sound e n (Scheduled (Upgrade u) # as) st"
  shows "sound e n as (scheduleRetry e (retryNow e i) (SetError err u) st)"
proof (cases "GetWait (rt (disp e)) (Retry u)")
  case None
  then show ?thesis
    using assms(3) by (auto simp: scheduleRetry_def RetryAttempt_def SetError_def sound_def)
next
  case (Some d)
  let ?t = "retryNow e i + d"
  define u' where "u' = SetStartTime ?t (SetRetryAttempt (Retry u + 1) (SetError err u))"
  define q where "q = snd (pqSave Q (pqAdd Q (Upgrade u') (unix ?t) (dqueue st)))"
  have "d \<in> set (rt (disp e))"
    using Some by (auto simp: GetWait_def nat_less_iff split: if_splits)
  then have start: "StartTime (Upgrade u') = Inr (unix ?t * second_ns)"
    unfolding u'_def using assms(2) by (intro retry_start_time) (simp add: sane_clock_def)
  have "unix (unix ?t * second_ns) = unix ?t" by (simp add: unix_def second_ns_def)
  moreover have "ActionType u' = ActionType u"
    by (simp add: u'_def SetStartTime_def SetRetryAttempt_def SetError_def)
  ultimately have "sound e n as (st\<lparr>dqueue := q\<rparr>)"
    using assms(3) start Add[of "dqueue st" "Upgrade u'" "unix ?t"]
      Save[of "pqAdd Q (Upgrade u') (unix ?t) (dqueue st)"]
    by (auto simp: sound_def q_def of_type_def simp del: StartTime.simps)
  moreover have "dqueue (scheduleRetry e (retryNow e i) (SetError err u) st) = q"
    using Some assms(1) by (simp add: scheduleRetry_def RetryAttempt_def SetError_def Let_def u'_def q_def)
  ultimately show ?thesis by (simp add: sound_def)
qed

lemma loop_sound:
  assumes "serves e" "sane_clock e" "sound e n as st"
  shows "case dispatch_loop e i as rep st of Inl s \<Rightarrow> sound e n [] s | Inr (r, s) \<Rightarrow> sound e n [] s"
  using assms(3)
proof (induction as arbitrary: i rep st)
  case (Cons a as)
  have Q: "queue_of e = Q" using assms(1) by (simp add: serves_def)
  show ?case
  proof (cases "ctxErr e i")
    case (Some err)
    then show ?thesis using Cons.prems by (auto simp: sound_def)
  next
    case None
    obtain err st' where d: "dispatchAction e a st = (err, st')" by fastforce
    have st': "ok (dqueue st')" "pending (dqueue st') \<subseteq># pending (dqueue st)"
      using dispatchAction_queue[OF assms(1) _ d] Cons.prems by (auto simp: sound_def)
    have all: "sound e n (a # as) st'" and rest: "sound e n as st'"
      using sound_queue[OF Cons.prems st'] by auto
    show ?thesis
    proof (cases "\<exists>u m. a = Scheduled (Upgrade u) \<and> err = Some m")
      case True
      then obtain u m where u: "a = Scheduled (Upgrade u)" "err = Some m" by blast
      have "sound e n as (scheduleRetry e (retryNow e i) (SetError (Some m) u) st')"
        using all unfolding u(1) by (rule retry_sound[OF Q assms(2)])
      from Cons.IH[OF this] show ?thesis using None d u by simp
    next
      case False
      then show ?thesis
        using None d Cons.IH[OF rest] by (auto split: option.split action.split scheduled_action.split)
    qed
  qed
qed simp

lemma Dispatch_sound:
  assumes "serves e" "sane_clock e" "sound e 1 [] st"
  shows "\<exists>st'. Dispatch e as st = Some st' \<and> sound e 1 [] st'"
proof -
  have Q: "queue_of e = Q" using assms(1) by (simp add: serves_def)
  obtain as' st1 where p: "prepare e as st = Some (as', st1)" "sound e 1 as' st1"
    using prepare_sound[OF assms(1,3)] by blast
  then have st2: "sound e 1 as' (persist e st1)"
    using persist_sound[OF Q] by blast
  have fin: "sound e 1 [] (finish_dispatch e r s)" if "sound e 1 [] s" for r s
    using that by (simp add: finish_dispatch_def sound_def Let_def split: prod.split option.split)
  show ?thesis
    using p(1) st2 loop_sound[OF assms(1,2) st2, of 0 None] fin
    by (auto simp: Dispatch_def Let_def split: sum.splits prod.splits)
qed

subsection \<open>A dispatch without new actions\<close>

lemma requeue_pending:
  assumes "queue_of e = Q" "ok (dqueue st)" "stamped (mset ys)"
  shows "ok (dqueue (requeue_expired e (map fst ys) st))
    \<and> pending (dqueue (requeue_expired e (map fst ys) st)) = pending (dqueue st) + mset ys"
  using assms(2,3)
proof (induction ys arbitrary: st)
  case (Cons y ys)
  obtain a p where y: "y = (a, p)" by fastforce
  then obtain t where t: "StartTime a = Inr t" "p = unix t" using Cons.prems(2) by auto
  let ?st = "st\<lparr>dqueue := pqAdd Q a p (dqueue st)\<rparr>"
  have "ok (dqueue (requeue_expired e (map fst ys) ?st))
      \<and> pending (dqueue (requeue_expired e (map fst ys) ?st)) = pending (dqueue ?st) + mset ys"
    using Cons.prems Add[of "dqueue st" a p] y by (intro Cons.IH) auto
  then show ?case
    using Add[of "dqueue st" a p] Cons.prems y t assms(1) by simp
qed simp

lemma prepare_nothing_new:
  assumes "serves e" "ok (dqueue st)" "stamped (pending (dqueue st))"
  shows "\<exists>xs st'. prepare e [] st = Some (map Scheduled (filter (\<lambda>a. fate_of (now e) a = Dispatched) (map fst xs)), st')
    \<and> sorted (map snd xs) \<and> mset xs = filter_mset (due (unix (dequeueNow e))) (pending (dqueue st))
    \<and> pending (dqueue st') = filter_mset (\<lambda>x. \<not> due (unix (dequeueNow e)) x
        \<or> fate_of (now e) (fst x) = Expired \<and> of_type (UPGRADE (api e)) x) (pending (dqueue st))"
proof -
  let ?ts = "unix (dequeueNow e)" and ?M = "pending (dqueue st)"
  let ?E = "\<lambda>x. fate_of (now e) (fst x) = Expired \<and> of_type (UPGRADE (api e)) x"
  have Q: "queue_of e = Q" using assms(1) by (simp add: serves_def)
  obtain ds q where d: "pqDequeueActions Q ?ts (dqueue st) = (ds, q)" by fastforce
  from Dequeue[OF assms(2) d] obtain xs where xs: "ok q" "pending q = filter_mset (\<lambda>x. \<not> due ?ts x) ?M"
    "ds = map fst xs" "sorted (map snd xs)" "mset xs = filter_mset (due ?ts) ?M" by blast
  define ys where "ys = filter ?E xs"
  let ?st = "st\<lparr>needUpdate := False, dqueue := q\<rparr>"
  have "mset ys = filter_mset ?E (filter_mset (due ?ts) ?M)"
    by (simp add: ys_def xs(5))
  then have ys: "mset ys \<subseteq># ?M" "mset ys = filter_mset (\<lambda>x. due ?ts x \<and> ?E x) ?M"
    by (auto simp: filter_filter_mset conj_commute intro: subset_mset.trans)
  have expired: "map fst ys = filter (\<lambda>a. fate_of (now e) a = Expired \<and> scheduled_Type a = UPGRADE (api e)) ds"
    by (simp add: ys_def xs(3) filter_map comp_def of_type_def)
  have r: "pending (dqueue (requeue_expired e (map fst ys) ?st)) = pending q + mset ys"
    using requeue_pending[OF Q, of ?st ys] xs(1) stamped_mono[OF assms(3) ys(1)] by simp
  have sum: "pending q + mset ys = filter_mset (\<lambda>x. \<not> due ?ts x \<or> ?E x) ?M"
    unfolding xs(2) ys(2) by (rule multiset_eqI) auto
  obtain st' where m: "mergeWithQueuedActions e [] (st\<lparr>needUpdate := False\<rparr>)
      = (map Scheduled (filter (\<lambda>a. fate_of (now e) a = Dispatched) ds), st')"
    "dqueue st' = dqueue (requeue_expired e (map fst ys) ?st)"
    by (simp add: mergeWithQueuedActions_def Q d Let_def flip: expired)
  have "prepare e [] st = Some (map Scheduled (filter (\<lambda>a. fate_of (now e) a = Dispatched) ds), st')"
    using m(1) by (simp add: prepare_def dispatchCancelActions_def)
  then show ?thesis
    using xs(3-5) r sum m(2) by auto
qed

lemma retry_pending:
  assumes "queue_of e = Q" "ok (dqueue st)"
  shows "case GetWait (rt (disp e)) (Retry u) of
      None \<Rightarrow> scheduleRetry e t u st = ack_and_commit e (Scheduled (Upgrade (SetRetryAttempt (- 1) u))) st
    | Some d \<Rightarrow> pending (dqueue (scheduleRetry e t u st)) = add_mset
        (Upgrade (SetStartTime (t + d) (SetRetryAttempt (Retry u + 1) u)), unix (t + d)) (pending (dqueue st))"
proof (cases "GetWait (rt (disp e)) (Retry u)")
  case (Some d)
  define u' where "u' = SetStartTime (t + d) (SetRetryAttempt (Retry u + 1) u)"
  have "dqueue (scheduleRetry e t u st) = snd (pqSave Q (pqAdd Q (Upgrade u') (unix (t + d)) (dqueue st)))"
    using Some assms(1) by (simp add: scheduleRetry_def RetryAttempt_def Let_def u'_def)
  then show ?thesis
    using Some Add[OF assms(2), of "Upgrade u'" "unix (t + d)"] Save[of "pqAdd Q (Upgrade u') (unix (t + d)) (dqueue st)"]
    by (simp add: u'_def)
qed (simp add: scheduleRetry_def RetryAttempt_def)

end

section \<open>The cancel handler\<close>

text \<open>\<^verbatim>\<open>handler_action_cancel.go\<close>, on the action queue; a panic of the queue is its error here.\<close>

definition cancel_Handle :: "('s ActionQueue, 'w) handler" where
  "cancel_Handle a s = (case s of (q, w) \<Rightarrow> (case a of
       Cancel c \<Rightarrow> (case queue_Cancel (TargetID c) (aq q) of
           None \<Rightarrow> (Some ''panic'', q, w)
         | Some (n, q') \<Rightarrow> (None, q\<lparr>aq := q'\<rparr>, w))
     | _ \<Rightarrow> (Some ''invalid type, expected ActionCancel'', q, w)))"

text \<open>Handlers that take actions off the queue at most.\<close>

definition only_removes :: "('s ActionQueue, 'w) handler \<Rightarrow> bool" where
  "only_removes h \<longleftrightarrow> (\<forall>a q w err q' w'. queue_ok (aq q) \<and> h a (q, w) = (err, q', w')
     \<longrightarrow> queue_ok (aq q') \<and> contents (aq q') \<subseteq># contents (aq q))"

lemma cancel_Handle_only_removes: "only_removes cancel_Handle"
  unfolding only_removes_def
proof (intro allI impI, elim conjE)
  fix a and q q' :: "'s ActionQueue" and w w' :: 'w and err
  assume q: "queue_ok (aq q)" "cancel_Handle a (q, w) = (err, q', w')"
  show "queue_ok (aq q') \<and> contents (aq q') \<subseteq># contents (aq q)"
  proof (cases "\<exists>c. a = Cancel c")
    case True
    then obtain c where "a = Cancel c" ..
    with q show ?thesis
      using cancel_where_ok[OF q(1), of "\<lambda>a. scheduled_ID a = TargetID c"]
      by (auto simp: cancel_Handle_def queue_Cancel_def)
  next
    case False
    with q have "q' = q" by (auto simp: cancel_Handle_def split: action.splits)
    with q(1) show ?thesis by simp
  qed
qed

section \<open>On the action queue\<close>

definition runs_on_action_queue :: "'s saver \<Rightarrow> ('s ActionQueue, 'w) denv \<Rightarrow> bool" where
  "runs_on_action_queue sv e \<longleftrightarrow> queue_of e = action_queue_methods sv
     \<and> (\<forall>h \<in> insert (def_handler (disp e)) (snd ` set (handlers (disp e))). only_removes h)
     \<and> (\<forall>i. \<forall>d\<in>set (rt (disp e)). four_digit_year (retryNow e i + d))"

lemma runs_on_action_queue_serves:
  "runs_on_action_queue sv e \<Longrightarrow> apq.serves sv e \<and> apq.sane_clock e"
  unfolding runs_on_action_queue_def apq.serves_def apq.sane_clock_def only_removes_def by blast

section \<open>Runs of the dispatcher\<close>

text \<open>The states of an agent: the queue is read from the store with one upgrade at most, then the
  dispatcher is called again and again, each time with its own clock, context and acker.\<close>

inductive dispatch_run :: "api_types \<Rightarrow> 's saver \<Rightarrow> ('s ActionQueue, 'w) dstate \<Rightarrow> bool" for ap sv where
  start: "NewActionQueue as s = Inr (dqueue st) \<Longrightarrow> upgrades_in (UPGRADE ap) (map Scheduled as) \<le> 1
    \<Longrightarrow> dispatch_run ap sv st"
| dispatched: "dispatch_run ap sv st \<Longrightarrow> runs_on_action_queue sv e \<Longrightarrow> api e = ap
    \<Longrightarrow> Dispatch e as st = Some st' \<Longrightarrow> dispatch_run ap sv st'"

lemma those_defined: "(\<forall>x\<in>set xs. f x \<noteq> None) \<longleftrightarrow> (\<exists>ys. those (map f xs) = Some ys)"
  by (induction xs) (auto split: option.splits)

lemma newQueue_defined: "(\<exists>q. newQueue as = Inr q) \<longleftrightarrow> (\<forall>a\<in>set as. \<exists>t. StartTime a = Inr t)"
proof -
  let ?f = "\<lambda>a. case StartTime a of Inl _ \<Rightarrow> None | Inr t \<Rightarrow> Some t"
  have "(\<exists>q. newQueue as = Inr q) \<longleftrightarrow> (\<exists>ts. those (map ?f as) = Some ts)"
    by (auto simp: newQueue_def split: option.splits)
  moreover have "?f a \<noteq> None \<longleftrightarrow> (\<exists>t. StartTime a = Inr t)" for a by (cases "StartTime a") auto
  ultimately show ?thesis using those_defined[of as ?f] by simp
qed

lemma newQueue_stamped:
  assumes "newQueue as = Inr q"
  shows "stamped (contents q)"
  using newQueue_ok[OF assms] newQueue_defined[of as] assms by (fastforce simp: stamped_def)

lemma newQueue_reload:
  assumes "stamped (contents q)"
  shows "\<exists>q'. newQueue (queue_Actions q) = Inr q' \<and> queue_ok q' \<and> contents q' = contents q"
proof -
  have as: "mset (queue_Actions q) = image_mset fst (contents q)" by (simp add: contents_Actions)
  have "\<exists>t. StartTime a = Inr t" if "a \<in> set (queue_Actions q)" for a
  proof -
    have "a \<in># image_mset fst (contents q)" using that as by (metis set_mset_mset)
    with assms show ?thesis by (auto simp: stamped_def)
  qed
  then obtain q' where q': "newQueue (queue_Actions q) = Inr q'" using newQueue_defined by blast
  have "contents q' = image_mset (\<lambda>x. (fst x, unix (projr (StartTime (fst x))))) (contents q)"
    using newQueue_ok[OF q'] by (simp add: as image_mset.compositionality comp_def)
  also have "\<dots> = image_mset (\<lambda>x. x) (contents q)"
    using assms by (intro image_mset_cong) (auto simp: stamped_def)
  finally show ?thesis using q' newQueue_ok[OF q'] by simp
qed

lemma dispatch_run_sound:
  "dispatch_run ap sv st \<Longrightarrow> queue_ok (aq (dqueue st)) \<and> stamped (contents (aq (dqueue st)))
     \<and> upgrades_queued (UPGRADE ap) (contents (aq (dqueue st))) \<le> 1"
proof (induction rule: dispatch_run.induct)
  case (start as s st)
  then have "newQueue as = Inr (aq (dqueue st))"
    by (cases "dqueue st") (auto simp: NewActionQueue_def rbind_def split: sum.splits)
  from newQueue_ok[OF this] newQueue_stamped[OF this] show ?case
    using start(2) upgrades_in_scheduled[of "UPGRADE ap" "map (\<lambda>a. (a, unix (projr (StartTime a)))) as"]
    by (simp add: comp_def)
next
  case (dispatched st e as st')
  then show ?case
    using apq.Dispatch_sound[of sv e st as] runs_on_action_queue_serves[OF dispatched(2)]
    by (auto simp: apq.sound_def)
qed

section \<open>A sample agent\<close>

definition sample_api :: api_types where
  "sample_api = \<lparr>UPGRADE = ''UPGRADE'', UNENROLL = ''UNENROLL'', POLICYCHANGE = ''POLICY_CHANGE'',
     POLICYREASSIGN = ''POLICY_REASSIGN'', SETTINGS = ''SETTINGS'', INPUTACTION = ''INPUT_ACTION'',
     CANCEL = ''CANCEL'', REQUESTDIAGNOSTICS = ''REQUEST_DIAGNOSTICS'', MIGRATE = ''MIGRATE'',
     PRIVILEGELEVELCHANGE = ''PRIVILEGE_LEVEL_CHANGE''\<rparr>"

definition sample_saver :: "scheduled_action list saver" where
  "sample_saver = \<lparr>SetQueue = \<lambda>as s. as, SaverSave = \<lambda>s. (None, s)\<rparr>"

text \<open>Every action but a cancel fails; what is acknowledged is recorded.\<close>

definition sample_env :: "gtime \<Rightarrow> (scheduled_action list ActionQueue, action list) denv" where
  "sample_env t = \<lparr>api = sample_api,
     disp = \<lparr>handlers = [(KCancel, cancel_Handle)], def_handler = \<lambda>a s. (Some ''boom'', s),
       pqueue = action_queue_methods sample_saver, rt = defaultRetryConfig\<rparr>,
     ack = \<lparr>ackerAck = \<lambda>a w. (None, w @ [a]), ackerCommit = \<lambda>w. (None, w)\<rparr>,
     quote = (\<lambda>s. s), now = t, dequeueNow = t, retryNow = (\<lambda>_. t), ctxErr = (\<lambda>_. None)\<rparr>"

definition sample_state :: "queue \<Rightarrow> (scheduled_action list ActionQueue, action list) dstate" where
  "sample_state q = \<lparr>dqueue = \<lparr>aq = q, storage = []\<rparr>, world = [], needUpdate = False, lastDetails = None,
     lastDetailsSet = False, detailsSent = [], errCh = []\<rparr>"

lemma sample_env_runs: "runs_on_action_queue sample_saver (sample_env 0)"
proof -
  have "only_removes (def_handler (disp (sample_env 0)))" by (simp add: sample_env_def only_removes_def)
  moreover have "\<forall>d\<in>set defaultRetryConfig. four_digit_year d"
    by (simp add: defaultRetryConfig_def four_digit_year_def unix_def minute_ns_def second_ns_def)
  ultimately show ?thesis
    using cancel_Handle_only_removes unfolding runs_on_action_queue_def by (simp add: sample_env_def)
qed

lemma sample_state_run: "dispatch_run sample_api sample_saver (sample_state \<lparr>items = [], slots = []\<rparr>)"
  by (rule start[of "[]" "[]"])
    (simp_all add: NewActionQueue_def newQueue_def heap_Init_def queue_methods_def queue_Len_def rbind_def sample_state_def)

section \<open>The properties\<close>

text \<open>C7: Whatever the gateway sent before, dispatching never panics and always returns; afterwards one
  upgrade at most is queued and the queue is in order.\<close>

theorem dispatch_keeps_one_upgrade:
  assumes "dispatch_run ap sv st" "runs_on_action_queue sv e" "api e = ap"
  shows "\<exists>st'. Dispatch e as st = Some st' \<and> dispatch_run ap sv st' \<and> queue_ok (aq (dqueue st'))
    \<and> size (filter_mset (\<lambda>x. scheduled_Type (fst x) = UPGRADE ap) (contents (aq (dqueue st')))) \<le> 1"
proof -
  obtain st' where st': "Dispatch e as st = Some st'"
    using dispatch_run_sound[OF assms(1)] apq.Dispatch_sound[of sv e st as] runs_on_action_queue_serves[OF assms(2)] assms(3)
    by (auto simp: apq.sound_def)
  have "dispatch_run ap sv st'" by (rule dispatched[OF assms st'])
  with st' show ?thesis
    using dispatch_run_sound[of ap sv st'] by (auto simp: upgrades_queued_def of_type_fun)
qed

theorem dispatch_keeps_one_upgrade_witness:
  "\<exists>st'. Dispatch (sample_env 0) [Scheduled (sample_upgrade ''a'' []), Scheduled (sample_upgrade ''b'' [])]
      (sample_state \<lparr>items = [], slots = []\<rparr>) = Some st'
    \<and> size (filter_mset (\<lambda>x. scheduled_Type (fst x) = ''UPGRADE'') (contents (aq (dqueue st')))) \<le> 1"
  using dispatch_keeps_one_upgrade[OF sample_state_run sample_env_runs,
      of "[Scheduled (sample_upgrade ''a'' []), Scheduled (sample_upgrade ''b'' [])]"]
  by (auto simp: sample_env_def sample_api_def)




definition sample_due :: scheduled_action where
  "sample_due = sample_upgrade ''a'' (Format_RFC3339 0)"

lemma sample_due_times: "StartTime sample_due = Inr 0" "fate_of t sample_due = Dispatched"
  using parse_format[of 0]
  by (simp_all add: sample_due_def sample_upgrade_def time_field_def Format_not_Nil fate_of_def four_digit_year_def unix_def)

lemma sample_due_run:
  "\<exists>q. dispatch_run sample_api sample_saver (sample_state q) \<and> queue_ok q \<and> contents q = {#(sample_due, 0)#}"
proof -
  obtain q where q: "newQueue [sample_due] = Inr q"
    using newQueue_defined[of "[sample_due]"] sample_due_times by auto
  have "dispatch_run sample_api sample_saver (sample_state q)"
    by (rule start[of "[sample_due]" "[]"]) (simp_all add: q NewActionQueue_def sample_state_def)
  then show ?thesis
    using newQueue_ok[OF q] by (auto simp: sample_due_times unix_def)
qed


text \<open>C14: A failed upgrade is tried again after 1, 5, 10, 15, 30 and 60 minutes and then never again: each
  retry is queued at its waiting time with a higher attempt, so that fewer retries remain, and the
  last failure is acknowledged with attempt -1, which the server reads as final, and queues nothing.\<close>

theorem failed_upgrade_retries_end:
  assumes "queue_of e = action_queue_methods sv" "queue_ok (aq (dqueue st))" "rt (disp e) = defaultRetryConfig"
  shows "if 0 \<le> Retry u \<and> Retry u < 6
    then let w = t + [1, 5, 10, 15, 30, 60] ! nat (Retry u) * minute_ns;
             u' = SetStartTime w (SetRetryAttempt (Retry u + 1) u)
      in contents (aq (dqueue (scheduleRetry e t u st))) = add_mset (Upgrade u', unix w) (contents (aq (dqueue st)))
        \<and> nat (6 - Retry u') < nat (6 - Retry u)
    else scheduleRetry e t u st = ack_and_commit e (Scheduled (Upgrade (SetRetryAttempt (- 1) u))) st
      \<and> contents (aq (dqueue (scheduleRetry e t u st))) = contents (aq (dqueue st))
      \<and> upgrade_ack_payload (SetRetryAttempt (- 1) u) = map_option (\<lambda>err. (err, False, - 1)) (UpgradeErr u)"
proof -
  have wait: "GetWait defaultRetryConfig k = (if 0 \<le> k \<and> k < 6 then Some ([1, 5, 10, 15, 30, 60] ! nat k * minute_ns) else None)" for k
  proof (cases "0 \<le> k \<and> k < 6")
    case True
    then have "k \<in> {0, 1, 2, 3, 4, 5}" by auto
    then show ?thesis by (auto simp: GetWait_def defaultRetryConfig_def)
  qed (auto simp: GetWait_def defaultRetryConfig_def)
  have "dqueue (ack_and_commit e a st) = dqueue st" for a
    by (simp add: ack_and_commit_def split: prod.split option.split)
  then show ?thesis
    using apq.retry_pending[OF assms(1,2), where u = u and t = t]
    by (auto simp: assms(3) wait Let_def SetStartTime_def SetRetryAttempt_def upgrade_ack_payload_def)
qed

theorem failed_upgrade_retries_end_witness:
  "\<exists>u q. Retry u = 0 \<and> contents (aq (dqueue (scheduleRetry (sample_env 0) 0 u (sample_state q))))
     = {#(Upgrade (u\<lparr>Retry := 1, ActionStartTime := Format_RFC3339 minute_ns\<rparr>), 60)#}"
proof -
  obtain u where u: "sample_upgrade ''a'' [] = Upgrade u" "Retry u = 0" by (simp add: sample_upgrade_def)
  let ?q = "\<lparr>items = [], slots = []\<rparr>"
  have "queue_ok ?q" "contents ?q = {#}"
    using dispatch_run_sound[OF sample_state_run] by (simp_all add: sample_state_def contents_def)
  then show ?thesis
    using failed_upgrade_retries_end[of "sample_env 0" sample_saver "sample_state ?q" u 0] u(2)
    by (auto simp: sample_env_def sample_state_def SetStartTime_def SetRetryAttempt_def minute_ns_def
        second_ns_def unix_def Let_def intro!: exI[of _ u] exI[of _ ?q])
qed

section \<open>The upgrade that is shown\<close>

text \<open>An upgrade that can be scheduled: it has a start time and no malformed expiration.\<close>

definition schedulable :: "scheduled_action list \<Rightarrow> ActionUpgrade \<Rightarrow> gtime \<Rightarrow> bool" where
  "schedulable as u s \<longleftrightarrow> Upgrade u \<in> set as \<and> StartTime (Upgrade u) = Inr s
     \<and> (Expiration (Upgrade u) = Inl ErrNoExpiration \<or> (\<exists>x. Expiration (Upgrade u) = Inr x))"

definition expiry_of :: "ActionUpgrade \<Rightarrow> gtime" where
  "expiry_of u = (case Expiration (Upgrade u) of Inr x \<Rightarrow> x | Inl _ \<Rightarrow> zero_time)"

lemma schedulable_Cons:
  "schedulable (a # as) u s \<longleftrightarrow> schedulable [a] u s \<or> schedulable as u s"
  by (auto simp: schedulable_def)

lemma next_upgrade_Cons:
  "next_upgrade best (a # as) = next_upgrade
     (if \<exists>u s. schedulable [a] u s \<and> (\<forall>v t x. best = Some (v, t, x) \<longrightarrow> s \<le> t)
      then (case a of Upgrade u \<Rightarrow> Some (u, projr (StartTime a), expiry_of u) | Restart _ \<Rightarrow> None) else best) as"
proof (cases a)
  case (Upgrade u)
  then show ?thesis
    by (auto simp: schedulable_def expiry_of_def split: sum.split option.split)
qed (simp add: schedulable_def)

lemma next_upgrade_spec:
  "case next_upgrade best as of
     None \<Rightarrow> best = None \<and> (\<forall>u s. \<not> schedulable as u s)
   | Some (u, s, x) \<Rightarrow> (best = Some (u, s, x) \<or> schedulable as u s \<and> x = expiry_of u)
       \<and> (\<forall>v t y. best = Some (v, t, y) \<longrightarrow> s \<le> t) \<and> (\<forall>v t. schedulable as v t \<longrightarrow> s \<le> t)"
proof (induction as arbitrary: best)
  case Nil
  then show ?case by (auto simp: schedulable_def split: option.split)
next
  case (Cons a as)
  show ?case
  proof (cases "\<exists>u s. schedulable [a] u s \<and> (\<forall>v t x. best = Some (v, t, x) \<longrightarrow> s \<le> t)")
    case True
    then obtain u s where u: "schedulable [a] u s" "\<forall>v t x. best = Some (v, t, x) \<longrightarrow> s \<le> t" by blast
    then have a: "a = Upgrade u" "StartTime a = Inr s" by (auto simp: schedulable_def)
    then have only: "schedulable [a] v t \<longleftrightarrow> v = u \<and> t = s" for v t
      using u(1) by (auto simp: schedulable_def)
    have "next_upgrade best (a # as) = next_upgrade (Some (u, s, expiry_of u)) as"
      using True a by (simp add: next_upgrade_Cons)
    then show ?thesis
      using Cons.IH[of "Some (u, s, expiry_of u)"] u(2) only
      by (fastforce simp: schedulable_Cons[of a as] split: option.splits)
  next
    case False
    then have n: "next_upgrade best (a # as) = next_upgrade best as"
      by (simp only: next_upgrade_Cons if_False)
    have "\<exists>v t x. best = Some (v, t, x) \<and> t < s" if "schedulable [a] u s" for u s
      using False that by (meson linorder_not_le)
    then show ?thesis
      using Cons.IH[of best] unfolding n
      by (fastforce simp: schedulable_Cons[of a as] split: option.splits)
  qed
qed

text \<open>The upgrade details shown to the user are those of the earliest scheduled upgrade: failed, with
  the reason, when it has expired, and scheduled at its start time otherwise; there are none when
  no queued upgrade can be scheduled.\<close>

theorem details_show_next_upgrade:
  "case GetScheduledUpgradeDetails qt as ts of
     None \<Rightarrow> \<not> (\<exists>u s. schedulable as u s)
   | Some d \<Rightarrow> \<exists>u s. schedulable as u s \<and> \<not> (\<exists>v t. schedulable as v t \<and> t < s)
       \<and> DActionID d = ActionID u \<and> TargetVersion d = Version u
       \<and> (if expiry_of u \<noteq> zero_time \<and> expiry_of u < ts
          then DState d = StateFailed
            \<and> ErrorMsg (DMetadata d) = ''upgrade action '' @ qt (ActionID u) @ '' expired on '' @ ActionExpiration u
          else DState d = StateScheduled \<and> ScheduledAt (DMetadata d) = Some s)"
proof (cases "next_upgrade None as")
  case None
  then show ?thesis
    using next_upgrade_spec[of None as] by (simp add: GetScheduledUpgradeDetails_def)
next
  case (Some r)
  obtain u s x where r: "r = (u, s, x)" by (cases r)
  have "schedulable as u s" "x = expiry_of u" "\<not> (\<exists>v t. schedulable as v t \<and> t < s)"
    using next_upgrade_spec[of None as] Some r by (auto simp: linorder_not_le[symmetric])
  then show ?thesis
    unfolding GetScheduledUpgradeDetails_def Some r
    by (auto simp: Fail_def NewDetails_def notifying_def Let_def split: option.split intro!: exI[of _ u] exI[of _ s])
qed

end
