(* ===== verification/Keyed_Loops.thy ===== *)
theory Keyed_Loops
  imports Prelude "HOL-Library.AList"
begin

text \<open>
  Loops over a Go map that is updated while or after a slice is walked, as the component state has
  them. A map is an association list with distinct keys: its order stands for the order in which
  Go ranges over the map, which the language leaves open, so what is proved for every list holds
  for every order.

  A loop of the first kind walks a slice, reads the entry of each element's key, computes the new entry and
  whether it changed, and writes it back. A loop of the second kind walks the map and rewrites the entries of the
  keys that the first loop did not touch.
\<close>

type_synonym ('k, 'v) gomap = "('k \<times> 'v) list"

abbreviation keys_of :: "('k, 'v) gomap \<Rightarrow> 'k list" where
  "keys_of m \<equiv> map fst m"

fun upsert_each :: "('u \<Rightarrow> 'k) \<Rightarrow> ('v option \<Rightarrow> 'u \<Rightarrow> 'v \<times> bool) \<Rightarrow> 'u list \<Rightarrow> ('k, 'v) gomap \<Rightarrow> ('k, 'v) gomap \<times> bool" where
  "upsert_each key body [] m = (m, False)"
| "upsert_each key body (u # us) m =
     (let r = body (map_of m (key u)) u; r' = upsert_each key body us (AList.update (key u) (fst r) m)
      in (fst r', snd r \<or> snd r'))"

definition rewrite_rest :: "'k set \<Rightarrow> ('v \<Rightarrow> 'v \<times> bool) \<Rightarrow> ('k, 'v) gomap \<Rightarrow> ('k, 'v) gomap \<times> bool" where
  "rewrite_rest touched f m =
     (map (\<lambda>(k, v). (k, if k \<in> touched then v else fst (f v))) m,
      list_ex (\<lambda>(k, v). k \<notin> touched \<and> snd (f v)) m)"

section \<open>Lookups\<close>

lemma rewrite_rest_get: "map_of (fst (rewrite_rest T f m)) k = (if k \<in> T then map_of m k else map_option (\<lambda>v. fst (f v)) (map_of m k))"
  by (induction m) (auto simp: rewrite_rest_def)

lemma rewrite_rest_keys [simp]: "keys_of (fst (rewrite_rest T f m)) = keys_of m"
  by (simp add: rewrite_rest_def case_prod_unfold)

lemma upsert_distinct: "distinct (keys_of m) \<Longrightarrow> distinct (keys_of (fst (upsert_each key body us m)))"
  by (induction us arbitrary: m) (simp_all add: Let_def distinct_update)

lemma upsert_untouched: "k \<notin> key ` set us \<Longrightarrow> map_of (fst (upsert_each key body us m)) k = map_of m k"
  by (induction us arbitrary: m) (auto simp: Let_def update_conv')

lemma upsert_keys: "set (keys_of (fst (upsert_each key body us m))) = set (keys_of m) \<union> key ` set us"
  by (induction us arbitrary: m) (auto simp: Let_def dom_update image_iff)

lemma upsert_touched:
  assumes "distinct (map key us)" "u \<in> set us"
  shows "map_of (fst (upsert_each key body us m)) (key u) = Some (fst (body (map_of m (key u)) u))"
  using assms
proof (induction us arbitrary: m)
  case (Cons w us)
  show ?case
  proof (cases "u = w")
    case True
    with Cons.prems have "key u \<notin> key ` set us" by auto
    with True show ?thesis by (simp add: Let_def upsert_untouched update_conv')
  next
    case False
    with Cons.prems have "u \<in> set us" "key u \<noteq> key w" by (simp_all, metis image_eqI)
    with Cons show ?thesis by (simp add: Let_def update_conv')
  qed
qed simp

text \<open>When every element finds its entry in place and leaves it there, nothing happens.\<close>

lemma upsert_settled:
  assumes "\<And>u. u \<in> set us \<Longrightarrow> \<exists>v. map_of m (key u) = Some v \<and> body (Some v) u = (v, False)"
  shows "upsert_each key body us m = (m, False)"
  using assms
proof (induction us)
  case (Cons w us)
  obtain v where v: "map_of m (key w) = Some v" "body (Some v) w = (v, False)"
    using Cons.prems[of w] by auto
  then show ?case using Cons by (simp add: Let_def update_triv)
qed simp

lemma rewrite_rest_settled:
  assumes "\<And>k v. (k, v) \<in> set m \<Longrightarrow> k \<notin> T \<Longrightarrow> f v = (v, False)"
  shows "rewrite_rest T f m = (m, False)"
proof -
  have "map (\<lambda>(k, v). (k, if k \<in> T then v else fst (f v))) m = m"
    using assms by (intro map_idI) (auto split: prod.split)
  moreover have "\<not> list_ex (\<lambda>(k, v). k \<notin> T \<and> snd (f v)) m"
    using assms by (auto simp: list_ex_iff)
  ultimately show ?thesis by (simp add: rewrite_rest_def)
qed

text \<open>What holds of every entry, and of every entry a loop writes, holds of every entry after it.\<close>

definition all_entries :: "('k \<Rightarrow> 'v \<Rightarrow> bool) \<Rightarrow> ('k, 'v) gomap \<Rightarrow> bool" where
  "all_entries P m \<longleftrightarrow> (\<forall>k v. map_of m k = Some v \<longrightarrow> P k v)"

lemma all_entriesD: "all_entries P m \<Longrightarrow> map_of m k = Some v \<Longrightarrow> P k v"
  by (simp add: all_entries_def)

lemma all_entries_Nil [simp]: "all_entries P []"
  by (simp add: all_entries_def)

lemma all_entries_update: "all_entries P m \<Longrightarrow> P k v \<Longrightarrow> all_entries P (AList.update k v m)"
  by (auto simp: all_entries_def update_conv')

lemma upsert_inv:
  assumes "all_entries P m"
    and "\<And>u w. u \<in> set us \<Longrightarrow> (\<And>v. w = Some v \<Longrightarrow> P (key u) v) \<Longrightarrow> P (key u) (fst (body w u))"
  shows "all_entries P (fst (upsert_each key body us m))"
  using assms
proof (induction us arbitrary: m)
  case (Cons u us)
  have "P (key u) (fst (body (map_of m (key u)) u))"
    using Cons.prems by (auto dest: all_entriesD)
  then have "all_entries P (AList.update (key u) (fst (body (map_of m (key u)) u)) m)"
    using Cons.prems(1) by (intro all_entries_update)
  then show ?case using Cons by (simp add: Let_def)
qed simp

lemma rewrite_rest_inv:
  assumes "all_entries P m" "\<And>k v. P k v \<Longrightarrow> k \<notin> T \<Longrightarrow> P k (fst (f v))"
  shows "all_entries P (fst (rewrite_rest T f m))"
  using assms by (auto simp: all_entries_def rewrite_rest_get split: if_splits)

section \<open>Loops that settle\<close>

text \<open>The body of a loop that has nothing to do when it sees the same element a second time.\<close>

locale settling_loop =
  fixes key :: "'u \<Rightarrow> 'k"
    and body :: "'v option \<Rightarrow> 'u \<Rightarrow> 'v \<times> bool"
    and good :: "'u \<Rightarrow> bool"
  assumes settles: "good u \<Longrightarrow> body (Some (fst (body w u))) u = (fst (body w u), False)"
begin

text \<open>Running both loops a second time changes nothing, and says so.\<close>

lemma loops_twice:
  assumes "distinct (map key us)" "\<forall>u\<in>set us. good u"
    and rest: "\<And>v. f (fst (f v)) = (fst (f v), False)"
    and m': "m' = fst (rewrite_rest (key ` set us) f (fst (upsert_each key body us m)))"
  shows "upsert_each key body us m' = (m', False)" "rewrite_rest (key ` set us) f m' = (m', False)"
proof -
  show "upsert_each key body us m' = (m', False)"
  proof (rule upsert_settled)
    fix u assume u: "u \<in> set us"
    have "map_of m' (key u) = Some (fst (body (map_of m (key u)) u))"
      using u assms(1) by (simp add: m' rewrite_rest_get upsert_touched)
    then show "\<exists>v. map_of m' (key u) = Some v \<and> body (Some v) u = (v, False)"
      using u assms(2) settles by blast
  qed
  show "rewrite_rest (key ` set us) f m' = (m', False)"
  proof (rule rewrite_rest_settled)
    fix k v assume "(k, v) \<in> set m'" "k \<notin> key ` set us"
    then obtain w where "v = fst (f w)" by (auto simp: m' rewrite_rest_def)
    then show "f v = (v, False)" using rest by simp
  qed
qed

end

end
