(* ===== verification/Component_State.thy ===== *)
theory Component_State
  imports Keyed_Loops Go_Value "HOL-Library.Word"
begin

text \<open>
  The state of a component and of its units, \<^verbatim>\<open>pkg/component/runtime/state.go\<close>: what the agent
  expects of each unit, what the running component last reported, and what the agent shows.

  The enumerations and messages of the control protocol come from the client library. The unit states are integers
  whose names are a parameter, and a protobuf message is an opaque value compared by the
  library's \<^verbatim>\<open>proto.Equal\<close>, the parameter \<open>protoEqual\<close>. Indices are 64-bit words.
\<close>

type_synonym UnitState = int
type_synonym u64 = "64 word"

record 'p client_api =
  UnitStateStarting :: UnitState
  UnitStateHealthy :: UnitState
  UnitStateDegraded :: UnitState
  UnitStateFailed :: UnitState
  UnitStateStopping :: UnitState
  UnitStateStopped :: UnitState
  protoEqual :: "'p option \<Rightarrow> 'p option \<Rightarrow> bool"

definition startingMsg :: string where "startingMsg = ''Starting''"
definition stoppedMsg :: string where "stoppedMsg = ''Stopped''"
definition unknownMsg :: string where "unknownMsg = ''Failed: reported unit is unknown''"
definition missingMsg :: string where "missingMsg = ''Failed: not reported in check-in''"

section \<open>Errors and deep equality\<close>

text \<open>An error value: its identity, its message and the errors it wraps.\<close>

datatype go_error = GoError (error_id: nat) (Error: string) (Unwrap: "go_error list")

fun errors_is :: "go_error \<Rightarrow> go_error \<Rightarrow> bool" where
  "errors_is (GoError i m ws) target \<longleftrightarrow> GoError i m ws = target \<or> (\<exists>w\<in>set ws. errors_is w target)"

definition errors_Is :: "go_error option \<Rightarrow> go_error option \<Rightarrow> bool" where
  "errors_Is e target = (case (e, target) of
       (Some a, Some b) \<Rightarrow> errors_is a b
     | _ \<Rightarrow> e = target)"

text \<open>\<^verbatim>\<open>reflect.DeepEqual\<close>: two NaNs differ.\<close>

fun payload_equal :: "gval \<Rightarrow> gval \<Rightarrow> bool"
and payload_equal_list :: "gval list \<Rightarrow> gval list \<Rightarrow> bool"
and payload_equal_map :: "(string \<times> gval) list \<Rightarrow> (string \<times> gval) list \<Rightarrow> bool" where
  "payload_equal (GFloat x) w = (case w of GFloat y \<Rightarrow> f64_eq x y | _ \<Rightarrow> False)"
| "payload_equal (GList xs) w = (case w of GList ys \<Rightarrow> payload_equal_list xs ys | _ \<Rightarrow> False)"
| "payload_equal (GMap m) w = (case w of GMap n \<Rightarrow> payload_equal_map m n | _ \<Rightarrow> False)"
| "payload_equal v w = (v = w)"
| "payload_equal_list [] ys = (ys = [])"
| "payload_equal_list (x # xs) ys = (case ys of [] \<Rightarrow> False | y # ys' \<Rightarrow> payload_equal x y \<and> payload_equal_list xs ys')"
| "payload_equal_map [] n = (n = [])"
| "payload_equal_map ((k, x) # m) n = (case n of [] \<Rightarrow> False | (l, y) # n' \<Rightarrow> k = l \<and> payload_equal x y \<and> payload_equal_map m n')"

type_synonym payload = "(string \<times> gval) list option"

definition diffPayload :: "payload \<Rightarrow> payload \<Rightarrow> bool" where
  "diffPayload existing new = (case (existing, new) of
       (None, Some _) \<Rightarrow> True
     | (Some _, None) \<Rightarrow> True
     | (None, None) \<Rightarrow> False
     | (Some m, Some n) \<Rightarrow> \<not> payload_equal_map m n)"

definition diffMeta :: "(string \<times> string) list option \<Rightarrow> (string \<times> string) list option \<Rightarrow> bool" where
  "diffMeta existing new = (case (existing, new) of
       (None, Some _) \<Rightarrow> True
     | (Some _, None) \<Rightarrow> True
     | _ \<Rightarrow> existing \<noteq> new)"

section \<open>Units and components\<close>

record ComponentUnitKey =
  UnitType :: int
  UnitID :: string

record ComponentUnitState =
  State :: UnitState
  Message :: string
  Payload :: payload
  unitState :: UnitState
  unitMessage :: string
  unitPayload :: payload
  configStateIdx :: u64
  unit_err :: "go_error option"

record 'p expectedUnitState =
  exp_state :: UnitState
  exp_configStateIdx :: u64
  exp_config :: "'p option"
  exp_err :: "go_error option"
  exp_logLevel :: int

record ComponentVersionInfo =
  VersionName :: string
  VersionMeta :: "(string \<times> string) list option"
  BuildHash :: string

record 'p ComponentState =
  CState :: UnitState
  CMessage :: string
  Units :: "(ComponentUnitKey, ComponentUnitState) gomap"
  Features :: "'p option"
  FeaturesIdx :: u64
  Comp :: "'p option"
  ComponentIdx :: u64
  VersionInfo :: ComponentVersionInfo
  Pid :: u64
  expectedUnits :: "(ComponentUnitKey, 'p expectedUnitState) gomap"
  expectedFeatures :: "'p option"
  expectedFeaturesIdx :: u64
  expectedComponent :: "'p option"
  expectedComponentIdx :: u64
  expectedAgentInfo :: "'p option"

text \<open>The parts of \<^verbatim>\<open>component.Unit\<close> and \<^verbatim>\<open>component.Component\<close> that the state depends on.\<close>

record 'p Unit =
  ID :: string
  Type :: int
  LogLevel :: int
  Config :: "'p option"
  Err :: "go_error option"

record 'p Component =
  CompUnits :: "'p Unit list"
  CompFeatures :: "'p option"
  CompComponent :: "'p option"
  CompAgentInfo :: "'p option"

definition unit_key :: "'p Unit \<Rightarrow> ComponentUnitKey" where
  "unit_key u = \<lparr>UnitType = Type u, UnitID = ID u\<rparr>"

definition zero_unit :: ComponentUnitState where
  "zero_unit = \<lparr>State = 0, Message = [], Payload = None, unitState = 0, unitMessage = [], unitPayload = None,
     configStateIdx = 0, unit_err = None\<rparr>"

text \<open>\<^verbatim>\<open>State\<close>, \<^verbatim>\<open>Message\<close> and \<^verbatim>\<open>Payload\<close> are set when they differ; the flag says whether they did.\<close>

definition show_unit :: "UnitState \<Rightarrow> string \<Rightarrow> payload \<Rightarrow> ComponentUnitState \<Rightarrow> ComponentUnitState \<times> bool" where
  "show_unit st msg pl u =
     (if State u \<noteq> st \<or> Message u \<noteq> msg \<or> diffPayload (Payload u) pl
      then (u\<lparr>State := st, Message := msg, Payload := pl\<rparr>, True) else (u, False))"

section \<open>What is expected\<close>

definition expected_unit :: "'p client_api \<Rightarrow> 'p expectedUnitState option \<Rightarrow> 'p Unit \<Rightarrow> 'p expectedUnitState \<times> bool" where
  "expected_unit c w u =
     (let (e, changed) = (case w of
          Some e \<Rightarrow>
            (let (e1, ch1) = (if exp_logLevel e \<noteq> LogLevel u then (e\<lparr>exp_logLevel := LogLevel u\<rparr>, True) else (e, False))
             in if \<not> protoEqual c (exp_config e1) (Config u)
                then (e1\<lparr>exp_config := Config u, exp_configStateIdx := exp_configStateIdx e1 + 1\<rparr>, True)
                else (e1, ch1))
        | None \<Rightarrow> (\<lparr>exp_state = UnitStateHealthy c, exp_configStateIdx = 1, exp_config = Config u, exp_err = None,
            exp_logLevel = LogLevel u\<rparr>, True))
      in if \<not> errors_Is (exp_err e) (Err u)
         then (e\<lparr>exp_err := Err u, exp_state := (if Err u \<noteq> None then UnitStateFailed c else exp_state e)\<rparr>, True)
         else (e, changed))"

definition stop_expected :: "'p client_api \<Rightarrow> 'p expectedUnitState \<Rightarrow> 'p expectedUnitState \<times> bool" where
  "stop_expected c e = (if exp_state e \<noteq> UnitStateStopped c then (e\<lparr>exp_state := UnitStateStopped c\<rparr>, True) else (e, False))"

definition syncExpected :: "'p client_api \<Rightarrow> 'p Component \<Rightarrow> 'p ComponentState \<Rightarrow> 'p ComponentState \<times> bool" where
  "syncExpected c cm s =
     (let (es, ch1) = upsert_each unit_key (expected_unit c) (CompUnits cm) (expectedUnits s);
          (es', ch2) = rewrite_rest (unit_key ` set (CompUnits cm)) (stop_expected c) es;
          f = \<not> protoEqual c (expectedFeatures s) (CompFeatures cm);
          p = \<not> protoEqual c (expectedComponent s) (CompComponent cm);
          a = \<not> protoEqual c (expectedAgentInfo s) (CompAgentInfo cm)
      in (s\<lparr>expectedUnits := es',
            expectedFeaturesIdx := (if f then expectedFeaturesIdx s + 1 else expectedFeaturesIdx s),
            expectedFeatures := (if f then CompFeatures cm else expectedFeatures s),
            expectedComponentIdx := (if p then expectedComponentIdx s + 1 else expectedComponentIdx s),
            expectedComponent := (if p then CompComponent cm else expectedComponent s),
            expectedAgentInfo := (if a then CompAgentInfo cm else expectedAgentInfo s)\<rparr>,
          ch1 \<or> ch2 \<or> f \<or> p \<or> a))"

section \<open>What is shown\<close>

definition observed_unit :: "'p client_api \<Rightarrow> ComponentUnitState option \<Rightarrow> 'p Unit \<Rightarrow> ComponentUnitState \<times> bool" where
  "observed_unit c w u =
     (let (e, changed) = (case w of
          Some e \<Rightarrow> (e, False)
        | None \<Rightarrow> (zero_unit\<lparr>State := UnitStateStarting c, Message := startingMsg, unitState := UnitStateStarting c,
            unitMessage := startingMsg\<rparr>, True))
      in case Err u of
           None \<Rightarrow> (e\<lparr>unit_err := None\<rparr>, changed)
         | Some err \<Rightarrow> (let (e', ch) = show_unit (UnitStateFailed c) (Error err) None (e\<lparr>unit_err := Some err\<rparr>)
             in (e', changed \<or> ch)))"

definition stop_observed :: "'p client_api \<Rightarrow> ComponentUnitState \<Rightarrow> ComponentUnitState \<times> bool" where
  "stop_observed c u = (if State u \<noteq> UnitStateStopped c
     then (u\<lparr>State := UnitStateStopped c, Message := stoppedMsg, Payload := None, unitState := UnitStateStopped c,
       unitMessage := stoppedMsg, unitPayload := None\<rparr>, True)
     else (u, False))"

definition syncUnits :: "'p client_api \<Rightarrow> 'p Component \<Rightarrow> 'p ComponentState \<Rightarrow> 'p ComponentState \<times> bool" where
  "syncUnits c cm s =
     (let (us, ch1) = upsert_each unit_key (observed_unit c) (CompUnits cm) (Units s);
          (us', ch2) = rewrite_rest (unit_key ` set (CompUnits cm)) (stop_observed c) us;
          f = \<not> protoEqual c (Features s) (CompFeatures cm);
          p = \<not> protoEqual c (Comp s) (CompComponent cm)
      in (s\<lparr>Units := us', Features := (if f then CompFeatures cm else Features s),
            Comp := (if p then CompComponent cm else Comp s)\<rparr>, ch1 \<or> ch2 \<or> f \<or> p))"

definition newComponentState :: "'p client_api \<Rightarrow> 'p Component \<Rightarrow> 'p ComponentState" where
  "newComponentState c cm =
     (let s = \<lparr>CState = UnitStateStarting c, CMessage = startingMsg, Units = [], Features = None, FeaturesIdx = 0,
        Comp = None, ComponentIdx = 0, VersionInfo = \<lparr>VersionName = [], VersionMeta = None, BuildHash = []\<rparr>, Pid = 0,
        expectedUnits = [], expectedFeatures = None, expectedFeaturesIdx = 1, expectedComponent = None,
        expectedComponentIdx = 1, expectedAgentInfo = None\<rparr>
      in fst (syncUnits c cm (fst (syncExpected c cm s))))"

section \<open>Check-ins\<close>

record UnitObserved =
  uoId :: string
  uoType :: int
  uoState :: UnitState
  uoMessage :: string
  uoPayload :: payload
  uoConfigStateIdx :: u64

record CheckinObserved =
  coPid :: u64
  coUnits :: "UnitObserved list"
  coVersionInfo :: "ComponentVersionInfo option"
  coFeaturesIdx :: u64
  coComponentIdx :: u64

definition observed_key :: "UnitObserved \<Rightarrow> ComponentUnitKey" where
  "observed_key u = \<lparr>UnitType = uoType u, UnitID = uoId u\<rparr>"

text \<open>A reported unit: one in error stays failed, one that is not expected is failed, unless it reports
  that it has stopped; otherwise the report is shown.\<close>

definition checkin_unit ::
  "'p client_api \<Rightarrow> ComponentUnitKey set \<Rightarrow> ComponentUnitState option \<Rightarrow> UnitObserved \<Rightarrow> ComponentUnitState \<times> bool" where
  "checkin_unit c expected w u =
     (let e = (case w of None \<Rightarrow> zero_unit | Some e \<Rightarrow> e)\<lparr>unitState := uoState u, unitMessage := uoMessage u,
        unitPayload := uoPayload u, configStateIdx := uoConfigStateIdx u\<rparr>
      in if unit_err e \<noteq> None \<and> unitState e \<noteq> UnitStateStopped c
         then show_unit (UnitStateFailed c) (Error (the (unit_err e))) None e
         else if observed_key u \<notin> expected \<and> unitState e \<noteq> UnitStateStopped c
         then show_unit (UnitStateFailed c) unknownMsg None e
         else show_unit (unitState e) (unitMessage e) (unitPayload e) e)"

text \<open>A unit that is not in the check-in.\<close>

definition missing_unit :: "'p client_api \<Rightarrow> ComponentUnitState \<Rightarrow> ComponentUnitState \<times> bool" where
  "missing_unit c u =
     (let e = u\<lparr>unitState := UnitStateStarting c, unitMessage := [], unitPayload := None, configStateIdx := 0\<rparr>
      in case unit_err e of
           Some err \<Rightarrow> show_unit (UnitStateFailed c) (Error err) None e
         | None \<Rightarrow> if State e \<noteq> UnitStateStarting c \<and> State e \<noteq> UnitStateStopped c
             then show_unit (UnitStateFailed c) missingMsg None e else (e, False))"

definition sync_version :: "ComponentVersionInfo option \<Rightarrow> ComponentVersionInfo \<Rightarrow> ComponentVersionInfo \<times> bool" where
  "sync_version w v = (case w of
       None \<Rightarrow> (v, False)
     | Some n \<Rightarrow>
         let a = VersionName n \<noteq> [] \<and> VersionName v \<noteq> VersionName n;
             b = BuildHash n \<noteq> [] \<and> BuildHash v \<noteq> BuildHash n;
             d = VersionMeta n \<noteq> None \<and> diffMeta (VersionMeta v) (VersionMeta n)
         in (v\<lparr>VersionName := (if a then VersionName n else VersionName v),
               BuildHash := (if b then BuildHash n else BuildHash v),
               VersionMeta := (if d then VersionMeta n else VersionMeta v)\<rparr>, a \<or> b \<or> d))"

definition syncCheckin :: "'p client_api \<Rightarrow> CheckinObserved \<Rightarrow> 'p ComponentState \<Rightarrow> 'p ComponentState \<times> bool" where
  "syncCheckin c co s =
     (let (us, ch1) = upsert_each observed_key (checkin_unit c (fst ` set (expectedUnits s))) (coUnits co) (Units s);
          (us', ch2) = rewrite_rest (observed_key ` set (coUnits co)) (missing_unit c) us;
          (v, ch3) = sync_version (coVersionInfo co) (VersionInfo s)
      in (s\<lparr>Pid := coPid co, Units := us', VersionInfo := v, FeaturesIdx := coFeaturesIdx co,
            ComponentIdx := coComponentIdx co\<rparr>,
          Pid s \<noteq> coPid co \<or> ch1 \<or> ch2 \<or> ch3 \<or> FeaturesIdx s \<noteq> coFeaturesIdx co \<or> ComponentIdx s \<noteq> coComponentIdx co))"

definition unsettled :: "'p ComponentState \<Rightarrow> bool" where
  "unsettled s \<longleftrightarrow> length (expectedUnits s) \<noteq> length (Units s)
     \<or> list_ex (\<lambda>(k, e). case map_of (Units s) k of
          None \<Rightarrow> True
        | Some ob \<Rightarrow> configStateIdx ob \<noteq> exp_configStateIdx e \<or> exp_state e \<noteq> State ob) (expectedUnits s)
     \<or> FeaturesIdx s \<noteq> expectedFeaturesIdx s \<or> ComponentIdx s \<noteq> expectedComponentIdx s"

record 'p UnitExpected =
  ueId :: string
  ueType :: int
  ueState :: UnitState
  ueLogLevel :: int
  ueConfigStateIdx :: u64
  ueConfig :: "'p option"

record 'p CheckinExpected =
  ceUnits :: "'p UnitExpected list"
  ceFeatures :: "'p option"
  ceFeaturesIdx :: u64
  ceComponent :: "'p option"
  ceComponentIdx :: u64
  ceAgentInfo :: "'p option"

text \<open>None is a unit in error that is left out.\<close>

definition unit_expected ::
  "'p client_api \<Rightarrow> ComponentUnitState option \<Rightarrow> ComponentUnitKey \<times> 'p expectedUnitState \<Rightarrow> 'p UnitExpected option" where
  "unit_expected c w x = (case x of (k, u) \<Rightarrow>
     let e = \<lparr>ueId = UnitID k, ueType = UnitType k, ueState = exp_state u, ueLogLevel = exp_logLevel u,
            ueConfigStateIdx = exp_configStateIdx u,
            ueConfig = (case w of Some ob \<Rightarrow> if configStateIdx ob \<noteq> exp_configStateIdx u then exp_config u else None
                          | None \<Rightarrow> exp_config u)\<rparr>
     in if exp_err u = None then Some e
        else (case w of
            None \<Rightarrow> None
          | Some ob \<Rightarrow> if unitState ob = UnitStateStopped c \<or> configStateIdx ob = 0 then None
              else Some (e\<lparr>ueState := UnitStateStopped c, ueConfigStateIdx := configStateIdx ob, ueConfig := None\<rparr>)))"

definition toCheckinExpected :: "'p client_api \<Rightarrow> 'p ComponentState \<Rightarrow> 'p CheckinExpected" where
  "toCheckinExpected c s = \<lparr>
     ceUnits = List.map_filter (\<lambda>x. unit_expected c (map_of (Units s) (fst x)) x) (expectedUnits s),
     ceFeatures = expectedFeatures s, ceFeaturesIdx = expectedFeaturesIdx s,
     ceComponent = expectedComponent s, ceComponentIdx = expectedComponentIdx s,
     ceAgentInfo = expectedAgentInfo s\<rparr>"

section \<open>Stopping and forcing\<close>

definition cleanupStopped :: "'p client_api \<Rightarrow> 'p ComponentState \<Rightarrow> 'p ComponentState \<times> bool" where
  "cleanupStopped c s =
     (let stopped = (\<lambda>(k, e). exp_state e = UnitStateStopped c \<and> (case map_of (Units s) k of
            None \<Rightarrow> False | Some ob \<Rightarrow> unitState ob = UnitStateStopped c));
          gone = fst ` set (filter stopped (expectedUnits s));
          es = filter (\<lambda>(k, _). k \<notin> gone) (expectedUnits s);
          us = filter (\<lambda>(k, _). k \<notin> gone) (Units s);
          stray = (\<lambda>(k, u). k \<notin> fst ` set es \<and> State u = UnitStateStopped c)
      in (s\<lparr>expectedUnits := es, Units := filter (\<lambda>x. \<not> stray x) us\<rparr>, gone \<noteq> {} \<or> list_ex stray us))"

definition force_unit :: "'p client_api \<Rightarrow> UnitState \<Rightarrow> string \<Rightarrow> ComponentUnitState \<Rightarrow> ComponentUnitState \<times> bool" where
  "force_unit c st msg u =
     (case unit_err u of
        Some err \<Rightarrow> if st \<noteq> UnitStateStopped c then show_unit (UnitStateFailed c) (Error err) None u
          else show_unit st msg None u
      | None \<Rightarrow> show_unit st msg None u)"

definition compState :: "UnitState \<Rightarrow> string \<Rightarrow> 'p ComponentState \<Rightarrow> 'p ComponentState \<times> bool" where
  "compState st msg s =
     (if CState s \<noteq> st \<or> CMessage s \<noteq> msg then (s\<lparr>CState := st, CMessage := msg\<rparr>, True) else (s, False))"

definition forceState :: "'p client_api \<Rightarrow> UnitState \<Rightarrow> string \<Rightarrow> 'p ComponentState \<Rightarrow> 'p ComponentState \<times> bool" where
  "forceState c st msg s =
     (let ch1 = (CState s \<noteq> st \<or> CMessage s \<noteq> msg);
          (us, ch2) = rewrite_rest {} (force_unit c st msg) (Units s)
      in (s\<lparr>CState := st, CMessage := msg, Units := us\<rparr>, ch1 \<or> ch2))"

definition forceExpectedState :: "UnitState \<Rightarrow> 'p ComponentState \<Rightarrow> 'p ComponentState" where
  "forceExpectedState st s =
     s\<lparr>expectedUnits := fst (rewrite_rest {} (\<lambda>e. (e\<lparr>exp_state := st\<rparr>, exp_state e \<noteq> st)) (expectedUnits s))\<rparr>"

end
