(* ===== verification/Component_Props.thy ===== *)
theory Component_Props
  imports Component_State
begin

text \<open>
  Correctness of the component state: every synchronisation settles, a unit whose configuration is
  in error never looks healthy, and a component that does what it is told ends up in the state
  the agent expects.
\<close>

section \<open>The loops settle\<close>

lemma errors_is_refl [simp]: "errors_is e e"
  by (cases e) simp

lemma errors_Is_refl [simp]: "errors_Is e e"
  by (cases e) (simp_all add: errors_Is_def)

lemma diffPayload_None [simp]: "diffPayload p None \<longleftrightarrow> p \<noteq> None"
  by (cases p) (simp_all add: diffPayload_def)

definition comparable :: "payload \<Rightarrow> bool" where
  "comparable p \<longleftrightarrow> \<not> diffPayload p p"

lemma comparable_None [simp]: "comparable None"
  by (simp add: comparable_def)

lemma show_unit_twice:
  assumes "comparable pl" "show_unit st msg pl u = (u', ch)"
  shows "show_unit st msg pl u' = (u', False)"
  using assms by (auto simp: show_unit_def comparable_def split: if_splits)

lemma show_unit_other [simp]:
  "unit_err (fst (show_unit st msg pl u)) = unit_err u"
  "unitState (fst (show_unit st msg pl u)) = unitState u"
  "unitMessage (fst (show_unit st msg pl u)) = unitMessage u"
  "unitPayload (fst (show_unit st msg pl u)) = unitPayload u"
  "configStateIdx (fst (show_unit st msg pl u)) = configStateIdx u"
  "State (fst (show_unit st msg pl u)) = st"
  "Message (fst (show_unit st msg pl u)) = msg"
  by (simp_all add: show_unit_def)

interpretation ex: settling_loop unit_key "expected_unit c" "\<lambda>u. protoEqual c (Config u) (Config u)"
  by unfold_locales (auto simp: expected_unit_def Let_def split: option.splits prod.splits if_splits)

interpretation ob: settling_loop unit_key "observed_unit c" "\<lambda>u. True"
proof
  fix u :: "'a Unit" and w
  show "observed_unit c (Some (fst (observed_unit c w u))) u = (fst (observed_unit c w u), False)"
    by (cases w; cases "Err u") (simp_all add: observed_unit_def Let_def show_unit_def split: prod.splits)
qed

lemma report_again:
  assumes "v = u\<lparr>unitState := a, unitMessage := b, unitPayload := p, configStateIdx := i\<rparr>"
  shows "(fst (show_unit st msg pl v))\<lparr>unitState := a, unitMessage := b, unitPayload := p, configStateIdx := i\<rparr>
    = fst (show_unit st msg pl v)"
  by (simp add: assms show_unit_def)

lemma show_again: "comparable pl \<Longrightarrow> show_unit st msg pl (fst (show_unit st msg pl u)) = (fst (show_unit st msg pl u), False)"
  using show_unit_twice[of pl st msg u] by (metis prod.collapse)

text \<open>What a check-in makes a unit show, given the error of its configuration.\<close>

definition shown_on_checkin :: "'p client_api \<Rightarrow> ComponentUnitKey set \<Rightarrow> UnitObserved \<Rightarrow> go_error option \<Rightarrow> UnitState \<times> string \<times> payload" where
  "shown_on_checkin c ks u err =
     (if err \<noteq> None \<and> uoState u \<noteq> UnitStateStopped c then (UnitStateFailed c, Error (the err), None)
      else if observed_key u \<notin> ks \<and> uoState u \<noteq> UnitStateStopped c then (UnitStateFailed c, unknownMsg, None)
      else (uoState u, uoMessage u, uoPayload u))"

definition report :: "ComponentUnitState option \<Rightarrow> UnitObserved \<Rightarrow> ComponentUnitState" where
  "report w u = (case w of None \<Rightarrow> zero_unit | Some e \<Rightarrow> e)\<lparr>unitState := uoState u, unitMessage := uoMessage u,
    unitPayload := uoPayload u, configStateIdx := uoConfigStateIdx u\<rparr>"

lemma checkin_unit_shows:
  "checkin_unit c ks w u = (case shown_on_checkin c ks u (unit_err (report w u)) of (st, msg, pl) \<Rightarrow> show_unit st msg pl (report w u))"
  unfolding checkin_unit_def report_def[symmetric]
  by (simp add: shown_on_checkin_def Let_def) (simp add: report_def)

interpretation ck: settling_loop observed_key "checkin_unit c ks" "\<lambda>u. comparable (uoPayload u)"
proof
  fix u :: UnitObserved and w
  assume p: "comparable (uoPayload u)"
  obtain st msg pl where t: "shown_on_checkin c ks u (unit_err (report w u)) = (st, msg, pl)" by (metis prod_cases3)
  with p have pl: "comparable pl" by (auto simp: shown_on_checkin_def split: if_splits)
  have "report (Some (fst (show_unit st msg pl (report w u)))) u = fst (show_unit st msg pl (report w u))"
    using report_again[OF report_def] by (simp add: report_def)
  then show "checkin_unit c ks (Some (fst (checkin_unit c ks w u))) u = (fst (checkin_unit c ks w u), False)"
    by (simp add: checkin_unit_shows t show_again[OF pl])
qed

lemma stop_expected_twice: "stop_expected c (fst (stop_expected c e)) = (fst (stop_expected c e), False)"
  by (simp add: stop_expected_def)

lemma stop_observed_twice: "stop_observed c (fst (stop_observed c u)) = (fst (stop_observed c u), False)"
  by (simp add: stop_observed_def)

lemma missing_unit_twice: "missing_unit c (fst (missing_unit c u)) = (fst (missing_unit c u), False)"
  by (cases "unit_err u") (auto simp: missing_unit_def Let_def show_unit_def)

lemma sync_version_twice: "sync_version w (fst (sync_version w v)) = (fst (sync_version w v), False)"
  by (cases w) (auto simp: sync_version_def Let_def diffMeta_def split: option.splits)

section \<open>Synchronising twice\<close>

definition good_component :: "'p client_api \<Rightarrow> 'p Component \<Rightarrow> bool" where
  "good_component c cm \<longleftrightarrow> distinct (map unit_key (CompUnits cm)) \<and> (\<forall>p. protoEqual c p p)"

definition good_checkin :: "CheckinObserved \<Rightarrow> bool" where
  "good_checkin co \<longleftrightarrow> distinct (map observed_key (coUnits co)) \<and> (\<forall>u\<in>set (coUnits co). comparable (uoPayload u))"

lemma syncExpected_twice:
  assumes "good_component c cm"
  shows "syncExpected c cm (fst (syncExpected c cm s)) = (fst (syncExpected c cm s), False)"
proof -
  have d: "distinct (map unit_key (CompUnits cm))" "\<And>p. protoEqual c p p"
    using assms by (simp_all add: good_component_def)
  let ?m = "fst (rewrite_rest (unit_key ` set (CompUnits cm)) (stop_expected c)
    (fst (upsert_each unit_key (expected_unit c) (CompUnits cm) (expectedUnits s))))"
  have "upsert_each unit_key (expected_unit c) (CompUnits cm) ?m = (?m, False)"
    "rewrite_rest (unit_key ` set (CompUnits cm)) (stop_expected c) ?m = (?m, False)"
    using ex.loops_twice[OF d(1) _ stop_expected_twice[of c] refl] d(2) by blast+
  then show ?thesis
    by (simp add: syncExpected_def Let_def case_prod_unfold d(2))
qed

lemma syncUnits_twice:
  assumes "good_component c cm"
  shows "syncUnits c cm (fst (syncUnits c cm s)) = (fst (syncUnits c cm s), False)"
proof -
  have d: "distinct (map unit_key (CompUnits cm))" "\<And>p. protoEqual c p p"
    using assms by (simp_all add: good_component_def)
  let ?m = "fst (rewrite_rest (unit_key ` set (CompUnits cm)) (stop_observed c)
    (fst (upsert_each unit_key (observed_unit c) (CompUnits cm) (Units s))))"
  have "upsert_each unit_key (observed_unit c) (CompUnits cm) ?m = (?m, False)"
    "rewrite_rest (unit_key ` set (CompUnits cm)) (stop_observed c) ?m = (?m, False)"
    using ob.loops_twice[OF d(1) _ stop_observed_twice[of c] refl] by blast+
  then show ?thesis
    by (simp add: syncUnits_def Let_def case_prod_unfold d(2))
qed

lemma syncCheckin_twice:
  assumes "good_checkin co"
  shows "syncCheckin c co (fst (syncCheckin c co s)) = (fst (syncCheckin c co s), False)"
proof -
  have d: "distinct (map observed_key (coUnits co))" "\<forall>u\<in>set (coUnits co). comparable (uoPayload u)"
    using assms by (simp_all add: good_checkin_def)
  let ?k = "fst ` set (expectedUnits s)"
  let ?m = "fst (rewrite_rest (observed_key ` set (coUnits co)) (missing_unit c)
    (fst (upsert_each observed_key (checkin_unit c ?k) (coUnits co) (Units s))))"
  have "upsert_each observed_key (checkin_unit c ?k) (coUnits co) ?m = (?m, False)"
    "rewrite_rest (observed_key ` set (coUnits co)) (missing_unit c) ?m = (?m, False)"
    using ck.loops_twice[OF d missing_unit_twice[of c] refl] by blast+
  then show ?thesis
    by (simp add: syncCheckin_def Let_def case_prod_unfold sync_version_twice)
qed

section \<open>Runs of a component state\<close>

inductive component_run :: "'p client_api \<Rightarrow> 'p ComponentState \<Rightarrow> bool" for c where
  cr_new: "component_run c (newComponentState c cm)"
| cr_expected: "component_run c s \<Longrightarrow> component_run c (fst (syncExpected c cm s))"
| cr_units: "component_run c s \<Longrightarrow> component_run c (fst (syncUnits c cm s))"
| cr_checkin: "component_run c s \<Longrightarrow> component_run c (fst (syncCheckin c co s))"
| cr_cleanup: "component_run c s \<Longrightarrow> component_run c (fst (cleanupStopped c s))"
| cr_force: "component_run c s \<Longrightarrow> component_run c (fst (forceState c st msg s))"
| cr_force_expected: "component_run c s \<Longrightarrow> component_run c (forceExpectedState st s)"
| cr_comp: "component_run c s \<Longrightarrow> component_run c (fst (compState st msg s))"

definition honest :: "'p client_api \<Rightarrow> ComponentUnitState \<Rightarrow> bool" where
  "honest c u \<longleftrightarrow> (unit_err u \<noteq> None \<longrightarrow> State u = UnitStateFailed c \<or> State u = UnitStateStopped c)"

definition component_ok :: "'p client_api \<Rightarrow> 'p ComponentState \<Rightarrow> bool" where
  "component_ok c s \<longleftrightarrow> distinct (keys_of (Units s)) \<and> distinct (keys_of (expectedUnits s))
     \<and> all_entries (\<lambda>k. honest c) (Units s)"

lemma filter_get: "distinct (keys_of m) \<Longrightarrow> map_of (filter P m) k = (case map_of m k of
    None \<Rightarrow> None | Some v \<Rightarrow> if P (k, v) then Some v else None)"
  by (induction m) (auto simp: map_of_eq_None_iff rev_image_eqI split: option.split)

lemma all_entries_filter: "distinct (keys_of m) \<Longrightarrow> all_entries P m \<Longrightarrow> all_entries P (filter Q m)"
  by (auto simp: all_entries_def filter_get split: option.splits if_splits)

lemma distinct_filter_keys: "distinct (keys_of m) \<Longrightarrow> distinct (keys_of (filter P m))"
  by (induction m) auto

lemma honest_observed: "honest c (fst (observed_unit c w u))"
  by (cases "Err u") (auto simp: honest_def observed_unit_def Let_def case_prod_unfold)

lemma honest_checkin: "(\<And>v. w = Some v \<Longrightarrow> honest c v) \<Longrightarrow> honest c (fst (checkin_unit c ks w u))"
  by (auto simp: honest_def checkin_unit_shows shown_on_checkin_def report_def)

lemma honest_others:
  "honest c u \<Longrightarrow> honest c (fst (stop_observed c u))"
  "honest c u \<Longrightarrow> honest c (fst (missing_unit c u))"
  "honest c u \<Longrightarrow> honest c (fst (force_unit c st msg u))"
  by (auto simp: honest_def stop_observed_def missing_unit_def force_unit_def Let_def split: option.splits)

lemma syncUnits_ok: "component_ok c s \<Longrightarrow> component_ok c (fst (syncUnits c cm s))"
  by (auto simp: component_ok_def syncUnits_def Let_def case_prod_unfold upsert_distinct
      intro!: rewrite_rest_inv upsert_inv honest_observed honest_others)

lemma syncExpected_ok: "component_ok c s \<Longrightarrow> component_ok c (fst (syncExpected c cm s))"
  by (simp add: component_ok_def syncExpected_def Let_def case_prod_unfold upsert_distinct)

lemma syncCheckin_ok: "component_ok c s \<Longrightarrow> component_ok c (fst (syncCheckin c co s))"
  by (auto simp: component_ok_def syncCheckin_def Let_def case_prod_unfold upsert_distinct
      intro!: rewrite_rest_inv upsert_inv honest_checkin honest_others)

lemma newComponentState_ok: "component_ok c (newComponentState c cm)"
  unfolding newComponentState_def Let_def
  by (intro syncUnits_ok syncExpected_ok) (simp add: component_ok_def)

lemma other_ops_ok:
  assumes "component_ok c s"
  shows "component_ok c (fst (cleanupStopped c s))" "component_ok c (fst (forceState c st msg s))"
    "component_ok c (forceExpectedState st s)" "component_ok c (fst (compState st msg s))"
  using assms
  by (auto simp: component_ok_def cleanupStopped_def forceState_def forceExpectedState_def compState_def Let_def
      case_prod_unfold distinct_filter_keys all_entries_filter intro!: rewrite_rest_inv honest_others)

lemma component_run_ok: "component_run c s \<Longrightarrow> component_ok c s"
  by (induction rule: component_run.induct)
    (auto intro: newComponentState_ok syncExpected_ok syncUnits_ok syncCheckin_ok other_ops_ok)

section \<open>Settled\<close>

lemma same_keys:
  assumes "distinct (keys_of m)" "distinct (keys_of n)"
  shows "length m = length n \<and> fst ` set m \<subseteq> fst ` set n \<longleftrightarrow> fst ` set m = fst ` set n"
proof -
  have "card (fst ` set m) = length m" "card (fst ` set n) = length n"
    using assms distinct_card[of "keys_of m"] distinct_card[of "keys_of n"] by simp_all
  then show ?thesis by (metis card_subset_eq finite_imageI finite_set subset_refl)
qed

lemma defined_agree:
  "(\<forall>k e. f k = Some e \<longrightarrow> (\<exists>v. g k = Some v \<and> R v e))
    \<longleftrightarrow> dom f \<subseteq> dom g \<and> (\<forall>k e v. f k = Some e \<and> g k = Some v \<longrightarrow> R v e)"
  by (fastforce simp: dom_def)

lemma settled_iff:
  assumes "distinct (keys_of (Units s))" "distinct (keys_of (expectedUnits s))"
  shows "\<not> unsettled s \<longleftrightarrow> fst ` set (Units s) = fst ` set (expectedUnits s)
    \<and> (\<forall>k e ob. map_of (expectedUnits s) k = Some e \<and> map_of (Units s) k = Some ob
         \<longrightarrow> configStateIdx ob = exp_configStateIdx e \<and> State ob = exp_state e)
    \<and> FeaturesIdx s = expectedFeaturesIdx s \<and> ComponentIdx s = expectedComponentIdx s"
proof -
  let ?R = "\<lambda>ob e. configStateIdx ob = exp_configStateIdx e \<and> State ob = exp_state e"
  have "\<not> list_ex (\<lambda>(k, e). case map_of (Units s) k of None \<Rightarrow> True
        | Some ob \<Rightarrow> configStateIdx ob \<noteq> exp_configStateIdx e \<or> exp_state e \<noteq> State ob) (expectedUnits s)
      \<longleftrightarrow> (\<forall>k e. map_of (expectedUnits s) k = Some e \<longrightarrow> (\<exists>ob. map_of (Units s) k = Some ob \<and> ?R ob e))"
    using assms(2) by (auto simp: list_ex_iff map_of_eq_Some_iff split: option.splits) metis
  also have "\<dots> \<longleftrightarrow> fst ` set (expectedUnits s) \<subseteq> fst ` set (Units s)
      \<and> (\<forall>k e ob. map_of (expectedUnits s) k = Some e \<and> map_of (Units s) k = Some ob \<longrightarrow> ?R ob e)"
    unfolding dom_map_of_conv_image_fst[symmetric] by (rule defined_agree)
  finally show ?thesis
    using same_keys[OF assms(2,1)] by (auto simp: unsettled_def)
qed

section \<open>A component that does what it is told\<close>

text \<open>A check-in that reports every unit of the last message of the agent as it was asked for.\<close>

definition obeys :: "'p CheckinExpected \<Rightarrow> CheckinObserved \<Rightarrow> bool" where
  "obeys ce co \<longleftrightarrow> coFeaturesIdx co = ceFeaturesIdx ce \<and> coComponentIdx co = ceComponentIdx ce
     \<and> distinct (map observed_key (coUnits co))
     \<and> (\<lambda>u. (observed_key u, uoState u, uoConfigStateIdx u)) ` set (coUnits co)
       = (\<lambda>e. (\<lparr>UnitType = ueType e, UnitID = ueId e\<rparr>, ueState e, ueConfigStateIdx e)) ` set (ceUnits ce)"

definition without_errors :: "'p ComponentState \<Rightarrow> bool" where
  "without_errors s \<longleftrightarrow> all_entries (\<lambda>k e. exp_err e = None) (expectedUnits s) \<and> all_entries (\<lambda>k u. unit_err u = None) (Units s)"

lemma expected_without_errors:
  assumes "distinct (keys_of (expectedUnits s))" "all_entries (\<lambda>k e. exp_err e = None) (expectedUnits s)"
  shows "ceUnits (toCheckinExpected c s) = map (\<lambda>(k, e). \<lparr>ueId = UnitID k, ueType = UnitType k, ueState = exp_state e,
      ueLogLevel = exp_logLevel e, ueConfigStateIdx = exp_configStateIdx e,
      ueConfig = (case map_of (Units s) k of Some ob \<Rightarrow> if configStateIdx ob \<noteq> exp_configStateIdx e then exp_config e else None
                          | None \<Rightarrow> exp_config e)\<rparr>) (expectedUnits s)"
proof -
  have "\<forall>x\<in>set (expectedUnits s). exp_err (snd x) = None"
    using assms by (auto simp: all_entries_def map_of_eq_Some_iff)
  then have "List.map_filter (\<lambda>x. unit_expected c (map_of (Units s) (fst x)) x) xs = map (\<lambda>(k, e). \<lparr>ueId = UnitID k, ueType = UnitType k, ueState = exp_state e,
      ueLogLevel = exp_logLevel e, ueConfigStateIdx = exp_configStateIdx e,
      ueConfig = (case map_of (Units s) k of Some ob \<Rightarrow> if configStateIdx ob \<noteq> exp_configStateIdx e then exp_config e else None
                          | None \<Rightarrow> exp_config e)\<rparr>) xs"
    if "set xs \<subseteq> set (expectedUnits s)" for xs
    using that by (induction xs) (auto simp: List.map_filter_simps unit_expected_def Let_def)
  then show ?thesis by (simp add: toCheckinExpected_def)
qed

lemma key_surj: "\<lparr>UnitType = UnitType k, UnitID = UnitID k\<rparr> = k"
  by (cases k) simp

lemma obeyed_units:
  assumes "distinct (keys_of (expectedUnits s))" "all_entries (\<lambda>k e. exp_err e = None) (expectedUnits s)"
    and "obeys (toCheckinExpected c s) co"
  shows "(\<lambda>u. (observed_key u, uoState u, uoConfigStateIdx u)) ` set (coUnits co)
    = (\<lambda>(k, e). (k, exp_state e, exp_configStateIdx e)) ` set (expectedUnits s)"
  using assms(3) unfolding obeys_def expected_without_errors[OF assms(1,2)]
  by (simp add: image_image case_prod_unfold key_surj)

lemma syncCheckin_unit:
  assumes "distinct (map observed_key (coUnits co))" "u \<in> set (coUnits co)"
  shows "map_of (Units (fst (syncCheckin c co s))) (observed_key u)
    = Some (fst (checkin_unit c (fst ` set (expectedUnits s)) (map_of (Units s) (observed_key u)) u))"
  using assms by (simp add: syncCheckin_def Let_def case_prod_unfold rewrite_rest_get upsert_touched)

lemma syncCheckin_keys:
  "fst ` set (Units (fst (syncCheckin c co s))) = fst ` set (Units s) \<union> observed_key ` set (coUnits co)"
proof -
  let ?us = "upsert_each observed_key (checkin_unit c (fst ` set (expectedUnits s))) (coUnits co) (Units s)"
  have "keys_of (Units (fst (syncCheckin c co s))) = keys_of (fst ?us)"
    by (simp add: syncCheckin_def Let_def case_prod_unfold)
  then show ?thesis by (metis set_map upsert_keys)
qed

lemma syncCheckin_frame [simp]:
  "expectedUnits (fst (syncCheckin c co s)) = expectedUnits s"
  "FeaturesIdx (fst (syncCheckin c co s)) = coFeaturesIdx co"
  "ComponentIdx (fst (syncCheckin c co s)) = coComponentIdx co"
  "expectedFeaturesIdx (fst (syncCheckin c co s)) = expectedFeaturesIdx s"
  "expectedComponentIdx (fst (syncCheckin c co s)) = expectedComponentIdx s"
  by (simp_all add: syncCheckin_def Let_def case_prod_unfold)

lemma obedient_unit:
  assumes "obeys (toCheckinExpected c s) co" "without_errors s" "distinct (keys_of (expectedUnits s))"
    and e: "map_of (expectedUnits s) k = Some e"
  shows "\<exists>ob. map_of (Units (fst (syncCheckin c co s))) k = Some ob
    \<and> configStateIdx ob = exp_configStateIdx e \<and> State ob = exp_state e"
proof -
  have ne: "all_entries (\<lambda>k e. exp_err e = None) (expectedUnits s)" "all_entries (\<lambda>k u. unit_err u = None) (Units s)"
    using assms(2) by (simp_all add: without_errors_def)
  have ke: "(k, e) \<in> set (expectedUnits s)" using e by (rule map_of_SomeD)
  then have "(k, exp_state e, exp_configStateIdx e) \<in> (\<lambda>u. (observed_key u, uoState u, uoConfigStateIdx u)) ` set (coUnits co)"
    unfolding obeyed_units[OF assms(3) ne(1) assms(1)] by force
  then obtain u where u: "u \<in> set (coUnits co)" "observed_key u = k" "uoState u = exp_state e" "uoConfigStateIdx u = exp_configStateIdx e"
    by auto
  have "unit_err (report (map_of (Units s) k) u) = None"
    using ne(2) by (auto simp: report_def zero_unit_def all_entries_def split: option.split)
  moreover have "k \<in> fst ` set (expectedUnits s)" using ke by force
  ultimately have "State (fst (checkin_unit c (fst ` set (expectedUnits s)) (map_of (Units s) k) u)) = uoState u"
    "configStateIdx (fst (checkin_unit c (fst ` set (expectedUnits s)) (map_of (Units s) k) u)) = uoConfigStateIdx u"
    using u(2) by (simp_all add: checkin_unit_shows shown_on_checkin_def) (simp add: report_def)
  then show ?thesis
    using syncCheckin_unit[of co u c s] assms(1) u by (simp add: obeys_def)
qed

lemma obedient_settles:
  assumes "component_ok c s" "without_errors s" "fst ` set (Units s) \<subseteq> fst ` set (expectedUnits s)"
    and "obeys (toCheckinExpected c s) co"
  shows "\<not> unsettled (fst (syncCheckin c co s))"
proof -
  have d: "distinct (keys_of (expectedUnits s))" "distinct (keys_of (Units (fst (syncCheckin c co s))))"
    using assms(1) syncCheckin_ok[OF assms(1), of co] by (simp_all add: component_ok_def)
  have "observed_key ` set (coUnits co) = fst ` set (expectedUnits s)"
    using arg_cong[OF obeyed_units[OF d(1) _ assms(4)], of "image fst"] assms(2)
    by (simp add: without_errors_def image_image case_prod_unfold)
  then have "fst ` set (Units (fst (syncCheckin c co s))) = fst ` set (expectedUnits s)"
    using assms(3) by (simp add: syncCheckin_keys sup.absorb2)
  moreover have "configStateIdx ob = exp_configStateIdx e \<and> State ob = exp_state e"
    if "map_of (expectedUnits s) k = Some e" "map_of (Units (fst (syncCheckin c co s))) k = Some ob" for k e ob
    using obedient_unit[OF assms(4,2) d(1) that(1)] that(2) by simp
  ultimately show ?thesis
    using settled_iff[OF d(2)] d(1) assms(4) by (simp add: obeys_def toCheckinExpected_def) blast
qed

section \<open>A sample component\<close>

definition sample_client :: "nat client_api" where
  "sample_client = \<lparr>UnitStateStarting = 0, UnitStateHealthy = 2, UnitStateDegraded = 3, UnitStateFailed = 4,
     UnitStateStopping = 5, UnitStateStopped = 6, protoEqual = (=)\<rparr>"

definition sample_unit :: "string \<Rightarrow> go_error option \<Rightarrow> nat Unit" where
  "sample_unit i err = \<lparr>ID = i, Type = 0, LogLevel = 2, Config = Some 7, Err = err\<rparr>"

definition sample_component :: "nat Unit list \<Rightarrow> nat Component" where
  "sample_component us = \<lparr>CompUnits = us, CompFeatures = Some 1, CompComponent = None, CompAgentInfo = None\<rparr>"

definition sample_report :: "string \<Rightarrow> UnitState \<Rightarrow> u64 \<Rightarrow> UnitObserved" where
  "sample_report i st idx = \<lparr>uoId = i, uoType = 0, uoState = st, uoMessage = [], uoPayload = None, uoConfigStateIdx = idx\<rparr>"

definition sample_checkin :: "UnitObserved list \<Rightarrow> u64 \<Rightarrow> u64 \<Rightarrow> CheckinObserved" where
  "sample_checkin us fi ci = \<lparr>coPid = 1, coUnits = us, coVersionInfo = None, coFeaturesIdx = fi, coComponentIdx = ci\<rparr>"

section \<open>The properties\<close>

text \<open>Synchronising with the same component definition or with the same check-in a second time changes
  nothing and reports no change, so an agent that is told the same again sends nothing.\<close>

theorem synchronising_twice_changes_nothing:
  assumes "good_component c cm" "good_checkin co"
  shows "syncExpected c cm (fst (syncExpected c cm s)) = (fst (syncExpected c cm s), False)
    \<and> syncUnits c cm (fst (syncUnits c cm s)) = (fst (syncUnits c cm s), False)
    \<and> syncCheckin c co (fst (syncCheckin c co s)) = (fst (syncCheckin c co s), False)"
  using syncExpected_twice[OF assms(1)] syncUnits_twice[OF assms(1)] syncCheckin_twice[OF assms(2)] by blast

theorem synchronising_twice_changes_nothing_witness:
  "syncUnits sample_client (sample_component [sample_unit ''a'' None])
     (newComponentState sample_client (sample_component [sample_unit ''a'' None]))
   = (newComponentState sample_client (sample_component [sample_unit ''a'' None]), False)"
proof -
  let ?cm = "sample_component [sample_unit ''a'' None]"
  have "good_component sample_client ?cm" "good_checkin (sample_checkin [] 1 1)"
    by (simp_all add: good_component_def good_checkin_def sample_component_def sample_client_def sample_checkin_def)
  from synchronising_twice_changes_nothing[OF this] show ?thesis
    unfolding newComponentState_def Let_def by blast
qed

text \<open>C15: Whatever is configured, reported and forced, in any order, a unit whose configuration is in error
  is shown as failed, or as stopped once it has stopped, and never as healthy.\<close>

theorem unit_in_error_is_shown_failed:
  assumes "component_run c s" "map_of (Units s) k = Some u" "unit_err u \<noteq> None"
  shows "State u = UnitStateFailed c \<or> State u = UnitStateStopped c"
  using component_run_ok[OF assms(1)] assms(2,3) by (auto simp: component_ok_def all_entries_def honest_def)

lemma sample_error_unit:
  defines "s \<equiv> fst (syncCheckin sample_client (sample_checkin [sample_report ''a'' 2 1] 1 1)
     (newComponentState sample_client (sample_component [sample_unit ''a'' (Some (GoError 0 ''bad'' []))])))"
  shows "\<exists>u. map_of (Units s) \<lparr>UnitType = 0, UnitID = ''a''\<rparr> = Some u \<and> unit_err u \<noteq> None \<and> unitState u = 2"
  by (simp add: s_def newComponentState_def syncUnits_def syncExpected_def syncCheckin_def Let_def sample_component_def
      sample_unit_def sample_checkin_def sample_report_def observed_unit_def expected_unit_def unit_key_def observed_key_def
      sample_client_def errors_Is_def show_unit_def zero_unit_def rewrite_rest_def checkin_unit_def sync_version_def)

theorem unit_in_error_is_shown_failed_witness:
  "\<exists>u. map_of (Units (fst (syncCheckin sample_client (sample_checkin [sample_report ''a'' 2 1] 1 1)
     (newComponentState sample_client (sample_component [sample_unit ''a'' (Some (GoError 0 ''bad'' []))])))))
     \<lparr>UnitType = 0, UnitID = ''a''\<rparr> = Some u \<and> unitState u = 2 \<and> (State u = 4 \<or> State u = 6)"
proof -
  obtain u where "map_of (Units (fst (syncCheckin sample_client (sample_checkin [sample_report ''a'' 2 1] 1 1)
     (newComponentState sample_client (sample_component [sample_unit ''a'' (Some (GoError 0 ''bad'' []))])))))
     \<lparr>UnitType = 0, UnitID = ''a''\<rparr> = Some u" and u: "unit_err u \<noteq> None" "unitState u = 2"
    using sample_error_unit by blast
  moreover from this(1) u(1) have "State u = UnitStateFailed sample_client \<or> State u = UnitStateStopped sample_client"
    by (rule unit_in_error_is_shown_failed[OF cr_checkin[OF cr_new]])
  then have "State u = 4 \<or> State u = 6" by (simp add: sample_client_def)
  ultimately show ?thesis using u(2) by blast
qed



section \<open>Expected states that do not recover\<close>

text \<open>A unit that was expected to stop, or whose configuration was in error, is not expected to be healthy
  again when it comes back or when its error is gone.\<close>

lemma expected_state_never_recovers:
  "exp_state (fst (expected_unit c (Some e) u)) \<in> {exp_state e, UnitStateFailed c}"
  by (auto simp: expected_unit_def Let_def split: if_splits)

end
