(* ===== verification/Command_Runtime.thy ===== *)
theory Command_Runtime
  imports Component_Props Go_Time
begin

text \<open>
  The runtime of a component that is a subprocess, \<^verbatim>\<open>pkg/component/runtime/command.go\<close>. The loop
  of \<^verbatim>\<open>Run\<close> is a step function on events: an action, the exit of a process, a new definition of the
  component, a check-in and a tick of the timer. An event carries what the operating system
  answers: whether the process could be started, and when it exits after a signal. A step
  returns the messages and signals it sends, or None when it dereferences a nil process.
\<close>

datatype actionMode = actionTeardown | actionStop | actionStart

record process_info =
  proc_handle :: nat
  PID :: int

text \<open>What the operating system answers: an error found before the start, the started process, and the time and
  exit code of the process after the signals TERM and KILL.\<close>

record os_outcome =
  prepareErr :: "gerror option"
  spawned :: "gerror + process_info"
  termExit :: "(duration \<times> int) option"
  killExit :: "(duration \<times> int) option"

record command_spec =
  checkinPeriod :: duration
  restartPeriod :: duration
  stopTimeout :: duration

datatype 'p effect =
    SendObserved "'p ComponentState"
  | SendExpected "'p CheckinExpected" "CheckinObserved option"
  | Spawned process_info
  | Terminate process_info
  | Kill process_info

datatype 'p event =
    ActionEvent actionMode os_outcome
  | ProcEvent process_info int bool
  | CompEvent "'p Component"
  | CheckinEvent CheckinObserved gtime
  | TickEvent gtime os_outcome

record 'p commandRuntime =
  current :: "'p Component"
  actionState :: actionMode
  proc :: "process_info option"
  cstate :: "'p ComponentState"
  lastCheckin :: gtime
  missedCheckins :: i64
  timer :: duration

definition maxCheckinMisses :: i64 where
  "maxCheckinMisses = 3"

definition quoted :: "int \<Rightarrow> string" where
  "quoted n = CHR 0x27 # itoa n @ [CHR 0x27]"

section \<open>Stopping in time\<close>

definition KillReapTime :: duration where "KillReapTime = 3 * second_ns"
definition ShutdownBuffer :: duration where "ShutdownBuffer = KillReapTime + 2 * second_ns"
definition ProcessStopTimeout :: duration where "ProcessStopTimeout = 30 * second_ns"
definition minGraceTimeout :: duration where "minGraceTimeout = 1 * second_ns"

definition graceTimeout :: "duration \<Rightarrow> duration" where
  "graceTimeout configured =
     (let stop = (if configured > 0 then configured else ProcessStopTimeout); grace = stop - ShutdownBuffer
      in if grace \<le> 0 then minGraceTimeout else grace)"

text \<open>The first exit that the watchers deliver counts. The result is the exit code if one was delivered, whether it was killed, and how long that took.\<close>

definition waitOrKill :: "duration \<Rightarrow> os_outcome \<Rightarrow> int option \<times> bool \<times> duration" where
  "waitOrKill configured w =
     (let grace = graceTimeout configured in
      case termExit w of
        Some (t, code) \<Rightarrow> if t \<le> grace then (Some code, False, t)
          else (case killExit w of
              Some (t', code') \<Rightarrow> if t' \<le> KillReapTime then (Some code', True, grace + t') else (None, True, grace + KillReapTime)
            | None \<Rightarrow> (None, True, grace + KillReapTime))
      | None \<Rightarrow> (case killExit w of
              Some (t', code') \<Rightarrow> if t' \<le> KillReapTime then (Some code', True, grace + t') else (None, True, grace + KillReapTime)
            | None \<Rightarrow> (None, True, grace + KillReapTime)))"

section \<open>The operations\<close>

definition forceCompState ::
  "'p client_api \<Rightarrow> UnitState \<Rightarrow> string \<Rightarrow> 'p commandRuntime \<Rightarrow> 'p commandRuntime \<times> 'p effect list" where
  "forceCompState c st msg r = (case forceState c st msg (cstate r) of
     (s, changed) \<Rightarrow> (r\<lparr>cstate := s\<rparr>, if changed then [SendObserved s] else []))"

definition comp_message :: "'p client_api \<Rightarrow> process_info \<Rightarrow> UnitState \<Rightarrow> i64 \<Rightarrow> string" where
  "comp_message c p st missed =
     (if st = UnitStateHealthy c then ''Healthy: communicating with pid '' @ quoted (PID p)
      else if st = UnitStateDegraded c then
        (if missed = 1 then ''Degraded: pid '' @ quoted (PID p) @ '' missed 1 check-in''
         else ''Degraded: pid '' @ quoted (PID p) @ '' missed '' @ itoa missed @ '' check-ins'')
      else ''Unknown'')"

text \<open>\<^verbatim>\<open>compState\<close> with the process it names.\<close>

definition runtime_compState ::
  "'p client_api \<Rightarrow> process_info \<Rightarrow> UnitState \<Rightarrow> 'p commandRuntime \<Rightarrow> 'p commandRuntime \<times> 'p effect list" where
  "runtime_compState c p st r = (case compState st (comp_message c p st (missedCheckins r)) (cstate r) of
     (s, changed) \<Rightarrow> (r\<lparr>cstate := s\<rparr>, if changed then [SendObserved s] else []))"

definition start_process ::
  "'p client_api \<Rightarrow> os_outcome \<Rightarrow> 'p commandRuntime \<Rightarrow> gerror option \<times> 'p commandRuntime \<times> 'p effect list" where
  "start_process c w r = (case proc r of
       Some _ \<Rightarrow> (None, r, [])
     | None \<Rightarrow> (case prepareErr w of
           Some err \<Rightarrow> (Some err, r, [])
         | None \<Rightarrow>
             let r1 = r\<lparr>lastCheckin := zero_time, missedCheckins := 0\<rparr> in
             case spawned w of
               Inl err \<Rightarrow> (Some (''failed to start process: '' @ err), r1, [])
             | Inr p \<Rightarrow> (case forceCompState c (UnitStateStarting c) (''Starting: spawned pid '' @ quoted (PID p)) (r1\<lparr>proc := Some p\<rparr>) of
                 (r2, out) \<Rightarrow> (None, r2, Spawned p # out))))"

text \<open>A start whose error is shown.\<close>

definition start_or_fail :: "'p client_api \<Rightarrow> os_outcome \<Rightarrow> 'p commandRuntime \<Rightarrow> 'p commandRuntime \<times> 'p effect list" where
  "start_or_fail c w r = (case start_process c w r of
       (None, r', out) \<Rightarrow> (r', out)
     | (Some err, r', out) \<Rightarrow> apsnd ((@) out) (forceCompState c (UnitStateFailed c) (''Failed: '' @ err) r'))"

definition stop_process ::
  "'p client_api \<Rightarrow> command_spec \<Rightarrow> os_outcome \<Rightarrow> 'p commandRuntime \<Rightarrow> 'p commandRuntime \<times> 'p effect list" where
  "stop_process c spec w r = (case proc r of
       None \<Rightarrow>
         if CState (cstate r) \<noteq> UnitStateStopped c
         then if CState (cstate r) = UnitStateFailed c
           then forceCompState c (UnitStateStopped c) ''Stopped: never started successfully'' r
           else forceCompState c (UnitStateStopped c) ''Stopped: already stopped'' r
         else (r, [])
     | Some p \<Rightarrow> (case waitOrKill (stopTimeout spec) w of
         (code, killed, _) \<Rightarrow>
           apsnd ((@) (Terminate p # (if killed then [Kill p] else [])))
             (forceCompState c (UnitStateStopped c) (''Stopped: pid '' @ quoted (PID p) @ '' exited with code ''
                @ quoted (case code of None \<Rightarrow> - 1 | Some x \<Rightarrow> x)) (r\<lparr>proc := None\<rparr>))))"

text \<open>Whether the process is to be started again; \<open>allowed\<close> is the answer of the rate limiter, False without one.\<close>

definition handleProc ::
  "'p client_api \<Rightarrow> process_info \<Rightarrow> int \<Rightarrow> bool \<Rightarrow> 'p commandRuntime \<Rightarrow> bool \<times> 'p commandRuntime \<times> 'p effect list" where
  "handleProc c p code allowed r = (case actionState r of
       actionStart \<Rightarrow> (True,
         if allowed then forceCompState c (UnitStateStopped c)
           (''Suppressing FAILED state due to restart for '' @ quoted (PID p) @ '' exited with code '' @ quoted code) r
         else forceCompState c (UnitStateFailed c) (''Failed: pid '' @ quoted (PID p) @ '' exited with code '' @ quoted code) r)
     | _ \<Rightarrow> (False,
         forceCompState c (UnitStateStopped c) (''Stopped: pid '' @ quoted (PID p) @ '' exited with code '' @ quoted code) r))"

definition processCheckin ::
  "'p client_api \<Rightarrow> CheckinObserved \<Rightarrow> gtime \<Rightarrow> 'p commandRuntime \<Rightarrow> ('p commandRuntime \<times> 'p effect list) option" where
  "processCheckin c co ts r =
     (let s = cstate r in
      if actionState r \<noteq> actionStart \<or> CState s = UnitStateStopping c \<or> CState s = UnitStateStopped c then Some (r, [])
      else if CState s = UnitStateStarting c \<and> proc r = None then None
      else
        let first = (CState s = UnitStateStarting c);
            s1 = (if first then s\<lparr>CState := UnitStateHealthy c,
              CMessage := ''Healthy: communicating with pid '' @ quoted (PID (the (proc r)))\<rparr> else s);
            (s2, synced) = syncCheckin c co s1;
            sendExpected = (lastCheckin r = zero_time \<or> unsettled s2);
            (s3, cleaned) = cleanupStopped c s2
        in Some (r\<lparr>lastCheckin := ts, cstate := s3\<rparr>,
             (if sendExpected then [SendExpected (toCheckinExpected c s2) (Some co)] else [])
             @ (if first \<or> synced then [SendObserved s2] else [])
             @ (if cleaned then [SendObserved s3] else [])))"

definition new_component :: "'p client_api \<Rightarrow> 'p Component \<Rightarrow> 'p commandRuntime \<Rightarrow> 'p commandRuntime \<times> 'p effect list" where
  "new_component c cm r =
     (let (s1, sendExpected) = syncExpected c cm (cstate r);
          (s2, changed) = syncUnits c cm s1
      in (r\<lparr>current := cm, cstate := s2\<rparr>,
          (if sendExpected \<or> unsettled s2 then [SendExpected (toCheckinExpected c s2) None] else [])
          @ (if changed then [SendObserved s2] else [])))"

text \<open>\<^verbatim>\<open>Sub\<close> of two times saturates.\<close>

definition time_sub :: "gtime \<Rightarrow> gtime \<Rightarrow> duration" where
  "time_sub t u = max min_i64 (min max_i64 (t - u))"

definition tick ::
  "'p client_api \<Rightarrow> command_spec \<Rightarrow> gtime \<Rightarrow> os_outcome \<Rightarrow> 'p commandRuntime \<Rightarrow> 'p commandRuntime \<times> 'p effect list" where
  "tick c spec ts w r =
     (let r0 = r\<lparr>timer := checkinPeriod spec\<rparr> in
      if actionState r \<noteq> actionStart then (r0, [])
      else case proc r of
        None \<Rightarrow> start_or_fail c w r0
      | Some p \<Rightarrow>
          let n = (if time_sub ts (lastCheckin r) \<le> checkinPeriod spec then 0 else wrap64 (missedCheckins r + 1));
              r1 = r0\<lparr>missedCheckins := n\<rparr>
          in if n = 0 then runtime_compState c p (UnitStateHealthy c) r1
             else if n > 0 \<and> n < maxCheckinMisses then runtime_compState c p (UnitStateDegraded c) r1
             else if n \<ge> maxCheckinMisses then
               apsnd (\<lambda>out. out @ [Kill p]) (forceCompState c (UnitStateFailed c) (''Failed: pid '' @ quoted (PID p)
                 @ '' missed '' @ itoa maxCheckinMisses @ '' check-ins and will be killed'') r1)
             else (r1, []))"

section \<open>The loop\<close>

definition step :: "'p client_api \<Rightarrow> command_spec \<Rightarrow> 'p event \<Rightarrow> 'p commandRuntime \<Rightarrow> ('p commandRuntime \<times> 'p effect list) option" where
  "step c spec ev r = (case ev of
       ActionEvent m w \<Rightarrow> Some (let r1 = r\<lparr>actionState := m\<rparr> in
         if m = actionStart then apfst (\<lambda>r2. r2\<lparr>timer := checkinPeriod spec\<rparr>) (start_or_fail c w r1)
         else stop_process c spec w r1)
     | ProcEvent p code allowed \<Rightarrow> Some (
         if proc r = Some p then (case handleProc c p code allowed (r\<lparr>proc := None\<rparr>) of
           (again, r1, out) \<Rightarrow> (if again then r1\<lparr>timer := restartPeriod spec\<rparr> else r1, out))
         else (r, []))
     | CompEvent cm \<Rightarrow> Some (new_component c cm r)
     | CheckinEvent co ts \<Rightarrow> processCheckin c co ts r
     | TickEvent ts w \<Rightarrow> Some (tick c spec ts w r))"

definition newCommandRuntime :: "'p client_api \<Rightarrow> 'p Component \<Rightarrow> 'p commandRuntime" where
  "newCommandRuntime c cm = \<lparr>current = cm, actionState = actionStop, proc = None, cstate = newComponentState c cm,
     lastCheckin = zero_time, missedCheckins = 0, timer = 0\<rparr>"

definition run_start :: "'p client_api \<Rightarrow> command_spec \<Rightarrow> 'p commandRuntime \<Rightarrow> 'p commandRuntime \<times> 'p effect list" where
  "run_start c spec r = forceCompState c (UnitStateStarting c) ''Starting'' (r\<lparr>timer := checkinPeriod spec\<rparr>)"

end
