(* ===== verification/Runtime_Props.thy ===== *)
theory Runtime_Props
  imports Command_Runtime
begin

text \<open>
  Correctness of the command runtime over every sequence of events: no nil process is ever
  dereferenced, a component that was told to stop has no process and stays stopped, a process
  that stops checking in is killed, and stopping takes a bounded time.
\<close>

definition distinct_states :: "'p client_api \<Rightarrow> bool" where
  "distinct_states c \<longleftrightarrow> distinct [UnitStateStarting c, UnitStateHealthy c, UnitStateDegraded c, UnitStateFailed c,
     UnitStateStopping c, UnitStateStopped c]"

section \<open>Forcing states\<close>

lemma compState_fst: "fst (compState st msg s) = s\<lparr>CState := st, CMessage := msg\<rparr>"
  by (simp add: compState_def)

lemma forceState_CState: "CState (fst (forceState c st msg s)) = st"
  by (simp add: forceState_def Let_def case_prod_unfold)

lemma forceCompState_frame [simp]:
  "proc (fst (forceCompState c st msg r)) = proc r"
  "actionState (fst (forceCompState c st msg r)) = actionState r"
  "CState (cstate (fst (forceCompState c st msg r))) = st"
  by (simp_all add: forceCompState_def case_prod_unfold forceState_CState)

lemma forceCompState_run [simp]: "component_run c (cstate r) \<Longrightarrow> component_run c (cstate (fst (forceCompState c st msg r)))"
  by (simp add: forceCompState_def case_prod_unfold cr_force)

lemma forceCompState_out: "set (snd (forceCompState c st msg r)) \<subseteq> {SendObserved (cstate (fst (forceCompState c st msg r)))}"
  by (auto simp: forceCompState_def case_prod_unfold)

lemma runtime_compState_frame [simp]:
  "proc (fst (runtime_compState c p st r)) = proc r"
  "actionState (fst (runtime_compState c p st r)) = actionState r"
  "missedCheckins (fst (runtime_compState c p st r)) = missedCheckins r"
  "lastCheckin (fst (runtime_compState c p st r)) = lastCheckin r"
  "CState (cstate (fst (runtime_compState c p st r))) = st"
  by (simp_all add: runtime_compState_def case_prod_unfold compState_fst)

lemma runtime_compState_run [simp]: "component_run c (cstate r) \<Longrightarrow> component_run c (cstate (fst (runtime_compState c p st r)))"
  by (simp add: runtime_compState_def case_prod_unfold cr_comp)

lemma runtime_compState_out: "set (snd (runtime_compState c p st r)) \<subseteq> {SendObserved (cstate (fst (runtime_compState c p st r)))}"
  by (auto simp: runtime_compState_def case_prod_unfold)

section \<open>The invariant\<close>

definition runtime_ok :: "'p client_api \<Rightarrow> 'p commandRuntime \<Rightarrow> bool" where
  "runtime_ok c r \<longleftrightarrow> component_run c (cstate r) \<and> (actionState r \<noteq> actionStart \<longrightarrow> proc r = None)
     \<and> (actionState r = actionStart \<and> CState (cstate r) = UnitStateStarting c \<longrightarrow> proc r \<noteq> None)"

lemma start_or_fail_ok:
  assumes "distinct_states c" "component_run c (cstate r)" "actionState r = actionStart"
  shows "runtime_ok c (fst (start_or_fail c w r))"
  using assms
  by (auto simp: start_or_fail_def start_process_def runtime_ok_def distinct_states_def Let_def case_prod_unfold
      split: option.split sum.split)

lemma stop_process_ok:
  assumes "component_run c (cstate r)" "actionState r \<noteq> actionStart"
  shows "runtime_ok c (fst (stop_process c spec w r)) \<and> CState (cstate (fst (stop_process c spec w r))) = UnitStateStopped c"
  using assms
  by (auto simp: stop_process_def runtime_ok_def case_prod_unfold split: option.split)

lemma handleProc_ok:
  assumes "distinct_states c" "component_run c (cstate r)" "proc r = None"
  shows "runtime_ok c (fst (snd (handleProc c p code allowed r)))"
  using assms by (auto simp: handleProc_def runtime_ok_def distinct_states_def split: actionMode.split)

lemma new_component_ok: "runtime_ok c r \<Longrightarrow> runtime_ok c (fst (new_component c cm r))"
proof -
  assume r: "runtime_ok c r"
  have "CState (fst (syncUnits c cm (fst (syncExpected c cm (cstate r))))) = CState (cstate r)"
    by (simp add: syncUnits_def syncExpected_def Let_def case_prod_unfold)
  with r show ?thesis
    by (simp add: runtime_ok_def new_component_def Let_def case_prod_unfold cr_units cr_expected)
qed

lemma tick_ok:
  assumes "distinct_states c" "runtime_ok c r"
  shows "runtime_ok c (fst (tick c spec ts w r))"
proof (cases "actionState r = actionStart \<and> proc r = None")
  case True
  then have "tick c spec ts w r = start_or_fail c w (r\<lparr>timer := checkinPeriod spec\<rparr>)"
    by (simp add: tick_def Let_def)
  then show ?thesis
    using start_or_fail_ok[of c "r\<lparr>timer := checkinPeriod spec\<rparr>" w] assms True by (simp add: runtime_ok_def)
next
  case False
  then show ?thesis
    using assms by (auto simp: tick_def Let_def runtime_ok_def split: option.split)
qed

lemma processCheckin_ok:
  assumes "distinct_states c" "runtime_ok c r"
  shows "\<exists>r' out. processCheckin c co ts r = Some (r', out) \<and> runtime_ok c r'"
proof -
  let ?s = "cstate r"
  let ?msg = "''Healthy: communicating with pid '' @ quoted (PID (the (proc r)))"
  define s1 where "s1 = (if CState ?s = UnitStateStarting c then ?s\<lparr>CState := UnitStateHealthy c, CMessage := ?msg\<rparr> else ?s)"
  have s1: "component_run c s1" "CState s1 \<noteq> UnitStateStarting c"
    using assms cr_comp[of c ?s "UnitStateHealthy c" ?msg]
    by (auto simp: s1_def compState_fst runtime_ok_def distinct_states_def)
  then have "component_run c (fst (cleanupStopped c (fst (syncCheckin c co s1))))"
    by (intro cr_cleanup cr_checkin)
  moreover have "CState (fst (cleanupStopped c (fst (syncCheckin c co s1)))) = CState s1"
    by (simp add: cleanupStopped_def syncCheckin_def Let_def case_prod_unfold)
  ultimately show ?thesis
    using assms(2) s1(2) unfolding processCheckin_def Let_def s1_def[symmetric]
    by (auto simp: runtime_ok_def case_prod_unfold)
qed

lemma step_ok:
  assumes "distinct_states c" "runtime_ok c r"
  shows "\<exists>r' out. step c spec ev r = Some (r', out) \<and> runtime_ok c r'"
proof (cases ev)
  case (ActionEvent m w)
  have run: "component_run c (cstate r)" using assms(2) by (simp add: runtime_ok_def)
  show ?thesis
  proof (cases "m = actionStart")
    case True
    then show ?thesis
      using start_or_fail_ok[OF assms(1), of "r\<lparr>actionState := m\<rparr>" w] run ActionEvent
      by (simp add: step_def runtime_ok_def Let_def apfst_def map_prod_def case_prod_unfold)
  next
    case False
    then show ?thesis
      using stop_process_ok[of c "r\<lparr>actionState := m\<rparr>" spec w] run ActionEvent
      by (simp add: step_def Let_def) (metis prod.collapse)
  qed
next
  case (ProcEvent p code allowed)
  have "runtime_ok c (fst (snd (handleProc c p code allowed (r\<lparr>proc := None\<rparr>))))"
    using handleProc_ok[OF assms(1), of "r\<lparr>proc := None\<rparr>"] assms(2) by (simp add: runtime_ok_def)
  with ProcEvent assms(2) show ?thesis
    by (auto simp: step_def case_prod_unfold runtime_ok_def)
next
  case (CompEvent cm)
  then show ?thesis using new_component_ok[OF assms(2), of cm] by (simp add: step_def) (metis prod.collapse)
next
  case (CheckinEvent co ts)
  then show ?thesis using processCheckin_ok[OF assms] by (simp add: step_def)
next
  case (TickEvent ts w)
  then show ?thesis using tick_ok[OF assms, of spec ts w] by (simp add: step_def) (metis prod.collapse)
qed

section \<open>Runs\<close>

inductive runtime_run :: "'p client_api \<Rightarrow> command_spec \<Rightarrow> 'p commandRuntime \<Rightarrow> bool" for c spec where
  rr_new: "runtime_run c spec (fst (run_start c spec (newCommandRuntime c cm)))"
| rr_step: "runtime_run c spec r \<Longrightarrow> step c spec ev r = Some (r', out) \<Longrightarrow> runtime_run c spec r'"

lemma runtime_run_ok: "runtime_run c spec r \<Longrightarrow> distinct_states c \<Longrightarrow> runtime_ok c r"
proof (induction rule: runtime_run.induct)
  case (rr_new cm)
  then show ?case
    by (simp add: run_start_def newCommandRuntime_def runtime_ok_def cr_new)
next
  case (rr_step r ev r' out)
  then show ?case using step_ok[of c r spec ev] by auto
qed

fun run_events :: "'p client_api \<Rightarrow> command_spec \<Rightarrow> 'p event list \<Rightarrow> 'p commandRuntime \<Rightarrow> ('p commandRuntime \<times> 'p effect list) option" where
  "run_events c spec [] r = Some (r, [])"
| "run_events c spec (ev # evs) r = (case step c spec ev r of
       None \<Rightarrow> None
     | Some (r', out) \<Rightarrow> map_option (apsnd ((@) out)) (run_events c spec evs r'))"

section \<open>Stopped until started\<close>

definition at_rest :: "'p client_api \<Rightarrow> 'p commandRuntime \<Rightarrow> bool" where
  "at_rest c r \<longleftrightarrow> actionState r \<noteq> actionStart \<and> proc r = None \<and> CState (cstate r) = UnitStateStopped c"

definition quiet :: "'p client_api \<Rightarrow> 'p effect list \<Rightarrow> bool" where
  "quiet c out \<longleftrightarrow> (\<forall>e\<in>set out. case e of SendObserved s \<Rightarrow> CState s = UnitStateStopped c
     | SendExpected _ _ \<Rightarrow> True | _ \<Rightarrow> False)"

lemma stop_process_rest: "actionState r \<noteq> actionStart \<Longrightarrow> at_rest c (fst (stop_process c spec w r))"
  by (auto simp: stop_process_def at_rest_def case_prod_unfold split: option.split)

lemma new_component_CState:
  "CState (fst (syncUnits c cm (fst (syncExpected c cm s)))) = CState s"
  by (simp add: syncUnits_def syncExpected_def Let_def case_prod_unfold)

lemma new_component_rest: "at_rest c r \<Longrightarrow> at_rest c (fst (new_component c cm r)) \<and> quiet c (snd (new_component c cm r))"
  by (auto simp: at_rest_def quiet_def new_component_def Let_def case_prod_unfold new_component_CState)

lemma step_rest:
  assumes "at_rest c r" "\<And>w. ev \<noteq> ActionEvent actionStart w"
  shows "\<exists>r' out. step c spec ev r = Some (r', out) \<and> at_rest c r' \<and> quiet c out"
proof (cases ev)
  case (ActionEvent m w)
  with assms(2) have "m \<noteq> actionStart" by auto
  with ActionEvent assms(1) show ?thesis
    by (simp add: step_def stop_process_def at_rest_def quiet_def Let_def)
next
  case (CompEvent cm)
  then show ?thesis using new_component_rest[OF assms(1), of cm] by (simp add: step_def) (metis prod.collapse)
qed (use assms(1) in \<open>simp_all add: step_def tick_def processCheckin_def at_rest_def quiet_def Let_def\<close>)

lemma run_rest:
  assumes "at_rest c r" "\<forall>ev\<in>set evs. \<forall>w. ev \<noteq> ActionEvent actionStart w"
  shows "\<exists>r' out. run_events c spec evs r = Some (r', out) \<and> at_rest c r' \<and> quiet c out"
  using assms
proof (induction evs arbitrary: r)
  case (Cons ev evs)
  obtain r1 out1 where 1: "step c spec ev r = Some (r1, out1)" "at_rest c r1" "quiet c out1"
    using step_rest[of c r ev spec] Cons.prems by auto
  obtain r2 out2 where 2: "run_events c spec evs r1 = Some (r2, out2)" "at_rest c r2" "quiet c out2"
    using Cons.IH[OF 1(2)] Cons.prems by auto
  show ?case
    using 1 2 by (auto simp: quiet_def)
qed (simp add: quiet_def)

section \<open>Silent processes\<close>

lemma forceCompState_no_kill: "Kill p \<notin> set (snd (forceCompState c st msg r))"
  using forceCompState_out[of c st msg r] by auto

lemma runtime_compState_no_kill: "Kill p \<notin> set (snd (runtime_compState c q st r))"
  using runtime_compState_out[of c q st r] by auto

text \<open>The runtime while its process is silent: the number of missed check-ins and the time of the last one.\<close>

definition waiting_for :: "process_info \<Rightarrow> i64 \<Rightarrow> gtime \<Rightarrow> 'p commandRuntime \<Rightarrow> bool" where
  "waiting_for p n t r \<longleftrightarrow> actionState r = actionStart \<and> proc r = Some p \<and> missedCheckins r = n \<and> lastCheckin r = t"

lemma forceCompState_waiting: "waiting_for p n t r \<Longrightarrow> waiting_for p n t (fst (forceCompState c st msg r))"
  by (simp add: waiting_for_def forceCompState_def case_prod_unfold)

lemma runtime_compState_waiting: "waiting_for p n t r \<Longrightarrow> waiting_for p n t (fst (runtime_compState c q st r))"
  by (simp add: waiting_for_def)

lemma late_tick:
  assumes "waiting_for p n t r" "time_sub ts t > checkinPeriod spec" "0 \<le> n" "n < max_i64"
  shows "waiting_for p (n + 1) t (fst (tick c spec ts w r)) \<and> (Kill p \<in> set (snd (tick c spec ts w r)) \<longleftrightarrow> maxCheckinMisses \<le> n + 1)"
proof -
  let ?r = "r\<lparr>timer := checkinPeriod spec, missedCheckins := n + 1\<rparr>"
  have n: "wrap64 (n + 1) = n + 1"
    using assms(3,4) by (intro wrap64_id) (simp add: in_i64_def min_i64_def)
  have r: "waiting_for p (n + 1) t ?r" using assms(1) by (simp add: waiting_for_def)
  have "tick c spec ts w r = (if n + 1 < maxCheckinMisses then runtime_compState c p (UnitStateDegraded c) ?r
      else apsnd (\<lambda>out. out @ [Kill p]) (forceCompState c (UnitStateFailed c) (''Failed: pid '' @ quoted (PID p)
        @ '' missed '' @ itoa maxCheckinMisses @ '' check-ins and will be killed'') ?r))"
    using assms n unfolding tick_def Let_def by (auto simp: waiting_for_def)
  then show ?thesis
    using r by (simp add: forceCompState_waiting runtime_compState_waiting runtime_compState_no_kill)
qed

lemma silent_run:
  assumes "waiting_for p n t r" "\<forall>(ts, w)\<in>set ticks. time_sub ts t > checkinPeriod spec" "0 \<le> n" "n + int (length ticks) \<le> max_i64"
  shows "\<exists>r' out. run_events c spec (map (\<lambda>(ts, w). TickEvent ts w) ticks) r = Some (r', out)
    \<and> waiting_for p (n + int (length ticks)) t r'
    \<and> (Kill p \<in> set out \<longleftrightarrow> ticks \<noteq> [] \<and> maxCheckinMisses \<le> n + int (length ticks))"
  using assms
proof (induction ticks arbitrary: n r)
  case (Cons x ticks)
  obtain ts w where x: "x = (ts, w)" by (cases x)
  obtain r1 out1 where tk: "tick c spec ts w r = (r1, out1)" by fastforce
  have t1: "waiting_for p (n + 1) t r1" "Kill p \<in> set out1 \<longleftrightarrow> maxCheckinMisses \<le> n + 1"
    using late_tick[OF Cons.prems(1), of spec ts c w] Cons.prems x tk by auto
  obtain r' out where r': "run_events c spec (map (\<lambda>(ts, w). TickEvent ts w) ticks) r1 = Some (r', out)"
      "waiting_for p (n + 1 + int (length ticks)) t r'"
      "Kill p \<in> set out \<longleftrightarrow> ticks \<noteq> [] \<and> maxCheckinMisses \<le> n + 1 + int (length ticks)"
    using Cons.IH[OF t1(1)] Cons.prems by auto
  have "run_events c spec (map (\<lambda>(ts, w). TickEvent ts w) (x # ticks)) r = Some (r', out1 @ out)"
    using r'(1) by (simp add: x step_def tk)
  moreover have "Kill p \<in> set (out1 @ out) \<longleftrightarrow> maxCheckinMisses \<le> n + int (length (x # ticks))"
    using r'(3) t1(2) by (cases ticks) auto
  ultimately show ?case
    using r'(2) by (auto simp: ac_simps)
qed simp

section \<open>A sample runtime\<close>

definition sample_spec :: command_spec where
  "sample_spec = \<lparr>checkinPeriod = 30 * second_ns, restartPeriod = 10 * second_ns, stopTimeout = 30 * second_ns\<rparr>"

definition sample_outcome :: os_outcome where
  "sample_outcome = \<lparr>prepareErr = None, spawned = Inr \<lparr>proc_handle = 1, PID = 42\<rparr>, termExit = None, killExit = Some (1, 9)\<rparr>"

definition sample_runtime :: "nat commandRuntime" where
  "sample_runtime = fst (run_start sample_client sample_spec (newCommandRuntime sample_client (sample_component [])))"

definition started_runtime :: "nat commandRuntime" where
  "started_runtime = fst (the (step sample_client sample_spec (ActionEvent actionStart sample_outcome) sample_runtime))"

lemma sample_client_distinct: "distinct_states sample_client"
  by (simp add: distinct_states_def sample_client_def)

lemma started_runtime_step:
  "\<exists>out. step sample_client sample_spec (ActionEvent actionStart sample_outcome) sample_runtime = Some (started_runtime, out)
    \<and> waiting_for \<lparr>proc_handle = 1, PID = 42\<rparr> 0 zero_time started_runtime"
  by (auto simp: started_runtime_def sample_runtime_def step_def start_or_fail_def start_process_def sample_outcome_def
      run_start_def newCommandRuntime_def forceCompState_def waiting_for_def Let_def case_prod_unfold apfst_def map_prod_def)

lemma sample_runtime_run: "runtime_run sample_client sample_spec sample_runtime"
  unfolding sample_runtime_def by (rule rr_new)

lemma started_runtime_run: "runtime_run sample_client sample_spec started_runtime"
  using rr_step[OF sample_runtime_run] started_runtime_step by blast

section \<open>The properties\<close>

text \<open>C12: Whatever happens in whatever order, the loop of the runtime never dereferences a nil process, and
  there is a process only while the component is meant to run.\<close>

theorem runtime_never_panics:
  assumes "runtime_run c spec r" "distinct_states c"
  shows "(\<exists>r' out. step c spec ev r = Some (r', out)) \<and> (actionState r \<noteq> actionStart \<longrightarrow> proc r = None)"
  using step_ok[OF assms(2) runtime_run_ok[OF assms]] runtime_run_ok[OF assms] by (auto simp: runtime_ok_def)

theorem runtime_never_panics_witness:
  "(\<exists>r' out. step sample_client sample_spec (CheckinEvent (sample_checkin [] 1 1) 5) started_runtime = Some (r', out))
    \<and> actionState sample_runtime = actionStop \<and> proc sample_runtime = None"
proof -
  have "actionState sample_runtime = actionStop"
    by (simp add: sample_runtime_def run_start_def newCommandRuntime_def)
  then show ?thesis
    using runtime_never_panics[OF started_runtime_run sample_client_distinct]
      runtime_never_panics[OF sample_runtime_run sample_client_distinct] by auto
qed

text \<open>C9: A component that is stopped or torn down stays stopped until it is started: no late check-in, exit,
  tick or new definition brings its process or its state back, and every state that is sent on says
  stopped.\<close>

theorem stopped_until_started:
  assumes "runtime_run c spec r" "distinct_states c" "m \<noteq> actionStart"
    and "step c spec (ActionEvent m w) r = Some (r1, out1)"
    and "\<forall>ev\<in>set evs. \<forall>w. ev \<noteq> ActionEvent actionStart w"
  shows "\<exists>r2 out. run_events c spec evs r1 = Some (r2, out) \<and> proc r2 = None
    \<and> CState (cstate r2) = UnitStateStopped c \<and> (\<forall>p. Spawned p \<notin> set out)
    \<and> (\<forall>s. SendObserved s \<in> set out \<longrightarrow> CState s = UnitStateStopped c)"
proof -
  have "stop_process c spec w (r\<lparr>actionState := m\<rparr>) = (r1, out1)"
    using assms(3,4) by (simp add: step_def Let_def)
  then have "at_rest c r1"
    using stop_process_rest[of "r\<lparr>actionState := m\<rparr>" c spec w] assms(3) by simp
  from run_rest[OF this assms(5)] show ?thesis
    by (fastforce simp: at_rest_def quiet_def)
qed

theorem stopped_until_started_witness:
  "\<exists>r1 out1 r2 out. step sample_client sample_spec (ActionEvent actionStop sample_outcome) started_runtime = Some (r1, out1)
    \<and> run_events sample_client sample_spec [CheckinEvent (sample_checkin [sample_report ''a'' 2 1] 1 1) 5, TickEvent 9 sample_outcome] r1
      = Some (r2, out) \<and> proc r2 = None \<and> CState (cstate r2) = 6"
proof -
  obtain r1 out1 where s: "step sample_client sample_spec (ActionEvent actionStop sample_outcome) started_runtime = Some (r1, out1)"
    using step_ok[OF sample_client_distinct runtime_run_ok[OF started_runtime_run sample_client_distinct]] by blast
  from stopped_until_started[OF started_runtime_run sample_client_distinct _ s,
      of "[CheckinEvent (sample_checkin [sample_report ''a'' 2 1] 1 1) 5, TickEvent 9 sample_outcome]"]
  obtain r2 out where "run_events sample_client sample_spec [CheckinEvent (sample_checkin [sample_report ''a'' 2 1] 1 1) 5, TickEvent 9 sample_outcome] r1
      = Some (r2, out)" "proc r2 = None" "CState (cstate r2) = UnitStateStopped sample_client"
    by auto
  with s show ?thesis by (auto simp: sample_client_def)
qed

text \<open>C17: A process that does not check in is killed at the third tick of the timer and not before.\<close>

theorem silent_process_is_killed:
  assumes "waiting_for p 0 t r" "\<forall>(ts, w)\<in>set ticks. time_sub ts t > checkinPeriod spec" "int (length ticks) \<le> max_i64"
  shows "\<exists>r' out. run_events c spec (map (\<lambda>(ts, w). TickEvent ts w) ticks) r = Some (r', out)
    \<and> missedCheckins r' = int (length ticks) \<and> (Kill p \<in> set out \<longleftrightarrow> 3 \<le> length ticks)"
  using silent_run[OF assms(1,2), of c] assms(3) by (auto simp: waiting_for_def maxCheckinMisses_def)

theorem silent_process_is_killed_witness:
  "\<exists>r' out. run_events sample_client sample_spec (map (\<lambda>(ts, w). TickEvent ts w)
      [(0, sample_outcome), (1, sample_outcome), (2, sample_outcome)]) started_runtime = Some (r', out)
    \<and> Kill \<lparr>proc_handle = 1, PID = 42\<rparr> \<in> set out"
proof -
  have w: "waiting_for \<lparr>proc_handle = 1, PID = 42\<rparr> 0 zero_time started_runtime"
    using started_runtime_step by blast
  show ?thesis
    using silent_process_is_killed[OF w, of "[(0, sample_outcome), (1, sample_outcome), (2, sample_outcome)]" sample_spec sample_client]
    by (auto simp: time_sub_def zero_time_def sample_spec_def second_ns_def max_i64_def min_i64_def)
qed

text \<open>C24: Stopping a process takes a bounded time: it gets a positive time to exit on its own, and is killed exactly when
  it does not use it; two seconds of the configured timeout are left at the end, and a timeout too
  short for that is replaced by four seconds.\<close>

theorem stopping_is_bounded:
  "let stop = (if configured > 0 then configured else 30 * second_ns); (code, killed, d) = waitOrKill configured w
   in 0 < graceTimeout configured
    \<and> d \<le> (if stop > 5 * second_ns then stop - 2 * second_ns else 4 * second_ns)
    \<and> (killed \<longleftrightarrow> \<not> (\<exists>t x. termExit w = Some (t, x) \<and> t \<le> graceTimeout configured))"
  by (auto simp: waitOrKill_def graceTimeout_def ProcessStopTimeout_def ShutdownBuffer_def KillReapTime_def minGraceTimeout_def
      second_ns_def Let_def split: option.splits)

end
