(* ===== verification/Backoff.thy ===== *)
theory Backoff
  imports Go_Time
begin

text \<open>
  The backoff strategies of \<^verbatim>\<open>pkg/backoff\<close>: the interface \<^verbatim>\<open>Backoff\<close> as a record of methods with a
  contract, and its two implementations. Durations are 64-bit integers and doubling wraps around. The source
  of random durations is a parameter, numbered by call; \<^verbatim>\<open>Wait\<close> gives the state after the wait,
  which takes what \<^verbatim>\<open>NextWait\<close> said.
\<close>

record 'b backoff =
  boWait :: "'b \<Rightarrow> 'b"
  boNextWait :: "'b \<Rightarrow> duration"
  boReset :: "'b \<Rightarrow> 'b"

text \<open>The time that a number of waits takes.\<close>

fun total_wait :: "'b backoff \<Rightarrow> nat \<Rightarrow> 'b \<Rightarrow> duration" where
  "total_wait B 0 b = 0"
| "total_wait B (Suc n) b = boNextWait B b + total_wait B n (boWait B b)"

datatype backoff_call = WaitCall | ResetCall

fun after_calls :: "'b backoff \<Rightarrow> backoff_call list \<Rightarrow> 'b \<Rightarrow> 'b" where
  "after_calls B [] b = b"
| "after_calls B (WaitCall # cs) b = after_calls B cs (boWait B b)"
| "after_calls B (ResetCall # cs) b = after_calls B cs (boReset B b)"

locale bounded_backoff =
  fixes B :: "'b backoff"
    and ok :: "'b \<Rightarrow> bool"
    and shortest longest :: "'b \<Rightarrow> duration"
  assumes Wait: "ok b \<Longrightarrow> ok (boWait B b) \<and> shortest (boWait B b) = shortest b \<and> longest (boWait B b) = longest b"
    and Reset: "ok b \<Longrightarrow> ok (boReset B b) \<and> shortest (boReset B b) = shortest b \<and> longest (boReset B b) = longest b"
    and NextWait: "ok b \<Longrightarrow> shortest b \<le> boNextWait B b \<and> boNextWait B b \<le> longest b"
begin

lemma total_wait_bounds:
  "ok b \<Longrightarrow> int n * shortest b \<le> total_wait B n b \<and> total_wait B n b \<le> int n * longest b"
proof (induction n arbitrary: b)
  case (Suc n)
  then show ?case
    using Wait[of b] NextWait[of b] Suc.IH[of "boWait B b"] by (simp add: distrib_right)
qed simp

lemma after_calls_bounds:
  "ok b \<Longrightarrow> shortest b \<le> boNextWait B (after_calls B cs b) \<and> boNextWait B (after_calls B cs b) \<le> longest b"
proof (induction cs arbitrary: b)
  case (Cons x cs)
  then show ?case
    using Wait[of b] Reset[of b] Cons.IH[of "boWait B b"] Cons.IH[of "boReset B b"] by (cases x) auto
qed (simp add: NextWait)

end

section \<open>Equal jitter\<close>

record EqualJitterBackoff =
  ejDuration :: duration
  ejInit :: duration
  ejMax :: duration
  ejNextRand :: duration
  ejRand :: "nat \<Rightarrow> duration \<Rightarrow> duration"
  ejCalls :: nat

definition ej_Reset :: "EqualJitterBackoff \<Rightarrow> EqualJitterBackoff" where
  "ej_Reset b = b\<lparr>ejDuration := wrap64 (ejInit b * 2), ejNextRand := ejRand b (ejCalls b) (ejInit b), ejCalls := ejCalls b + 1\<rparr>"

definition NewEqualJitterBackoff :: "(nat \<Rightarrow> duration \<Rightarrow> duration) \<Rightarrow> duration \<Rightarrow> duration \<Rightarrow> EqualJitterBackoff" where
  "NewEqualJitterBackoff rnd i m =
     ej_Reset \<lparr>ejDuration = 0, ejInit = i, ejMax = m, ejNextRand = 0, ejRand = rnd, ejCalls = 0\<rparr>"

definition ej_NextWait :: "EqualJitterBackoff \<Rightarrow> duration" where
  "ej_NextWait b = wrap64 (quot64 (ejDuration b) 2 + ejNextRand b)"

definition ej_Wait :: "EqualJitterBackoff \<Rightarrow> EqualJitterBackoff" where
  "ej_Wait b = (let d = wrap64 (ejDuration b * 2) in
     b\<lparr>ejNextRand := ejRand b (ejCalls b) (ejDuration b), ejCalls := ejCalls b + 1,
       ejDuration := (if d > ejMax b then ejMax b else d)\<rparr>)"

definition equal_jitter :: "EqualJitterBackoff backoff" where
  "equal_jitter = \<lparr>boWait = ej_Wait, boNextWait = ej_NextWait, boReset = ej_Reset\<rparr>"

section \<open>Exponential\<close>

record ExpBackoff =
  expDuration :: duration
  expInit :: duration
  expMax :: duration

definition NewExpBackoff :: "duration \<Rightarrow> duration \<Rightarrow> ExpBackoff" where
  "NewExpBackoff i m = \<lparr>expDuration = i, expInit = i, expMax = m\<rparr>"

definition exp_Reset :: "ExpBackoff \<Rightarrow> ExpBackoff" where
  "exp_Reset b = b\<lparr>expDuration := expInit b\<rparr>"

definition exp_NextWait :: "ExpBackoff \<Rightarrow> duration" where
  "exp_NextWait b = (let d = wrap64 (expDuration b * 2) in if d > expMax b then expMax b else d)"

definition exp_Wait :: "ExpBackoff \<Rightarrow> ExpBackoff" where
  "exp_Wait b = b\<lparr>expDuration := exp_NextWait b\<rparr>"

definition exponential :: "ExpBackoff backoff" where
  "exponential = \<lparr>boWait = exp_Wait, boNextWait = exp_NextWait, boReset = exp_Reset\<rparr>"

section \<open>Both keep the contract\<close>

text \<open>A source of random durations below the argument, as \<^verbatim>\<open>rand.N\<close> is documented.\<close>

definition rand_below :: "(nat \<Rightarrow> duration \<Rightarrow> duration) \<Rightarrow> bool" where
  "rand_below rnd \<longleftrightarrow> (\<forall>i n. n > 0 \<longrightarrow> 0 \<le> rnd i n \<and> rnd i n < n)"

definition ej_ok :: "EqualJitterBackoff \<Rightarrow> bool" where
  "ej_ok b \<longleftrightarrow> rand_below (ejRand b) \<and> 0 < ejInit b \<and> 2 * ejInit b \<le> ejMax b \<and> 2 * ejMax b \<le> max_i64
     \<and> 2 * ejInit b \<le> ejDuration b \<and> ejDuration b \<le> ejMax b \<and> 0 \<le> ejNextRand b \<and> ejNextRand b < ejDuration b"

definition exp_ok :: "ExpBackoff \<Rightarrow> bool" where
  "exp_ok b \<longleftrightarrow> 0 < expInit b \<and> expInit b \<le> expMax b \<and> 2 * expMax b \<le> max_i64
     \<and> expInit b \<le> expDuration b \<and> expDuration b \<le> expMax b"

lemma wrap64_small: "0 \<le> x \<Longrightarrow> x \<le> max_i64 \<Longrightarrow> wrap64 x = x"
  by (rule wrap64_id) (simp add: in_i64_def min_i64_def)

lemma quot64_half: "0 \<le> x \<Longrightarrow> x \<le> max_i64 \<Longrightarrow> quot64 x 2 = x div 2"
proof -
  assume x: "0 \<le> x" "x \<le> max_i64"
  have "sgn x * sgn 2 * (\<bar>x\<bar> div \<bar>2\<bar>) = x div 2" using x(1) by (cases "x = 0") (auto simp: sgn_if)
  moreover have "wrap64 (x div 2) = x div 2" using x by (intro wrap64_small) auto
  ultimately show ?thesis by (simp add: quot64_def)
qed

lemma rand_belowD:
  assumes "rand_below rnd" "0 < n"
  shows "0 \<le> rnd i n" "rnd i n < n" "rnd i n < n * 2"
proof -
  show "0 \<le> rnd i n" "rnd i n < n" using assms by (simp_all add: rand_below_def)
  then show "rnd i n < n * 2" using assms(2) by linarith
qed

lemma NewEqualJitterBackoff_ok:
  assumes "rand_below rnd" "0 < i" "2 * i \<le> m" "2 * m \<le> max_i64"
  shows "ej_ok (NewEqualJitterBackoff rnd i m)"
  using assms wrap64_small[of "i * 2"] by (auto simp: ej_ok_def NewEqualJitterBackoff_def ej_Reset_def rand_belowD)

lemma NewExpBackoff_ok: "0 < i \<Longrightarrow> i \<le> m \<Longrightarrow> 2 * m \<le> max_i64 \<Longrightarrow> exp_ok (NewExpBackoff i m)"
  by (simp add: exp_ok_def NewExpBackoff_def)

lemma ej_NextWait_ok: "ej_ok b \<Longrightarrow> ej_NextWait b = ejDuration b div 2 + ejNextRand b"
  using wrap64_small[of "ejDuration b div 2 + ejNextRand b"] quot64_half[of "ejDuration b"]
  by (auto simp: ej_ok_def ej_NextWait_def)

interpretation ej: bounded_backoff equal_jitter ej_ok ejInit "\<lambda>b. ejMax b + ejMax b div 2"
proof
  fix b assume b: "ej_ok b"
  show "ejInit b \<le> boNextWait equal_jitter b \<and> boNextWait equal_jitter b \<le> ejMax b + ejMax b div 2"
    using ej_NextWait_ok[OF b] b by (auto simp: equal_jitter_def ej_ok_def)
  have "rand_below (ejRand b)" "0 < ejDuration b" "0 < ejInit b" using b by (auto simp: ej_ok_def)
  note rnd = rand_belowD[OF this(1,2)] rand_belowD[OF this(1,3)]
  have "wrap64 (ejDuration b * 2) = ejDuration b * 2"
    using b by (intro wrap64_small) (auto simp: ej_ok_def)
  then show "ej_ok (boWait equal_jitter b) \<and> ejInit (boWait equal_jitter b) = ejInit b
    \<and> ejMax (boWait equal_jitter b) + ejMax (boWait equal_jitter b) div 2 = ejMax b + ejMax b div 2"
    using b by (auto simp: equal_jitter_def ej_Wait_def ej_ok_def Let_def rnd intro: less_le_trans[OF rnd(2)])
  have "wrap64 (ejInit b * 2) = ejInit b * 2"
    using b by (intro wrap64_small) (auto simp: ej_ok_def)
  then show "ej_ok (boReset equal_jitter b) \<and> ejInit (boReset equal_jitter b) = ejInit b
    \<and> ejMax (boReset equal_jitter b) + ejMax (boReset equal_jitter b) div 2 = ejMax b + ejMax b div 2"
    using b by (auto simp: equal_jitter_def ej_Reset_def ej_ok_def rnd)
qed

interpretation ep: bounded_backoff exponential exp_ok expInit expMax
proof
  fix b assume b: "exp_ok b"
  then have "wrap64 (expDuration b * 2) = expDuration b * 2"
    by (intro wrap64_small) (auto simp: exp_ok_def)
  then show "expInit b \<le> boNextWait exponential b \<and> boNextWait exponential b \<le> expMax b"
    and "exp_ok (boWait exponential b) \<and> expInit (boWait exponential b) = expInit b \<and> expMax (boWait exponential b) = expMax b"
    using b by (auto simp: exponential_def exp_Wait_def exp_NextWait_def exp_ok_def Let_def)
  show "exp_ok (boReset exponential b) \<and> expInit (boReset exponential b) = expInit b \<and> expMax (boReset exponential b) = expMax b"
    using b by (simp add: exponential_def exp_Reset_def exp_ok_def)
qed

text \<open>C37: However waits and resets follow each other, both strategies always wait at least the initial duration; the
  exponential one waits its maximum at most, and the jittered one half as much again at most.\<close>

theorem backoff_waits_are_bounded:
  assumes "rand_below rnd" "0 < i" "2 * i \<le> m" "2 * m \<le> max_i64"
  shows "(let b = NewEqualJitterBackoff rnd i m in
      i \<le> ej_NextWait (after_calls equal_jitter cs b) \<and> ej_NextWait (after_calls equal_jitter cs b) \<le> m + m div 2)
    \<and> (let b = NewExpBackoff i m in
      i \<le> exp_NextWait (after_calls exponential cs b) \<and> exp_NextWait (after_calls exponential cs b) \<le> m)"
  using ej.after_calls_bounds[OF NewEqualJitterBackoff_ok[OF assms], of cs]
    ep.after_calls_bounds[OF NewExpBackoff_ok[OF assms(2) _ assms(4)], of cs] assms(2,3)
  by (simp add: NewEqualJitterBackoff_def ej_Reset_def NewExpBackoff_def equal_jitter_def exponential_def Let_def)

theorem backoff_waits_are_bounded_witness:
  "ej_NextWait (after_calls equal_jitter [WaitCall, WaitCall, ResetCall, WaitCall] (NewEqualJitterBackoff (\<lambda>i n. n - 1) 1 5)) \<le> 7"
proof -
  have "rand_below (\<lambda>i n. n - 1)" by (simp add: rand_below_def)
  from backoff_waits_are_bounded[OF this, of 1 5 "[WaitCall, WaitCall, ResetCall, WaitCall]"] show ?thesis
    by (simp add: max_i64_def Let_def)
qed

end
