(* ===== verification/Acker.thy ===== *)
theory Acker
  imports Actions Keyed_Loops Backoff
begin

text \<open>
  Acknowledging actions: the lazy acker (\<^verbatim>\<open>acker/lazy/lazy_acker.go\<close>), which collects
  acknowledgements and sends them as one batch, and the retrier (\<^verbatim>\<open>acker/retrier/retrier.go\<close>), which
  sends again what the server did not accept. The server is a parameter: what it answers to
  the batch of a round. Actions that are enqueued while the retrier waits or sends are parameters of
  the round as well.
\<close>

text \<open>The answer of the server: whether there were errors, and the status of each item.\<close>

record AckResponse =
  Errors :: bool
  Items :: "int list"

abbreviation StatusBadRequest :: int where "StatusBadRequest \<equiv> 400"

section \<open>The lazy acker\<close>

record lazy_acker =
  ack_queue :: "action list"
  has_retrier :: bool

definition NewAcker :: "bool \<Rightarrow> lazy_acker" where
  "NewAcker r = \<lparr>ack_queue = [], has_retrier = r\<rparr>"

definition ack_enqueue :: "action \<Rightarrow> lazy_acker \<Rightarrow> lazy_acker" where
  "ack_enqueue a f = (if list_ex (\<lambda>b. action_ID b = action_ID a) (ack_queue f) then f
     else f\<lparr>ack_queue := ack_queue f @ [a]\<rparr>)"

definition lazy_Ack :: "action \<Rightarrow> lazy_acker \<Rightarrow> gerror option \<times> lazy_acker" where
  "lazy_Ack a f = (None, ack_enqueue a f)"

definition failed_items :: "action list \<Rightarrow> int list \<Rightarrow> action list" where
  "failed_items actions items =
     [actions ! i. i \<leftarrow> [0..<length items], items ! i \<ge> StatusBadRequest, i < length actions]"

text \<open>The error, the acker afterwards, and what is enqueued with the retrier.\<close>

definition lazy_Commit ::
  "(action list \<Rightarrow> gerror + AckResponse option) \<Rightarrow> lazy_acker \<Rightarrow> gerror option \<times> lazy_acker \<times> action list" where
  "lazy_Commit ackBatch f =
     (if ack_queue f = [] then (None, f, [])
      else let actions = ack_queue f; f' = f\<lparr>ack_queue := []\<rparr> in
        case ackBatch actions of
          Inl err \<Rightarrow> if has_retrier f then (None, f', actions) else (Some err, f', [])
        | Inr resp \<Rightarrow> (None, f', case resp of
              None \<Rightarrow> []
            | Some r \<Rightarrow> if has_retrier f \<and> Errors r then failed_items actions (Items r) else []))"

section \<open>The retrier\<close>

definition AckBackoffInit :: duration where "AckBackoffInit = 60 * second_ns"
definition AckBackoffMax :: duration where "AckBackoffMax = 300 * second_ns"
definition defaultMaxRetries :: i64 where "defaultMaxRetries = 5"

text \<open>\<^verbatim>\<open>kickCh\<close> holds one signal at most: whether it is pending.\<close>

record Retrier =
  kickCh :: bool
  pending_actions :: "action list"
  maxRetryInterval :: duration
  maxRetries :: i64
  initialRetryInterval :: duration

definition NewRetrier :: Retrier where
  "NewRetrier = \<lparr>kickCh = False, pending_actions = [], maxRetryInterval = AckBackoffMax, maxRetries = defaultMaxRetries, initialRetryInterval = AckBackoffInit\<rparr>"

definition Enqueue :: "action list \<Rightarrow> Retrier \<Rightarrow> Retrier" where
  "Enqueue actions r = (if actions = [] then r else r\<lparr>pending_actions := pending_actions r @ actions, kickCh := True\<rparr>)"

definition isFailed :: "AckResponse option \<Rightarrow> nat \<Rightarrow> bool" where
  "isFailed resp pos = (case resp of
       None \<Rightarrow> True
     | Some r \<Rightarrow> if pos \<ge> length (Items r) then True else Items r ! pos \<ge> StatusBadRequest)"

fun updateRetriesMap :: "i64 \<Rightarrow> AckResponse option \<Rightarrow> nat \<Rightarrow> action list \<Rightarrow> (string, i64) gomap \<Rightarrow> (string, i64) gomap \<times> action list" where
  "updateRetriesMap mx resp i [] retries = (retries, [])"
| "updateRetriesMap mx resp i (a # as) retries =
     (if isFailed resp i
      then let n = wrap64 ((case map_of retries (action_ID a) of None \<Rightarrow> mx | Some n \<Rightarrow> n) - 1) in
        if n > 0 then apsnd ((#) a) (updateRetriesMap mx resp (i + 1) as (AList.update (action_ID a) n retries))
        else updateRetriesMap mx resp (i + 1) as (AList.delete (action_ID a) retries)
      else updateRetriesMap mx resp (i + 1) as (AList.delete (action_ID a) retries))"

text \<open>One round: what is left to retry after the answer of the server.\<close>

definition retry_round :: "i64 \<Rightarrow> gerror + AckResponse option \<Rightarrow> action list \<Rightarrow> (string, i64) gomap \<Rightarrow> (string, i64) gomap \<times> action list" where
  "retry_round mx answer actions retries = (case answer of
       Inl _ \<Rightarrow> updateRetriesMap mx None 0 actions retries
     | Inr None \<Rightarrow> (retries, [])
     | Inr (Some r) \<Rightarrow> if Errors r then updateRetriesMap mx (Some r) 0 actions retries else (retries, []))"

text \<open>What the outside does in each round: the answer to the batch, the actions enqueued while the retrier
  waits and while it sends, and whether the context ends the wait.\<close>

record rounds =
  answer_of :: "nat \<Rightarrow> action list \<Rightarrow> gerror + AckResponse option"
  while_waiting :: "nat \<Rightarrow> action list"
  while_sending :: "nat \<Rightarrow> action list"
  done_in :: "nat \<Rightarrow> bool"

text \<open>The loop of \<^verbatim>\<open>runRetries\<close> with a bound on its rounds; the result is the number of rounds, the time waited and
  the actions left.\<close>

fun retry_loop ::
  "nat \<Rightarrow> i64 \<Rightarrow> rounds \<Rightarrow> nat \<Rightarrow> EqualJitterBackoff \<Rightarrow> (string, i64) gomap \<Rightarrow> action list \<Rightarrow> (nat \<times> duration \<times> action list) option" where
  "retry_loop 0 mx w i b retries pending = None"
| "retry_loop (Suc fuel) mx w i b retries pending =
     (if done_in w i then Some (i, 0, pending @ while_waiting w i)
      else let actions = pending @ while_waiting w i;
               (retries', failed) = retry_round mx (answer_of w i actions) actions retries;
               b' = ej_Wait b;
               b'' = (if while_sending w i \<noteq> [] then ej_Reset b' else b');
               pending' = failed @ while_sending w i
           in map_option (\<lambda>(n, d, left). (n, ej_NextWait b + d, left))
             (if pending' = [] then Some (i + 1, 0, []) else retry_loop fuel mx w (i + 1) b'' retries' pending'))"

definition runRetries :: "nat \<Rightarrow> (nat \<Rightarrow> duration \<Rightarrow> duration) \<Rightarrow> rounds \<Rightarrow> Retrier \<Rightarrow> (nat \<times> duration \<times> action list) option" where
  "runRetries fuel rnd w r =
     retry_loop fuel (maxRetries r) w 0 (NewEqualJitterBackoff rnd (initialRetryInterval r) (maxRetryInterval r)) [] (pending_actions r)"

section \<open>The retrier gives up\<close>

definition budget :: "i64 \<Rightarrow> (string, i64) gomap \<Rightarrow> action \<Rightarrow> i64" where
  "budget mx retries a = (case map_of retries (action_ID a) of None \<Rightarrow> mx | Some n \<Rightarrow> n)"

lemma updateRetriesMap_spec:
  assumes "distinct (map action_ID as)" "updateRetriesMap mx resp i as retries = (retries', failed)"
  shows "distinct (map action_ID failed) \<and> set failed \<subseteq> set as
    \<and> (\<forall>a\<in>set failed. budget mx retries' a = wrap64 (budget mx retries a - 1) \<and> budget mx retries' a > 0)
    \<and> (\<forall>k. k \<notin> action_ID ` set as \<longrightarrow> map_of retries' k = map_of retries k)"
  using assms
proof (induction as arbitrary: i retries retries' failed)
  case (Cons a as)
  let ?n = "wrap64 (budget mx retries a - 1)"
  have d: "distinct (map action_ID as)" "action_ID a \<notin> action_ID ` set as" using Cons.prems(1) by simp_all
  have other: "budget mx (AList.update (action_ID a) n retries) b = budget mx retries b"
    "budget mx (AList.delete (action_ID a) retries) b = budget mx retries b" if "b \<in> set as" for b n
  proof -
    have "action_ID b \<noteq> action_ID a" using that d(2) by (metis imageI)
    then show "budget mx (AList.update (action_ID a) n retries) b = budget mx retries b"
      "budget mx (AList.delete (action_ID a) retries) b = budget mx retries b"
      by (simp_all add: budget_def update_conv' delete_conv')
  qed
  show ?case
  proof (cases "isFailed resp i \<and> ?n > 0")
    case True
    then obtain fs where fs: "updateRetriesMap mx resp (i + 1) as (AList.update (action_ID a) ?n retries) = (retries', fs)" "failed = a # fs"
      using Cons.prems(2) by (auto simp: budget_def Let_def apsnd_def map_prod_def split: prod.splits)
    have "map_of retries' (action_ID a) = Some ?n"
      using Cons.IH[OF d(1) fs(1)] d(2) by (simp add: update_conv')
    then have "budget mx retries' a = ?n" by (simp add: budget_def)
    then show ?thesis
      using Cons.IH[OF d(1) fs(1)] d(2) True other fs(2) by (auto simp: update_conv')
  next
    case False
    then have "updateRetriesMap mx resp (i + 1) as (AList.delete (action_ID a) retries) = (retries', failed)"
      using Cons.prems(2) by (auto simp: budget_def Let_def split: if_splits)
    from Cons.IH[OF d(1) this] show ?thesis using other by (auto simp: delete_conv')
  qed
qed simp

text \<open>All pending actions have different ids and a number of attempts left.\<close>

definition attempts_left :: "i64 \<Rightarrow> (string, i64) gomap \<Rightarrow> nat \<Rightarrow> action list \<Rightarrow> bool" where
  "attempts_left mx retries m as \<longleftrightarrow> distinct (map action_ID as)
     \<and> (\<forall>a\<in>set as. 0 < budget mx retries a \<and> budget mx retries a \<le> int m) \<and> int m \<le> max_i64"

lemma retry_round_attempts:
  assumes "attempts_left mx retries (Suc m) as" "retry_round mx answer as retries = (retries', failed)"
  shows "attempts_left mx retries' m failed"
proof (cases "failed = []")
  case True
  then show ?thesis using assms(1) by (simp add: attempts_left_def)
next
  case False
  then obtain resp where u: "updateRetriesMap mx resp 0 as retries = (retries', failed)"
    using assms(2) by (auto simp: retry_round_def split: sum.splits option.splits if_splits)
  have as: "distinct (map action_ID as)" "\<forall>a\<in>set as. 0 < budget mx retries a \<and> budget mx retries a \<le> int (Suc m)"
    "int (Suc m) \<le> max_i64"
    using assms(1) by (simp_all add: attempts_left_def)
  have "budget mx retries' a \<le> int m" if a: "a \<in> set failed" for a
  proof -
    have "a \<in> set as" using updateRetriesMap_spec[OF as(1) u] a by blast
    then have "wrap64 (budget mx retries a - 1) = budget mx retries a - 1" "budget mx retries a \<le> int (Suc m)"
      using as(2,3) wrap64_small[of "budget mx retries a - 1"] by auto
    then show ?thesis using updateRetriesMap_spec[OF as(1) u] a by auto
  qed
  then show ?thesis
    using updateRetriesMap_spec[OF as(1) u] as(3) by (auto simp: attempts_left_def)
qed

definition no_arrivals :: "rounds \<Rightarrow> bool" where
  "no_arrivals w \<longleftrightarrow> (\<forall>i. while_waiting w i = [] \<and> while_sending w i = [])"

lemma retry_loop_ends:
  assumes "attempts_left mx retries (Suc m) pending" "ej_ok b" "no_arrivals w" "m < fuel"
  shows "\<exists>n d left. retry_loop fuel mx w i b retries pending = Some (n, d, left) \<and> n \<le> i + Suc m
    \<and> d \<le> int (Suc m) * (ejMax b + ejMax b div 2) \<and> (left = [] \<or> done_in w n)"
  using assms
proof (induction m arbitrary: fuel i b retries pending)
  case (Suc m)
  then obtain fuel' where f: "fuel = Suc fuel'" "m < fuel'" by (cases fuel) auto
  define L where "L = ejMax b + ejMax b div 2"
  have long: "0 \<le> L" "ej_NextWait b \<le> L"
    using ej.NextWait[OF Suc.prems(2)] Suc.prems(2) by (auto simp: equal_jitter_def ej_ok_def L_def)
  obtain r' failed where r: "retry_round mx (answer_of w i pending) pending retries = (r', failed)" by fastforce
  have b': "ej_ok (ej_Wait b)" "ejMax (ej_Wait b) = ejMax b"
    using ej.Wait[OF Suc.prems(2)] by (simp_all add: equal_jitter_def ej_Wait_def Let_def)
  obtain n d left where IH: "retry_loop fuel' mx w (i + 1) (ej_Wait b) r' failed = Some (n, d, left)" "n \<le> i + 1 + Suc m"
      "d \<le> int (Suc m) * L" "left = [] \<or> done_in w n"
    using Suc.IH[OF retry_round_attempts[OF Suc.prems(1) r] b'(1) Suc.prems(3) f(2), of "i + 1"] b'(2) by (auto simp: L_def)
  have "ej_NextWait b \<le> 2 * L + int m * L"
    using long mult_nonneg_nonneg[of "int m" L] by linarith
  then show ?case
    using Suc.prems(3) long IH r unfolding f(1) L_def[symmetric]
    by (auto simp: no_arrivals_def Let_def distrib_right)
next
  case 0
  then obtain fuel' where f: "fuel = Suc fuel'" by (cases fuel) auto
  have long: "0 \<le> ejMax b + ejMax b div 2" "ej_NextWait b \<le> ejMax b + ejMax b div 2"
    using ej.NextWait[OF 0(2)] 0(2) by (auto simp: equal_jitter_def ej_ok_def)
  obtain r' failed where r: "retry_round mx (answer_of w i pending) pending retries = (r', failed)" by fastforce
  from retry_round_attempts[OF 0(1) r] have "failed = []"
    by (cases failed) (auto simp: attempts_left_def)
  then show ?case
    using 0(3) long r unfolding f(1) by (auto simp: no_arrivals_def Let_def)
qed

section \<open>The queue of the acker\<close>

text \<open>The queues that acknowledging and committing can produce.\<close>

inductive acker_run :: "lazy_acker \<Rightarrow> bool" where
  ar_new: "acker_run (NewAcker r)"
| ar_ack: "acker_run f \<Longrightarrow> acker_run (snd (lazy_Ack a f))"
| ar_commit: "acker_run f \<Longrightarrow> lazy_Commit ackBatch f = (err, f', enq) \<Longrightarrow> acker_run f'"

lemma acker_run_distinct: "acker_run f \<Longrightarrow> distinct (map action_ID (ack_queue f))"
proof (induction rule: acker_run.induct)
  case (ar_ack f a)
  then show ?case by (auto simp: lazy_Ack_def ack_enqueue_def list_ex_iff)
next
  case (ar_commit f ackBatch err f' enq)
  then show ?case by (auto simp: lazy_Commit_def Let_def split: if_splits sum.splits)
qed (simp add: NewAcker_def)

lemma failed_items_conv:
  "failed_items as items = map (\<lambda>i. as ! i) (filter (\<lambda>i. items ! i \<ge> StatusBadRequest \<and> i < length as) [0..<length items])"
proof -
  have "[f i. i \<leftarrow> xs, P i, Q i] = map f (filter (\<lambda>i. P i \<and> Q i) xs)" for f :: "nat \<Rightarrow> action" and P Q xs
    by (induction xs) auto
  then show ?thesis by (simp add: failed_items_def)
qed

lemma failed_items_distinct:
  assumes "distinct (map action_ID as)"
  shows "distinct (map action_ID (failed_items as items))"
proof -
  let ?is = "filter (\<lambda>i. items ! i \<ge> StatusBadRequest \<and> i < length as) [0..<length items]"
  have "inj_on (\<lambda>i. action_ID (as ! i)) (set ?is)"
    using assms by (auto simp: inj_on_def distinct_conv_nth)
  then show ?thesis by (simp add: failed_items_conv distinct_map comp_def)
qed

lemma lazy_Commit_distinct:
  assumes "distinct (map action_ID (ack_queue f))" "lazy_Commit ackBatch f = (err, f', enq)"
  shows "distinct (map action_ID enq)"
  using assms by (auto simp: lazy_Commit_def Let_def failed_items_distinct split: if_splits sum.splits option.splits)

section \<open>The properties\<close>


definition sample_ack :: "string \<Rightarrow> action" where
  "sample_ack i = Unknown \<lparr>ActionID = i, ActionType = [], OriginalType = ''x''\<rparr>"

definition sample_acker :: lazy_acker where
  "sample_acker = snd (lazy_Ack (sample_ack ''b'') (snd (lazy_Ack (sample_ack ''a'') (NewAcker True))))"

lemma sample_acker_queue: "ack_queue sample_acker = [sample_ack ''a'', sample_ack ''b'']" "has_retrier sample_acker"
  by (simp_all add: sample_acker_def lazy_Ack_def ack_enqueue_def NewAcker_def sample_ack_def)


text \<open>C18: What a commit hands to the retrier is retried five times at most, within 37 and a half minutes of
  waiting, whatever the server answers, unless the agent is stopped or new actions arrive.\<close>

theorem rejected_acks_are_retried_and_given_up:
  assumes "acker_run f" "lazy_Commit ackBatch f = (err, f', enq)" "no_arrivals w" "rand_below rnd"
  shows "\<exists>n d left. runRetries 5 rnd w (Enqueue enq NewRetrier) = Some (n, d, left) \<and> n \<le> 5 \<and> d \<le> 2250 * second_ns
    \<and> (left = [] \<or> done_in w n)"
proof -
  let ?b = "NewEqualJitterBackoff rnd AckBackoffInit AckBackoffMax"
  have b: "ej_ok ?b" "ejMax ?b = 300 * second_ns"
    using NewEqualJitterBackoff_ok[OF assms(4), of AckBackoffInit AckBackoffMax]
    by (simp_all add: AckBackoffInit_def AckBackoffMax_def second_ns_def max_i64_def NewEqualJitterBackoff_def ej_Reset_def)
  have "attempts_left 5 [] (Suc 4) enq"
    using lazy_Commit_distinct[OF acker_run_distinct[OF assms(1)] assms(2)]
    by (simp add: attempts_left_def budget_def max_i64_def)
  moreover have "pending_actions (Enqueue enq NewRetrier) = enq" by (simp add: Enqueue_def NewRetrier_def)
  moreover have "maxRetries (Enqueue enq NewRetrier) = 5" "initialRetryInterval (Enqueue enq NewRetrier) = AckBackoffInit"
    "maxRetryInterval (Enqueue enq NewRetrier) = AckBackoffMax"
    by (simp_all add: Enqueue_def NewRetrier_def defaultMaxRetries_def)
  ultimately show ?thesis
    using retry_loop_ends[of 5 "[]" 4 enq ?b w 5 0] b assms(3)
    by (simp add: runRetries_def second_ns_def)
qed

theorem rejected_acks_are_retried_and_given_up_witness:
  "\<exists>n d left. runRetries 5 (\<lambda>i n. 0)
      \<lparr>answer_of = \<lambda>i as. Inl ''unavailable'', while_waiting = \<lambda>i. [], while_sending = \<lambda>i. [], done_in = \<lambda>i. False\<rparr>
      (Enqueue [sample_ack ''a'', sample_ack ''b''] NewRetrier) = Some (n, d, left) \<and> n \<le> 5 \<and> left = []"
proof -
  let ?w = "\<lparr>answer_of = \<lambda>i as. Inl ''unavailable'', while_waiting = \<lambda>i. [], while_sending = \<lambda>i. [], done_in = \<lambda>i. False\<rparr>"
  have run: "acker_run sample_acker" unfolding sample_acker_def by (intro ar_ack ar_new)
  have c: "lazy_Commit (\<lambda>as. Inl ''unavailable'') sample_acker = (None, sample_acker\<lparr>ack_queue := []\<rparr>, [sample_ack ''a'', sample_ack ''b''])"
    by (simp add: lazy_Commit_def sample_acker_queue Let_def)
  have "no_arrivals ?w" "rand_below (\<lambda>i n. 0)" by (simp_all add: no_arrivals_def rand_below_def)
  from rejected_acks_are_retried_and_given_up[OF run c this] show ?thesis by auto
qed

end
