(* ===== verification/Input_Specs.thy ===== *)
theory Input_Specs
  imports Vars Keyed_Loops Go_Time
begin

text \<open>
  The specifications of the inputs that the agent can run: \<^verbatim>\<open>pkg/component/spec.go\<close>, \<^verbatim>\<open>input_spec.go\<close>,
  \<^verbatim>\<open>platforms.go\<close> and \<^verbatim>\<open>load.go\<close>, and the runtime checks of \<^verbatim>\<open>component.go\<close>. The parsed
  specification files are a list, in the order in which Go ranges over the map that holds them; what the
  file system says of a binary is a parameter. The conditions of the runtime checks are evaluated by
  the condition language on the variables of the platform.
\<close>

section \<open>Platforms\<close>

record Platform =
  OS :: string
  Arch :: string
  GOOS :: string

definition GlobalPlatforms :: "Platform list" where
  "GlobalPlatforms = [
     \<lparr>OS = ''container'', Arch = ''amd64'', GOOS = ''linux''\<rparr>, \<lparr>OS = ''container'', Arch = ''arm64'', GOOS = ''linux''\<rparr>,
     \<lparr>OS = ''darwin'', Arch = ''amd64'', GOOS = ''darwin''\<rparr>, \<lparr>OS = ''darwin'', Arch = ''arm64'', GOOS = ''darwin''\<rparr>,
     \<lparr>OS = ''linux'', Arch = ''amd64'', GOOS = ''linux''\<rparr>, \<lparr>OS = ''linux'', Arch = ''arm64'', GOOS = ''linux''\<rparr>,
     \<lparr>OS = ''windows'', Arch = ''amd64'', GOOS = ''windows''\<rparr>, \<lparr>OS = ''windows'', Arch = ''arm64'', GOOS = ''windows''\<rparr>]"

definition Platform_String :: "Platform \<Rightarrow> string" where
  "Platform_String p = OS p @ CHR ''/'' # Arch p"

text \<open>\<^verbatim>\<open>strings.SplitN(platform, "/", 2)\<close> has two pieces when there is a slash.\<close>

definition Platforms_Exists :: "Platform list \<Rightarrow> string \<Rightarrow> bool" where
  "Platforms_Exists ps platform = (case dropWhile (\<lambda>c. c \<noteq> CHR ''/'') platform of
       [] \<Rightarrow> False
     | _ # rest \<Rightarrow> list_ex (\<lambda>p. OS p = takeWhile (\<lambda>c. c \<noteq> CHR ''/'') platform \<and> Arch p = rest) ps)"

record UserDetail =
  Root :: bool

record PlatformDetail = Platform +
  NativeArch :: string
  Family :: string
  Major :: i64
  Minor :: i64
  IsInstalledViaExternalPkgMgr :: bool
  User :: UserDetail

definition detail_String :: "PlatformDetail \<Rightarrow> string" where
  "detail_String d = Platform_String (Platform.truncate d)"

section \<open>Specifications\<close>

record RuntimePreventionSpec =
  Condition :: string
  PreventionMessage :: string

record CommandTimeoutSpec =
  Checkin :: duration
  Restart :: duration
  Stop :: duration

definition InitDefaults :: CommandTimeoutSpec where
  "InitDefaults = \<lparr>Checkin = 30 * second_ns, Restart = 10 * second_ns, Stop = 30 * second_ns\<rparr>"

record CommandSpec =
  CommandSpecName :: string
  Args :: "string list"
  Env :: "(string \<times> string) list"
  Timeouts :: CommandTimeoutSpec
  RestartMonitoringPeriod :: duration
  MaxRestartsPerPeriod :: i64

text \<open>Of a service only that it is one matters here.\<close>

record ServiceSpec =
  CPort :: i64
  CSocket :: string

record InputSpec =
  Name :: string
  Aliases :: "string list"
  Description :: string
  Platforms :: "string list"
  Outputs :: "string list"
  ProxiedActions :: "string list"
  Preventions :: "RuntimePreventionSpec list"
  Command :: "CommandSpec option"
  Service :: "ServiceSpec option"
  IsolateUnits :: bool
  SingleReceiver :: bool

record Spec =
  Version :: i64
  Inputs :: "InputSpec list"

datatype spec_error =
    NeitherCommandNorService string
  | UnknownPlatform string string
  | RepeatedPlatform string string
  | NoOutputs string
  | RepeatedOutput string string
  | BadPrevention string nat
  | OnlyVersion2
  | SamePlatform string nat

text \<open>The inner loop over the same slice: the element also stands at another index.\<close>

definition repeated :: "string list \<Rightarrow> nat \<Rightarrow> string \<Rightarrow> bool" where
  "repeated xs i a \<longleftrightarrow> list_ex (\<lambda>(j, b). i \<noteq> j \<and> a = b) (enumerate 0 xs)"

fun check_platforms :: "string \<Rightarrow> string list \<Rightarrow> (nat \<times> string) list \<Rightarrow> spec_error option" where
  "check_platforms n all [] = None"
| "check_platforms n all ((i, a) # rest) =
     (if \<not> Platforms_Exists GlobalPlatforms a then Some (UnknownPlatform n a)
      else if repeated all i a then Some (RepeatedPlatform n a)
      else check_platforms n all rest)"

fun check_outputs :: "string \<Rightarrow> string list \<Rightarrow> (nat \<times> string) list \<Rightarrow> spec_error option" where
  "check_outputs n all [] = None"
| "check_outputs n all ((i, a) # rest) =
     (if repeated all i a then Some (RepeatedOutput n a) else check_outputs n all rest)"

fun check_preventions :: "eql_config \<Rightarrow> string \<Rightarrow> nat \<Rightarrow> RuntimePreventionSpec list \<Rightarrow> spec_error option" where
  "check_preventions c n i [] = None"
| "check_preventions c n i (p # ps) =
     (if eql_New c (Condition p) = None then Some (BadPrevention n i) else check_preventions c n (i + 1) ps)"

definition InputSpec_Validate :: "eql_config \<Rightarrow> InputSpec \<Rightarrow> spec_error option" where
  "InputSpec_Validate c s =
     (if Command s = None \<and> Service s = None then Some (NeitherCommandNorService (Name s))
      else case check_platforms (Name s) (Platforms s) (enumerate 0 (Platforms s)) of
        Some e \<Rightarrow> Some e
      | None \<Rightarrow>
          if Outputs s = [] then Some (NoOutputs (Name s))
          else case check_outputs (Name s) (Outputs s) (enumerate 0 (Outputs s)) of
            Some e \<Rightarrow> Some e
          | None \<Rightarrow> check_preventions c (Name s) 0 (Preventions s))"

text \<open>The platforms that the inputs of a name have so far.\<close>

fun spec_loop :: "nat \<Rightarrow> InputSpec list \<Rightarrow> (string, string list) gomap \<Rightarrow> spec_error option" where
  "spec_loop i [] seen = None"
| "spec_loop i (s # ss) seen = (case map_of seen (Name s) of
       None \<Rightarrow> spec_loop (i + 1) ss (AList.update (Name s) (Platforms s) seen)
     | Some a \<Rightarrow>
         if list_ex (\<lambda>(j, p). p \<in> set a \<or> p \<in> set (take j (Platforms s))) (enumerate 0 (Platforms s))
         then Some (SamePlatform (Name s) i)
         else spec_loop (i + 1) ss (AList.update (Name s) (a @ Platforms s) seen))"

definition Spec_Validate :: "Spec \<Rightarrow> spec_error option" where
  "Spec_Validate s = (if Version s \<noteq> 2 then Some OnlyVersion2 else spec_loop 0 (Inputs s) [])"

section \<open>Loading\<close>

record InputRuntimeSpec =
  InputType :: string
  BinaryName :: string
  BinaryPath :: string
  InputSpecOf :: InputSpec

definition CommandName :: "InputRuntimeSpec \<Rightarrow> string" where
  "CommandName s = (case Command (InputSpecOf s) of
       None \<Rightarrow> BinaryName s
     | Some cmd \<Rightarrow>
         if CommandSpecName cmd \<noteq> [] then CommandSpecName cmd
         else if BinaryName s = ''elastic-otel-collector'' \<and> Args cmd \<noteq> [] then hd (Args cmd)
         else BinaryName s)"

definition BeatName :: "InputRuntimeSpec \<Rightarrow> string" where
  "BeatName s = (if has_suffix (CommandName s) ''beat'' then CommandName s else [])"

record RuntimeSpecs =
  platform :: PlatformDetail
  inputTypes :: "string list"
  inputSpecs :: "(string, InputRuntimeSpec) gomap"
  aliasMapping :: "(string, string) gomap"

datatype stat_result = NotExist | StatError gerror | StatFile | StatDir

datatype load_error =
    MissingBinary string
  | StatFailed string gerror
  | InputExists string string string
  | InputIsAlias string string string
  | AliasIsInput string string string
  | AliasExists string string string

text \<open>\<^verbatim>\<open>filepath.Base\<close>, and a path without the suffix \<^verbatim>\<open>.spec.yml\<close> that the pattern matched.\<close>

definition filepath_Base :: "string \<Rightarrow> string" where
  "filepath_Base path =
     (if path = [] then ''.''
      else let b = last (split_on CHR ''/'' (rev (dropWhile (\<lambda>c. c = CHR ''/'') (rev path))))
        in if b = [] then ''/'' else b)"

definition binary_of :: "string \<Rightarrow> string" where
  "binary_of path = take (length path - length ''.spec.yml'') path"

definition binary_path :: "PlatformDetail \<Rightarrow> string \<Rightarrow> string" where
  "binary_path d path = binary_of path @ (if OS d = ''windows'' then ''.exe'' else [])"

definition check_binary :: "bool \<Rightarrow> (string \<Rightarrow> stat_result) \<Rightarrow> PlatformDetail \<Rightarrow> string \<Rightarrow> load_error option" where
  "check_binary skipBinaryCheck stat d path =
     (if skipBinaryCheck then None
      else case stat (binary_path d path) of
          NotExist \<Rightarrow> Some (MissingBinary path)
        | StatError e \<Rightarrow> Some (StatFailed (binary_path d path) e)
        | StatDir \<Rightarrow> Some (MissingBinary path)
        | StatFile \<Rightarrow> None)"

fun alias_clash :: "string \<Rightarrow> string list \<Rightarrow> RuntimeSpecs \<Rightarrow> load_error option" where
  "alias_clash path [] r = None"
| "alias_clash path (a # as) r = (case map_of (inputSpecs r) a of
       Some e \<Rightarrow> Some (AliasIsInput path a (BinaryName e))
     | None \<Rightarrow> (case map_of (aliasMapping r) a of
           Some e \<Rightarrow> Some (AliasExists path a e)
         | None \<Rightarrow> alias_clash path as r))"

definition add_type :: "string \<Rightarrow> RuntimeSpecs \<Rightarrow> RuntimeSpecs" where
  "add_type n r = (if n \<in> set (inputTypes r) then r else r\<lparr>inputTypes := inputTypes r @ [n]\<rparr>)"

definition load_input :: "string \<Rightarrow> InputSpec \<Rightarrow> RuntimeSpecs \<Rightarrow> load_error + RuntimeSpecs" where
  "load_input path s r =
     (let r1 = add_type (Name s) r in
      if detail_String (platform r) \<notin> set (Platforms s) then Inr r1
      else case map_of (inputSpecs r1) (Name s) of
        Some e \<Rightarrow> Inl (InputExists path (Name s) (BinaryName e))
      | None \<Rightarrow> (case map_of (aliasMapping r1) (Name s) of
          Some e \<Rightarrow> Inl (InputIsAlias path (Name s) e)
        | None \<Rightarrow> (case alias_clash path (Aliases s) r1 of
            Some e \<Rightarrow> Inl e
          | None \<Rightarrow> Inr (r1\<lparr>
              inputSpecs := AList.update (Name s) \<lparr>InputType = Name s, BinaryName = filepath_Base (binary_of path),
                BinaryPath = binary_path (platform r) path, InputSpecOf = s\<rparr> (inputSpecs r1),
              aliasMapping := foldl (\<lambda>m a. AList.update a (Name s) m) (aliasMapping r1) (Aliases s)\<rparr>))))"

fun load_inputs :: "string \<Rightarrow> InputSpec list \<Rightarrow> RuntimeSpecs \<Rightarrow> load_error + RuntimeSpecs" where
  "load_inputs path [] r = Inr r"
| "load_inputs path (s # ss) r = rbind (load_input path s r) (load_inputs path ss)"

fun load_files :: "bool \<Rightarrow> (string \<Rightarrow> stat_result) \<Rightarrow> (string \<times> Spec) list \<Rightarrow> RuntimeSpecs \<Rightarrow> load_error + RuntimeSpecs" where
  "load_files skip stat [] r = Inr r"
| "load_files skip stat ((path, spec) # fs) r = (case check_binary skip stat (platform r) path of
       Some e \<Rightarrow> Inl e
     | None \<Rightarrow> rbind (load_inputs path (Inputs spec) r) (load_files skip stat fs))"

definition LoadRuntimeSpecs ::
  "bool \<Rightarrow> (string \<Rightarrow> stat_result) \<Rightarrow> PlatformDetail \<Rightarrow> (string \<times> Spec) list \<Rightarrow> load_error + RuntimeSpecs" where
  "LoadRuntimeSpecs skip stat d specFiles =
     load_files skip stat specFiles \<lparr>platform = d, inputTypes = [], inputSpecs = [], aliasMapping = []\<rparr>"

section \<open>Runtime checks\<close>

datatype check_error = VarsError tr_error | BadCondition string | ConditionError eql_error | Prevented "string list"

text \<open>The keys of a map stand in order.\<close>

definition platform_map :: "bool \<Rightarrow> PlatformDetail \<Rightarrow> (string \<times> gval) list" where
  "platform_map inDefaultPath d = [
     (''install'', GMap [(''in_default'', GBool (inDefaultPath \<or> IsInstalledViaExternalPkgMgr d))]),
     (''runtime'', GMap [(''arch'', GStr (Arch d)), (''family'', GStr (Family d)),
        (''major'', GInt (Major d)), (''minor'', GInt (Minor d)), (''native_arch'', GStr (NativeArch d)),
        (''os'', GStr (OS d)), (''platform'', GStr (detail_String d))]),
     (''user'', GMap [(''root'', GBool (Root (User d)))])]"

definition varsForPlatform :: "bool \<Rightarrow> PlatformDetail \<Rightarrow> string \<Rightarrow> tr_error + Vars" where
  "varsForPlatform inDefaultPath d dp = NewVars [] (platform_map inDefaultPath d) [] dp"

fun prevention_loop :: "eql_config \<Rightarrow> Vars \<Rightarrow> RuntimePreventionSpec list \<Rightarrow> string list \<Rightarrow> check_error option" where
  "prevention_loop c v [] msgs = (if msgs = [] then None else Some (Prevented msgs))"
| "prevention_loop c v (p # ps) msgs = (case eql_New c (Condition p) of
       None \<Rightarrow> Some (BadCondition (Condition p))
     | Some e \<Rightarrow> (case Eval \<lparr>varStore = Some (Vars_Lookup v), allowMissingVars = False,
            rank = iteration c, regexp = engine c\<rparr> e of
           Inl er \<Rightarrow> Some (ConditionError er)
         | Inr (b, _) \<Rightarrow> prevention_loop c v ps (if b then msgs @ [PreventionMessage p] else msgs)))"

text \<open>\<^verbatim>\<open>Prevented\<close> holds the messages that the error joins with commas.\<close>

definition validateRuntimeChecks :: "eql_config \<Rightarrow> bool \<Rightarrow> RuntimePreventionSpec list \<Rightarrow> PlatformDetail \<Rightarrow> check_error option" where
  "validateRuntimeChecks c inDefaultPath ps d = (case varsForPlatform inDefaultPath d [] of
       Inl e \<Rightarrow> Some (VarsError e)
     | Inr v \<Rightarrow> prevention_loop c v ps [])"

datatype input_error = ErrInputNotSupported | ErrInputNotSupportedOnPlatform | RuntimeChecks check_error
  | ErrComponentID | ErrOutputNotSupported

text \<open>The specification is returned even when the checks fail; None is the zero specification.\<close>

definition GetInput :: "eql_config \<Rightarrow> bool \<Rightarrow> RuntimeSpecs \<Rightarrow> string \<Rightarrow> InputRuntimeSpec option \<times> input_error option" where
  "GetInput c inDefaultPath r inputType =
     (if inputType \<notin> set (inputTypes r) then (None, Some ErrInputNotSupported)
      else case map_of (inputSpecs r) inputType of
        None \<Rightarrow> (None, Some ErrInputNotSupportedOnPlatform)
      | Some s \<Rightarrow> (Some s, map_option RuntimeChecks
          (validateRuntimeChecks c inDefaultPath (Preventions (InputSpecOf s)) (platform r))))"

end
