(* ===== verification/Input_Specs_Props.thy ===== *)
theory Input_Specs_Props
  imports Input_Specs Ast_Props "HOL-Library.Multiset"
begin

text \<open>
  What the specifications promise: a valid specification has one input of a name per platform, loading
  the files gives the same inputs and aliases in whatever order Go ranges over them, an alias never
  stands for two inputs, and an input is handed out only when none of its preventions holds.
\<close>

section \<open>Valid specifications\<close>

lemma fresh_platforms:
  "\<not> list_ex (\<lambda>(j, p). p \<in> set a \<or> p \<in> set (take j ps)) (enumerate 0 ps) \<Longrightarrow> set a \<inter> set ps = {}"
proof -
  assume "\<not> list_ex (\<lambda>(j, p). p \<in> set a \<or> p \<in> set (take j ps)) (enumerate 0 ps)"
  then have "snd x \<notin> set a" if "x \<in> set (enumerate 0 ps)" for x
    using that by (auto simp: list_ex_iff)
  then have "snd ` set (enumerate 0 ps) \<inter> set a = {}" by auto
  moreover have "snd ` set (enumerate 0 ps) = set ps" by (metis list.set_map map_snd_enumerate)
  ultimately show ?thesis by auto
qed

lemma spec_loop_disjoint:
  assumes "spec_loop i ss seen = None"
  shows "sorted_wrt (\<lambda>s t. Name s = Name t \<longrightarrow> set (Platforms s) \<inter> set (Platforms t) = {}) ss
    \<and> (\<forall>s\<in>set ss. \<forall>a. map_of seen (Name s) = Some a \<longrightarrow> set a \<inter> set (Platforms s) = {})"
  using assms
proof (induction i ss seen rule: spec_loop.induct)
  case (2 i s ss seen)
  show ?case
  proof (cases "map_of seen (Name s)")
    case None
    with 2 show ?thesis by (fastforce simp: update_conv' split: if_splits)
  next
    case (Some a)
    have dis: "set a \<inter> set (Platforms s) = {}"
      and rec: "spec_loop (i + 1) ss (AList.update (Name s) (a @ Platforms s) seen) = None"
      using 2(3) Some fresh_platforms by (auto split: if_splits)
    have ih: "sorted_wrt (\<lambda>s t. Name s = Name t \<longrightarrow> set (Platforms s) \<inter> set (Platforms t) = {}) ss"
      "\<forall>t\<in>set ss. \<forall>x. map_of (AList.update (Name s) (a @ Platforms s) seen) (Name t) = Some x \<longrightarrow> set x \<inter> set (Platforms t) = {}"
      using 2(2)[OF Some _ rec] 2(3) Some by (auto split: if_splits)
    have both: "set (a @ Platforms s) \<inter> set (Platforms t) = {}" if "t \<in> set ss" "Name t = Name s" for t
      using bspec[OF ih(2) that(1)] that(2) by (simp add: update_conv')
    then have "set (Platforms s) \<inter> set (Platforms t) = {}" if "t \<in> set ss" "Name s = Name t" for t
      using that by auto
    moreover have "set x \<inter> set (Platforms t) = {}" if "t \<in> set ss" "map_of seen (Name t) = Some x" for t x
    proof (cases "Name t = Name s")
      case True
      then have "x = a" using that(2) Some by simp
      then show ?thesis using both[OF that(1) True] by auto
    next
      case False
      then show ?thesis using ih(2) that by (simp add: update_conv')
    qed
    ultimately show ?thesis using ih(1) dis Some by auto
  qed
qed simp

section \<open>What loading means\<close>

definition clash :: "InputSpec \<Rightarrow> InputSpec \<Rightarrow> bool" where
  "clash s t \<longleftrightarrow> Name s = Name t \<or> Name s \<in> set (Aliases t) \<or> Name t \<in> set (Aliases s) \<or> set (Aliases s) \<inter> set (Aliases t) \<noteq> {}"

lemma clash_sym: "clash s t = clash t s"
  by (auto simp: clash_def)

definition runtime_spec :: "PlatformDetail \<Rightarrow> string \<times> InputSpec \<Rightarrow> InputRuntimeSpec" where
  "runtime_spec d x = \<lparr>InputType = Name (snd x), BinaryName = filepath_Base (binary_of (fst x)),
     BinaryPath = binary_path d (fst x), InputSpecOf = snd x\<rparr>"

definition spec_entries :: "PlatformDetail \<Rightarrow> (string \<times> InputSpec) list \<Rightarrow> (string \<times> InputRuntimeSpec) list" where
  "spec_entries d xs = map (\<lambda>x. (Name (snd x), runtime_spec d x)) xs"

definition alias_entries :: "(string \<times> InputSpec) list \<Rightarrow> (string \<times> string) list" where
  "alias_entries xs = concat (map (\<lambda>x. map (\<lambda>a. (a, Name (snd x))) (Aliases (snd x))) xs)"

definition represents :: "RuntimeSpecs \<Rightarrow> PlatformDetail \<Rightarrow> string set \<Rightarrow> (string \<times> InputSpec) list \<Rightarrow> bool" where
  "represents r d types xs \<longleftrightarrow> platform r = d \<and> set (inputTypes r) = types
     \<and> map_of (inputSpecs r) = map_of (spec_entries d xs) \<and> map_of (aliasMapping r) = map_of (alias_entries xs)"

lemma alias_clash_None: "alias_clash path as r = None \<longleftrightarrow> (\<forall>a\<in>set as. map_of (inputSpecs r) a = None \<and> map_of (aliasMapping r) a = None)"
  by (induction as) (auto split: option.splits)

lemma fold_aliases: "map_of (foldl (\<lambda>m a. AList.update a n m) m as) k = (if k \<in> set as then Some n else map_of m k)"
  by (induction as arbitrary: m) (auto simp: update_conv')

lemma spec_entries_None: "map_of (spec_entries d xs) k = None \<longleftrightarrow> (\<forall>x\<in>set xs. Name (snd x) \<noteq> k)"
  by (auto simp: map_of_eq_None_iff spec_entries_def image_iff)

lemma alias_entries_None: "map_of (alias_entries xs) k = None \<longleftrightarrow> (\<forall>x\<in>set xs. k \<notin> set (Aliases (snd x)))"
  by (force simp: map_of_eq_None_iff alias_entries_def image_iff)

lemma map_of_snoc: "map_of (xs @ [(k, v)]) = (\<lambda>l. case map_of xs l of Some w \<Rightarrow> Some w | None \<Rightarrow> if l = k then Some v else None)"
  by (auto simp: fun_eq_iff map_add_def split: option.splits)

lemma add_type_represents: "represents r d types xs \<Longrightarrow> represents (add_type n r) d (insert n types) xs"
  by (auto simp: add_type_def represents_def)

lemma load_input_other:
  assumes "represents r d types xs" "detail_String d \<notin> set (Platforms s)"
  shows "\<exists>r'. load_input path s r = Inr r' \<and> represents r' d (insert (Name s) types) xs"
  using assms add_type_represents[OF assms(1)] by (auto simp: load_input_def represents_def Let_def)

lemma load_input_free:
  assumes "represents r d types xs" "detail_String d \<in> set (Platforms s)" "\<forall>x\<in>set xs. \<not> clash (snd x) s"
  shows "\<exists>r'. load_input path s r = Inr r' \<and> represents r' d (insert (Name s) types) (xs @ [(path, s)])"
proof -
  define r1 where "r1 = add_type (Name s) r"
  have r1: "represents r1 d (insert (Name s) types) xs"
    unfolding r1_def by (rule add_type_represents[OF assms(1)])
  have free: "map_of (inputSpecs r1) (Name s) = None" "map_of (aliasMapping r1) (Name s) = None"
    "alias_clash path (Aliases s) r1 = None"
    using r1 assms(3) by (force simp: represents_def spec_entries_None alias_entries_None alias_clash_None clash_def)+
  have al: "map_of (alias_entries xs) a = None" if "a \<in> set (Aliases s)" for a
    using that assms(3) by (force simp: alias_entries_None clash_def)
  let ?r = "r1\<lparr>inputSpecs := AList.update (Name s) (runtime_spec (platform r) (path, s)) (inputSpecs r1),
      aliasMapping := foldl (\<lambda>m a. AList.update a (Name s) m) (aliasMapping r1) (Aliases s)\<rparr>"
  have "load_input path s r = Inr ?r"
    using assms(1,2) free by (simp add: load_input_def r1_def[symmetric] represents_def runtime_spec_def Let_def)
  moreover have "map_of (inputSpecs ?r) = map_of (spec_entries d (xs @ [(path, s)]))"
    using r1 free(1) assms(1) by (auto simp: represents_def spec_entries_def update_conv' map_add_def fun_eq_iff split: option.splits)
  moreover have "map_of (aliasMapping ?r) k = map_of (alias_entries (xs @ [(path, s)])) k" for k
  proof -
    have "map_of (map (\<lambda>a. (a, Name s)) (Aliases s)) k = (if k \<in> set (Aliases s) then Some (Name s) else None)"
      by (induction "Aliases s") (auto simp: map_of_eq_None_iff map_of_map_restrict restrict_map_def)
    then show ?thesis
      using r1 al[of k] by (simp add: fold_aliases represents_def alias_entries_def map_add_def split: option.splits)
  qed
  ultimately show ?thesis
    using r1 assms(1) by (auto simp: represents_def fun_eq_iff)
qed

lemma load_input_clash:
  assumes "represents r d types xs" "detail_String d \<in> set (Platforms s)" "x \<in> set xs" "clash (snd x) s"
  shows "\<exists>e. load_input path s r = Inl e"
proof -
  define r1 where "r1 = add_type (Name s) r"
  have m: "map_of (inputSpecs r1) = map_of (spec_entries d xs)" "map_of (aliasMapping r1) = map_of (alias_entries xs)"
    using add_type_represents[OF assms(1)] by (auto simp: r1_def represents_def)
  have "map_of (inputSpecs r1) (Name s) \<noteq> None \<or> map_of (aliasMapping r1) (Name s) \<noteq> None \<or> alias_clash path (Aliases s) r1 \<noteq> None"
    using assms(3,4) unfolding m alias_clash_None spec_entries_None alias_entries_None clash_def by fastforce
  then show ?thesis
    using assms(1,2) by (auto simp: load_input_def r1_def[symmetric] represents_def Let_def split: option.splits)
qed

definition compatible :: "(string \<times> InputSpec) list \<Rightarrow> bool" where
  "compatible xs \<longleftrightarrow> sorted_wrt (\<lambda>x y. \<not> clash (snd x) (snd y)) xs"

definition supported :: "PlatformDetail \<Rightarrow> (string \<times> InputSpec) list \<Rightarrow> (string \<times> InputSpec) list" where
  "supported d xs = filter (\<lambda>x. detail_String d \<in> set (Platforms (snd x))) xs"

definition all_inputs :: "(string \<times> Spec) list \<Rightarrow> (string \<times> InputSpec) list" where
  "all_inputs fs = concat (map (\<lambda>f. map (Pair (fst f)) (Inputs (snd f))) fs)"

text \<open>What loading a list of inputs gives, after those of another list: an error, or what represents both.\<close>

definition load_result :: "load_error + RuntimeSpecs \<Rightarrow> bool \<Rightarrow> PlatformDetail \<Rightarrow> string set \<Rightarrow> (string \<times> InputSpec) list \<Rightarrow> bool" where
  "load_result res ok d types xs \<longleftrightarrow> (if ok then \<exists>r. res = Inr r \<and> represents r d types xs else \<exists>e. res = Inl e)"

lemma load_result_bind:
  assumes "load_result res ok d types xs" "\<And>r. ok \<Longrightarrow> represents r d types xs \<Longrightarrow> load_result (f r) ok' d types' ys" "ok' \<Longrightarrow> ok"
  shows "load_result (rbind res f) ok' d types' ys"
  using assms by (cases ok) (auto simp: load_result_def)

lemma load_input_loads:
  assumes "represents r d types xs" "compatible xs"
  shows "load_result (load_input path s r) (compatible (xs @ supported d [(path, s)])) d (insert (Name s) types) (xs @ supported d [(path, s)])"
proof (cases "detail_String d \<in> set (Platforms s)")
  case True
  then have "compatible (xs @ supported d [(path, s)]) \<longleftrightarrow> (\<forall>x\<in>set xs. \<not> clash (snd x) s)"
    using assms(2) by (simp add: compatible_def supported_def sorted_wrt_append)
  then show ?thesis
    using load_input_free[OF assms(1) True, of path] load_input_clash[OF assms(1) True, of _ path] True
    by (auto simp: load_result_def supported_def)
next
  case False
  then show ?thesis
    using load_input_other[OF assms(1) False, of path] assms(2) by (simp add: load_result_def supported_def)
qed

lemma supported_Cons: "supported d (x # xs) = supported d [x] @ supported d xs"
  by (simp add: supported_def)

lemma supported_append: "supported d (xs @ ys) = supported d xs @ supported d ys"
  by (simp add: supported_def)

lemma compatible_prefix: "compatible (xs @ ys) \<Longrightarrow> compatible xs"
  by (simp add: compatible_def sorted_wrt_append)

lemma load_inputs_loads:
  assumes "represents r d types xs" "compatible xs"
  shows "load_result (load_inputs path ss r) (compatible (xs @ supported d (map (Pair path) ss))) d (types \<union> Name ` set ss)
    (xs @ supported d (map (Pair path) ss))"
  using assms
proof (induction ss arbitrary: r types xs)
  case (Cons s ss)
  let ?ys = "xs @ supported d [(path, s)]"
  show ?case
  proof (simp only: load_inputs.simps, rule load_result_bind[OF load_input_loads[OF Cons.prems]])
    fix r' assume "compatible ?ys" "represents r' d (insert (Name s) types) ?ys"
    from Cons.IH[OF this(2,1)]
    show "load_result (load_inputs path ss r') (compatible (xs @ supported d (map (Pair path) (s # ss)))) d (types \<union> Name ` set (s # ss))
      (xs @ supported d (map (Pair path) (s # ss)))"
      by (simp add: supported_Cons[of d "(path, s)" "map (Pair path) ss"])
  next
    assume "compatible (xs @ supported d (map (Pair path) (s # ss)))"
    then show "compatible ?ys"
      using compatible_prefix[of ?ys "supported d (map (Pair path) ss)"]
      by (simp add: supported_Cons[of d "(path, s)" "map (Pair path) ss"])
  qed
qed (simp add: load_result_def supported_def)

definition binaries_found :: "bool \<Rightarrow> (string \<Rightarrow> stat_result) \<Rightarrow> PlatformDetail \<Rightarrow> (string \<times> Spec) list \<Rightarrow> bool" where
  "binaries_found skip stat d fs \<longleftrightarrow> (\<forall>f\<in>set fs. check_binary skip stat d (fst f) = None)"

lemma load_files_loads:
  assumes "represents r d types xs" "compatible xs"
  shows "load_result (load_files skip stat fs r) (binaries_found skip stat d fs \<and> compatible (xs @ supported d (all_inputs fs))) d
    (types \<union> Name ` snd ` set (all_inputs fs)) (xs @ supported d (all_inputs fs))"
  using assms
proof (induction fs arbitrary: r types xs)
  case (Cons f fs)
  obtain path spec where f: "f = (path, spec)" by (cases f)
  let ?in = "supported d (map (Pair path) (Inputs spec))"
  have split: "supported d (all_inputs (f # fs)) = ?in @ supported d (all_inputs fs)"
    "Name ` snd ` set (all_inputs (f # fs)) = Name ` set (Inputs spec) \<union> Name ` snd ` set (all_inputs fs)"
    by (simp_all add: f all_inputs_def supported_append image_Un image_image)
  have p: "platform r = d" using Cons.prems(1) by (simp add: represents_def)
  show ?case
  proof (cases "check_binary skip stat d path")
    case (Some e)
    then show ?thesis using p by (simp add: f load_result_def binaries_found_def)
  next
    case None
    have "load_result (rbind (load_inputs path (Inputs spec) r) (load_files skip stat fs))
      (binaries_found skip stat d fs \<and> compatible ((xs @ ?in) @ supported d (all_inputs fs))) d
      ((types \<union> Name ` set (Inputs spec)) \<union> Name ` snd ` set (all_inputs fs)) ((xs @ ?in) @ supported d (all_inputs fs))"
      by (rule load_result_bind[OF load_inputs_loads[OF Cons.prems]]) (use Cons.IH compatible_prefix in blast)+
    then show ?thesis
      using None p by (simp add: f[symmetric] split Un_assoc) (simp add: f binaries_found_def)
  qed
qed (simp add: load_result_def supported_def all_inputs_def binaries_found_def)

lemma LoadRuntimeSpecs_loads:
  "load_result (LoadRuntimeSpecs skip stat d fs) (binaries_found skip stat d fs \<and> compatible (supported d (all_inputs fs))) d
    (Name ` snd ` set (all_inputs fs)) (supported d (all_inputs fs))"
  using load_files_loads[of "\<lparr>platform = d, inputTypes = [], inputSpecs = [], aliasMapping = []\<rparr>" d "{}" "[]" skip stat fs]
  by (simp add: LoadRuntimeSpecs_def represents_def spec_entries_def alias_entries_def compatible_def)

section \<open>The order does not matter\<close>

lemma compatible_mset: "mset xs = mset ys \<Longrightarrow> compatible xs \<Longrightarrow> compatible ys"
proof (induction xs arbitrary: ys)
  case (Cons x xs)
  have "x \<in> set ys" using mset_eq_setD[OF Cons.prems(1)] by auto
  then obtain as bs where ys: "ys = as @ x # bs" by (meson split_list)
  then have m: "mset xs = mset (as @ bs)" using Cons.prems(1) by simp
  have c: "compatible xs" "\<forall>z\<in>set xs. \<not> clash (snd x) (snd z)"
    using Cons.prems(2) by (simp_all add: compatible_def)
  then have "compatible (as @ bs)" "\<forall>z\<in>set (as @ bs). \<not> clash (snd x) (snd z)"
    using Cons.IH[OF m] mset_eq_setD[OF m] by simp_all
  then show ?case
    by (auto simp: ys compatible_def sorted_wrt_append clash_sym)
qed simp

lemma compatible_pair:
  assumes "compatible xs" "x \<in> set xs" "y \<in> set xs" "x \<noteq> y"
  shows "\<not> clash (snd x) (snd y)"
  using assms by (induction xs) (auto simp: compatible_def clash_sym)

lemma spec_entries_distinct: "compatible xs \<Longrightarrow> distinct (map fst (spec_entries d xs))"
  by (induction xs) (auto simp: compatible_def spec_entries_def clash_def)

lemma alias_entries_Some:
  assumes "compatible xs"
  shows "map_of (alias_entries xs) a = Some n \<longleftrightarrow> (\<exists>x\<in>set xs. a \<in> set (Aliases (snd x)) \<and> Name (snd x) = n)"
proof
  assume "map_of (alias_entries xs) a = Some n"
  then show "\<exists>x\<in>set xs. a \<in> set (Aliases (snd x)) \<and> Name (snd x) = n"
    by (force dest!: map_of_SomeD simp: alias_entries_def)
next
  assume "\<exists>x\<in>set xs. a \<in> set (Aliases (snd x)) \<and> Name (snd x) = n"
  then obtain x where x: "x \<in> set xs" "a \<in> set (Aliases (snd x))" "Name (snd x) = n" by blast
  then obtain m where m: "map_of (alias_entries xs) a = Some m"
    using alias_entries_None[of xs a] by (cases "map_of (alias_entries xs) a") auto
  then obtain y where y: "y \<in> set xs" "a \<in> set (Aliases (snd y))" "Name (snd y) = m"
    by (force dest!: map_of_SomeD simp: alias_entries_def)
  have "x = y"
    using compatible_pair[OF assms x(1) y(1)] x(2) y(2) by (auto simp: clash_def)
  with m x(3) y(3) show "map_of (alias_entries xs) a = Some n" by simp
qed

lemma entries_mset:
  assumes "mset xs = mset ys" "compatible xs"
  shows "map_of (spec_entries d xs) = map_of (spec_entries d ys)" "map_of (alias_entries xs) = map_of (alias_entries ys)"
proof -
  note c = compatible_mset[OF assms] and s = mset_eq_setD[OF assms(1)]
  show "map_of (spec_entries d xs) = map_of (spec_entries d ys)"
    using spec_entries_distinct[OF assms(2)] spec_entries_distinct[OF c] s
    by (simp add: map_of_inject_set) (simp add: spec_entries_def)
  have "map_of (alias_entries xs) a = Some n \<longleftrightarrow> map_of (alias_entries ys) a = Some n" for a n
    by (simp add: alias_entries_Some[OF assms(2)] alias_entries_Some[OF c] s)
  then show "map_of (alias_entries xs) = map_of (alias_entries ys)"
    by (metis ext option.exhaust)
qed

lemma all_inputs_mset: "mset fs = mset gs \<Longrightarrow> mset (all_inputs fs) = mset (all_inputs gs)"
  by (simp add: all_inputs_def mset_concat flip: mset_map sum_mset_sum_list) (metis mset_map)

lemma GetInput_represents:
  assumes "represents r d types xs" "represents r' d types ys" "map_of (spec_entries d xs) = map_of (spec_entries d ys)"
  shows "GetInput c b r t = GetInput c b r' t"
proof -
  have "platform r = platform r'" "set (inputTypes r) = set (inputTypes r')" "map_of (inputSpecs r) = map_of (inputSpecs r')"
    using assms by (simp_all add: represents_def)
  then show ?thesis by (auto simp: GetInput_def split: option.split)
qed

lemma loaded_specs:
  assumes "LoadRuntimeSpecs skip stat d fs = Inr r"
  shows "compatible (supported d (all_inputs fs))"
    and "represents r d (Name ` snd ` set (all_inputs fs)) (supported d (all_inputs fs))"
    and "binaries_found skip stat d fs"
  using LoadRuntimeSpecs_loads[of skip stat d fs] assms by (auto simp: load_result_def split: if_splits)

section \<open>Runtime checks\<close>

text \<open>What a condition gives on the platform: None when it does not compile or fails.\<close>

definition prevention_holds :: "eql_config \<Rightarrow> Vars \<Rightarrow> string \<Rightarrow> bool option" where
  "prevention_holds c v cond = (case eql_New c cond of
       None \<Rightarrow> None
     | Some e \<Rightarrow> (case Eval \<lparr>varStore = Some (Vars_Lookup v), allowMissingVars = False, rank = iteration c, regexp = engine c\<rparr> e of
           Inr (b, _) \<Rightarrow> Some b
         | Inl _ \<Rightarrow> None))"

lemma prevention_loop_holds: "prevention_holds c v (Condition p) = Some b \<Longrightarrow>
    prevention_loop c v (p # ps) msgs = prevention_loop c v ps (if b then msgs @ [PreventionMessage p] else msgs)"
  by (auto simp: prevention_holds_def split: option.splits sum.splits)

lemma prevention_loop_fails: "prevention_holds c v (Condition p) = None \<Longrightarrow> prevention_loop c v (p # ps) msgs \<noteq> None"
  by (auto simp: prevention_holds_def split: option.splits sum.splits)

lemma prevention_loop_None:
  "prevention_loop c v ps msgs = None \<longleftrightarrow> msgs = [] \<and> (\<forall>p\<in>set ps. prevention_holds c v (Condition p) = Some False)"
proof (induction ps arbitrary: msgs)
  case (Cons p ps)
  show ?case
  proof (cases "prevention_holds c v (Condition p)")
    case None
    then show ?thesis using prevention_loop_fails[OF None, of ps msgs] by (simp del: prevention_loop.simps)
  next
    case (Some b)
    then show ?thesis by (simp add: prevention_loop_holds Cons.IH del: prevention_loop.simps)
  qed
qed simp


section \<open>The variables of a platform\<close>

lemma loaded_map: "plain (GMap m) \<Longrightarrow> load (GMap m) = Inr (Some (NewDict (key_nodes m)))"
proof -
  assume p: "plain (GMap m)"
  then have "loads g \<and> (case g of GMap _ \<Rightarrow> CHR ''.'' \<notin> set k | _ \<Rightarrow> True)" if "(k, g) \<in> set m" for k g
    using that plain_loads by (auto simp: list_all_iff)
  then show ?thesis
    using loadMap_plain[of "[]" m] sorted_map_distinct[of m] p by (simp add: key_nodes_def)
qed

lemma Dict_Find_loaded: "map_of m k = Some g \<Longrightarrow> Dict_Find k (key_nodes m) = Inr (Some (Some (Key k (loaded g))))"
  by (induction m) (auto simp: key_nodes_def split: if_splits)

lemma plain_entry: "plain (GMap m) \<Longrightarrow> (k, g) \<in> set m \<Longrightarrow> plain g"
  by (fastforce simp: list_all_iff)

text \<open>A scalar below a map of a plain configuration is found under its dotted path.\<close>

lemma plain_lookup:
  assumes "plain (GMap m)" "map_of m k = Some (GMap n)" "map_of n k' = Some g" "g \<noteq> GNil"
    and "CHR ''.'' \<notin> set k" "CHR ''.'' \<notin> set k'"
  shows "AST_Lookup (Some (NewDict (key_nodes m))) (k @ CHR ''.'' # k') = Inr (Some g)"
proof -
  have n: "plain (GMap n)" by (rule plain_entry[OF assms(1) map_of_SomeD[OF assms(2)]])
  then have "plain g" by (rule plain_entry[OF _ map_of_SomeD[OF assms(3)]])
  from plain_loads[OF this] assms(4) obtain v where v: "loaded g = Some v" "toInterface v = Inr g" "case v of Key _ _ \<Rightarrow> False | _ \<Rightarrow> True"
    by (cases rule: loads_cases) (auto simp: isDictOrKey_def split: gval.splits node.splits)
  have "splitPath (k @ CHR ''.'' # k') = [k, k']"
    using assms(5,6) by (simp add: splitPath_def split_on_append split_on_atom)
  moreover have "loaded (GMap n) = Some (NewDict (key_nodes n))"
    using loaded_map[OF n] by (simp add: loaded_def)
  ultimately have "Lookup (Some (NewDict (key_nodes m))) (k @ CHR ''.'' # k') = Inr (Some (Some (Key k' (Some v))))"
    by (simp add: Lookup_def Find_def Dict_Find_loaded assms(2,3) v(1))
  then show ?thesis by (simp add: AST_Lookup_def v(2))
qed

lemma platform_plain: "plain (GMap (platform_map b d))"
  by (simp add: platform_map_def sorted_map_def less_char_def)

lemma platform_vars: "\<exists>v. varsForPlatform b d dp = Inr v \<and> tree v = Some (NewDict (key_nodes (platform_map b d)))"
  by (simp add: varsForPlatform_def NewVars_def NewVarsWithProcessors_def NewAST_def loaded_map[OF platform_plain]
      NewVarsWithProcessorsFromAst_def del: load.simps(1))

lemma platform_variable:
  assumes "varsForPlatform b d dp = Inr v" "map_of (platform_map b d) k = Some (GMap n)" "map_of n k' = Some g" "g \<noteq> GNil"
    "CHR ''.'' \<notin> set k" "CHR ''.'' \<notin> set k'"
  shows "Vars_Lookup v (k @ CHR ''.'' # k') = LFound g"
  using platform_vars[of b d dp] assms(1) plain_lookup[OF platform_plain assms(2-6)] by (auto simp: Vars_Lookup_def)

lemma platform_variables:
  assumes "varsForPlatform b d dp = Inr v"
  shows "Vars_Lookup v ''install.in_default'' = LFound (GBool (b \<or> IsInstalledViaExternalPkgMgr d))"
    "Vars_Lookup v ''runtime.platform'' = LFound (GStr (detail_String d))"
    "Vars_Lookup v ''runtime.os'' = LFound (GStr (OS d))" "Vars_Lookup v ''runtime.arch'' = LFound (GStr (Arch d))"
    "Vars_Lookup v ''runtime.native_arch'' = LFound (GStr (NativeArch d))"
    "Vars_Lookup v ''runtime.family'' = LFound (GStr (Family d))"
    "Vars_Lookup v ''runtime.major'' = LFound (GInt (Major d))" "Vars_Lookup v ''runtime.minor'' = LFound (GInt (Minor d))"
    "Vars_Lookup v ''user.root'' = LFound (GBool (Root (User d)))"
  using platform_variable[OF assms, of "''install''" _ "''in_default''"] platform_variable[OF assms, of "''runtime''" _ "''platform''"]
    platform_variable[OF assms, of "''runtime''" _ "''os''"] platform_variable[OF assms, of "''runtime''" _ "''arch''"]
    platform_variable[OF assms, of "''runtime''" _ "''native_arch''"] platform_variable[OF assms, of "''runtime''" _ "''family''"]
    platform_variable[OF assms, of "''runtime''" _ "''major''"] platform_variable[OF assms, of "''runtime''" _ "''minor''"]
    platform_variable[OF assms, of "''user''" _ "''root''"]
  by (simp_all add: platform_map_def)
section \<open>Samples\<close>

definition sample_platform :: "bool \<Rightarrow> PlatformDetail" where
  "sample_platform isRoot = \<lparr>OS = ''linux'', Arch = ''amd64'', GOOS = ''linux'', NativeArch = ''amd64'', Family = ''debian'', Major = 12, Minor = 0,
     IsInstalledViaExternalPkgMgr = False, User = \<lparr>Root = isRoot\<rparr>\<rparr>"

definition sample_input :: "string \<Rightarrow> string list \<Rightarrow> InputSpec" where
  "sample_input n as = \<lparr>Name = n, Aliases = as, Description = ''sample'', Platforms = [''linux/amd64''], Outputs = [''elasticsearch''],
     ProxiedActions = [], Preventions = [\<lparr>Condition = ''${user.root} == false'', PreventionMessage = ''requires root''\<rparr>],
     Command = None, Service = Some \<lparr>CPort = 6788, CSocket = ''.eaci.sock''\<rparr>, IsolateUnits = False, SingleReceiver = False\<rparr>"

definition sample_files :: "(string \<times> Spec) list" where
  "sample_files = [(''a.spec.yml'', \<lparr>Version = 2, Inputs = [sample_input ''endpoint'' [''ep'']]\<rparr>),
     (''b.spec.yml'', \<lparr>Version = 2, Inputs = [sample_input ''osquery'' []]\<rparr>)]"

definition sample_eql :: eql_config where
  "sample_eql = \<lparr>parser = \<lambda>_. Some (ExpArithmeticEQ (ExpVariable [NAME ''user.root'']) (ExpBoolean False)),
     iteration = \<lambda>_. 0, engine = \<lambda>_. None\<rparr>"

lemma sample_prevention:
  assumes "varsForPlatform b d [] = Inr v" "cond \<noteq> []"
  shows "prevention_holds sample_eql v cond = Some (\<not> Root (User d))"
  using platform_variables(9)[OF assms(1)] assms(2)
  by (simp add: prevention_holds_def sample_eql_def eql_New_def Eval_def visit_both_def VisitVariable_def lookup_name_def settle_def bool_res_def compareEQ.simps)

lemma loaded_alias:
  assumes "LoadRuntimeSpecs skip stat d fs = Inr r" "map_of (aliasMapping r) a = Some n"
  shows "(\<exists>s. map_of (inputSpecs r) n = Some s \<and> a \<in> set (Aliases (InputSpecOf s)))
    \<and> (map_of (inputSpecs r) a = None \<or> a = n)"
proof -
  let ?xs = "supported d (all_inputs fs)"
  note c = loaded_specs(1)[OF assms(1)] and r = loaded_specs(2)[OF assms(1)]
  obtain x where x: "x \<in> set ?xs" "a \<in> set (Aliases (snd x))" "Name (snd x) = n"
    using assms(2) r alias_entries_Some[OF c] by (auto simp: represents_def)
  have "(n, runtime_spec d x) \<in> set (spec_entries d ?xs)" using x by (force simp: spec_entries_def)
  then have "map_of (inputSpecs r) n = Some (runtime_spec d x)"
    using r spec_entries_distinct[OF c] by (simp add: represents_def)
  moreover have "a = n" if y: "y \<in> set ?xs" "Name (snd y) = a" for y
    using compatible_pair[OF c x(1) y(1)] x(2,3) y(2) by (cases "x = y") (auto simp: clash_def)
  then have "map_of (inputSpecs r) a = None \<or> a = n"
    using r spec_entries_None[of d ?xs a] by (auto simp: represents_def)
  ultimately show ?thesis using x(2) by (auto simp: runtime_spec_def)
qed

text \<open>A valid specification without aliases has no input that clashes with another on a platform.\<close>

lemma valid_spec_loads:
  assumes "Spec_Validate spec = None" "\<forall>s\<in>set (Inputs spec). Aliases s = []" "check_binary skip stat d path = None"
  shows "\<exists>r. LoadRuntimeSpecs skip stat d [(path, spec)] = Inr r"
proof -
  have "sorted_wrt (\<lambda>s t. Name s = Name t \<longrightarrow> set (Platforms s) \<inter> set (Platforms t) = {}) (Inputs spec)"
    using assms(1) spec_loop_disjoint[of 0 "Inputs spec" "[]"] by (auto simp: Spec_Validate_def split: if_splits)
  from sorted_wrt_mono_rel[OF _ sorted_wrt_filter[OF this, of "\<lambda>s. detail_String d \<in> set (Platforms s)"], of "\<lambda>s t. \<not> clash s t"]
  have "sorted_wrt (\<lambda>s t. \<not> clash s t) (filter (\<lambda>s. detail_String d \<in> set (Platforms s)) (Inputs spec))"
    using assms(2) by (auto simp: clash_def)
  then have "compatible (supported d (all_inputs [(path, spec)]))"
    by (simp add: compatible_def supported_def all_inputs_def filter_map comp_def sorted_wrt_map)
  then show ?thesis
    using LoadRuntimeSpecs_loads[of skip stat d "[(path, spec)]"] assms(3) by (auto simp: load_result_def binaries_found_def)
qed

section \<open>The properties\<close>

text \<open>C21: Go ranges over the specification files in no fixed order; loading them gives the same inputs, errors
  of their runtime checks included, and the same aliases in every order, or fails in every order.\<close>

theorem loading_ignores_file_order:
  assumes "mset fs = mset gs" "LoadRuntimeSpecs skip stat d fs = Inr r"
  shows "\<exists>r'. LoadRuntimeSpecs skip stat d gs = Inr r' \<and> map_of (aliasMapping r') = map_of (aliasMapping r)
    \<and> (\<forall>c b t. GetInput c b r' t = GetInput c b r t)"
proof -
  let ?xs = "supported d (all_inputs fs)" and ?ys = "supported d (all_inputs gs)"
  have m: "mset ?xs = mset ?ys" "set (all_inputs fs) = set (all_inputs gs)"
    using all_inputs_mset[OF assms(1)] mset_eq_setD by (auto simp: supported_def)
  note c = loaded_specs(1)[OF assms(2)] and r = loaded_specs(2)[OF assms(2)]
  have "compatible ?ys" "binaries_found skip stat d gs"
    using compatible_mset[OF m(1) c] loaded_specs(3)[OF assms(2)] mset_eq_setD[OF assms(1)] by (simp_all add: binaries_found_def)
  then obtain r' where r': "LoadRuntimeSpecs skip stat d gs = Inr r'" "represents r' d (Name ` snd ` set (all_inputs gs)) ?ys"
    using LoadRuntimeSpecs_loads[of skip stat d gs] by (auto simp: load_result_def)
  moreover have "GetInput cfg b r' t = GetInput cfg b r t" for cfg b t
    using GetInput_represents[OF r'(2)] r entries_mset(1)[OF m(1) c] m(2) by simp
  ultimately show ?thesis
    using r entries_mset(2)[OF m(1) c] by (auto simp: represents_def)
qed

theorem loading_ignores_file_order_witness:
  "\<exists>r r'. LoadRuntimeSpecs True (\<lambda>_. NotExist) (sample_platform False) sample_files = Inr r
    \<and> LoadRuntimeSpecs True (\<lambda>_. NotExist) (sample_platform False) (rev sample_files) = Inr r'
    \<and> map_of (aliasMapping r') ''ep'' = Some ''endpoint''"
proof -
  obtain r where r: "LoadRuntimeSpecs True (\<lambda>_. NotExist) (sample_platform False) sample_files = Inr r"
    "map_of (aliasMapping r) ''ep'' = Some ''endpoint''"
    by (simp add: LoadRuntimeSpecs_def sample_files_def check_binary_def load_input_def sample_input_def add_type_def
        detail_String_def Platform_String_def sample_platform_def Platform.truncate_def Let_def)
  with loading_ignores_file_order[of sample_files "rev sample_files", OF _ r(1)] show ?thesis by auto
qed

text \<open>C22: An input is handed out without an error exactly when its type is known, it is supported on the platform, and
  each of its preventions compiles and is false of the variables of the platform.\<close>

theorem input_runs_unless_prevented:
  "GetInput c b r t = (Some s, None) \<longleftrightarrow> t \<in> set (inputTypes r) \<and> map_of (inputSpecs r) t = Some s
    \<and> (\<exists>v. varsForPlatform b (platform r) [] = Inr v
          \<and> (\<forall>p\<in>set (Preventions (InputSpecOf s)). prevention_holds c v (Condition p) = Some False))"
  by (auto simp: GetInput_def validateRuntimeChecks_def prevention_loop_None split: option.splits sum.splits)

definition sample_specs :: "bool \<Rightarrow> RuntimeSpecs" where
  "sample_specs isRoot = \<lparr>platform = sample_platform isRoot, inputTypes = [''endpoint''],
     inputSpecs = [(''endpoint'', runtime_spec (sample_platform isRoot) (''a.spec.yml'', sample_input ''endpoint'' []))], aliasMapping = []\<rparr>"

theorem input_runs_unless_prevented_witness:
  "(\<exists>s. GetInput sample_eql True (sample_specs True) ''endpoint'' = (Some s, None))
    \<and> (\<forall>s. GetInput sample_eql True (sample_specs False) ''endpoint'' \<noteq> (Some s, None))"
proof -
  have v: "\<exists>v. varsForPlatform True d [] = Inr v \<and> prevention_holds sample_eql v ''${user.root} == false'' = Some (\<not> Root (User d))" for d
    using platform_vars[of True d "[]"] sample_prevention[of True d _ "''${user.root} == false''"] by auto
  show ?thesis
    using v[of "sample_platform True"] v[of "sample_platform False"] unfolding input_runs_unless_prevented
    by (auto simp: sample_specs_def runtime_spec_def sample_input_def sample_platform_def)
qed

end
