(* ===== verification/Runtime_Config.thy ===== *)
theory Runtime_Config
  imports Keyed_Loops Go_Value
begin

text \<open>
  Which runtime a component uses, \<^verbatim>\<open>pkg/component/component.go\<close>: the configuration of the runtimes
  per beat, input type and output, its validation, and the choice for an input. A runtime is
  a string, as in the code. Unpacking a configuration is done by \<^verbatim>\<open>go-ucfg\<close>, a parameter.
\<close>

type_synonym RuntimeManager = string

definition ProcessRuntimeManager :: RuntimeManager where "ProcessRuntimeManager = ''process''"
definition OtelRuntimeManager :: RuntimeManager where "OtelRuntimeManager = ''otel''"
definition DefaultRuntimeManager :: RuntimeManager where "DefaultRuntimeManager = ProcessRuntimeManager"

record BeatRuntimeConfig =
  BeatDefault :: string
  BeatInputType :: "(string, string) gomap"

record beat_configs =
  Auditbeat :: BeatRuntimeConfig
  Filebeat :: BeatRuntimeConfig
  Heartbeat :: BeatRuntimeConfig
  Metricbeat :: BeatRuntimeConfig
  Osquerybeat :: BeatRuntimeConfig
  Packetbeat :: BeatRuntimeConfig

record DynamicInputsConfig = beat_configs +
  DynamicDefault :: string
  StaticVariables :: "string list"

record RuntimeConfig = beat_configs +
  RuntimeDefault :: string
  DynamicInputs :: DynamicInputsConfig
  Output :: "(string, string) gomap"
  OtelPartialConfigReload :: bool

text \<open>The two methods that select the configuration of a beat have the same cases.\<close>

definition BeatRuntimeConfigOf :: "'a beat_configs_scheme \<Rightarrow> string \<Rightarrow> BeatRuntimeConfig option" where
  "BeatRuntimeConfigOf r beatName =
     (if beatName = ''auditbeat'' then Some (Auditbeat r)
      else if beatName = ''filebeat'' then Some (Filebeat r)
      else if beatName = ''heartbeat'' then Some (Heartbeat r)
      else if beatName = ''metricbeat'' then Some (Metricbeat r)
      else if beatName = ''osquerybeat'' then Some (Osquerybeat r)
      else if beatName = ''packetbeat'' then Some (Packetbeat r)
      else None)"

definition beat_list :: "'a beat_configs_scheme \<Rightarrow> BeatRuntimeConfig list" where
  "beat_list r = [Auditbeat r, Filebeat r, Heartbeat r, Metricbeat r, Osquerybeat r, Packetbeat r]"

section \<open>Reading\<close>

definition normalize :: "DynamicInputsConfig \<Rightarrow> DynamicInputsConfig" where
  "normalize d = d\<lparr>StaticVariables := map (\<lambda>s. rev (dropWhile (\<lambda>c. c = CHR ''.'') (rev s))) (StaticVariables d)\<rparr>"

datatype unpack_error = UnpackFields gerror | NotStringOrObject

definition Unpack ::
  "((string \<times> gval) list \<Rightarrow> DynamicInputsConfig \<Rightarrow> gerror + DynamicInputsConfig) \<Rightarrow> gval \<Rightarrow> DynamicInputsConfig
   \<Rightarrow> unpack_error + DynamicInputsConfig" where
  "Unpack unpackFields value d = (case value of
       GNil \<Rightarrow> Inr d
     | GStr v \<Rightarrow> Inr (d\<lparr>DynamicDefault := v\<rparr>)
     | GMap m \<Rightarrow> (case unpackFields m d of Inl e \<Rightarrow> Inl (UnpackFields e) | Inr d' \<Rightarrow> Inr (normalize d'))
     | _ \<Rightarrow> Inl NotStringOrObject)"

definition no_beat :: BeatRuntimeConfig where
  "no_beat = \<lparr>BeatDefault = [], BeatInputType = []\<rparr>"

definition DefaultDynamicInputsConfig :: DynamicInputsConfig where
  "DefaultDynamicInputsConfig = \<lparr>Auditbeat = no_beat, Filebeat = no_beat, Heartbeat = no_beat, Metricbeat = no_beat,
     Osquerybeat = no_beat, Packetbeat = no_beat, DynamicDefault = [], StaticVariables = []\<rparr>"

definition DefaultRuntimeConfig :: RuntimeConfig where
  "DefaultRuntimeConfig = (let otel = no_beat\<lparr>BeatDefault := OtelRuntimeManager\<rparr> in
     \<lparr>Auditbeat = otel, Filebeat = otel, Heartbeat = no_beat, Metricbeat = otel, Osquerybeat = otel, Packetbeat = otel,
      RuntimeDefault = DefaultRuntimeManager, DynamicInputs = DefaultDynamicInputsConfig, Output = [],
      OtelPartialConfigReload = True\<rparr>)"

section \<open>Validation\<close>

datatype runtime_error = InvalidRuntime string | EmptyStaticVariable | DynamicInputsError runtime_error | OutputNotSupported string

definition validateRuntimeManager :: "string \<Rightarrow> bool \<Rightarrow> runtime_error option" where
  "validateRuntimeManager val allowEmpty =
     (if allowEmpty \<and> val = [] then None
      else if val = [] \<or> val = OtelRuntimeManager \<or> val = ProcessRuntimeManager then None
      else Some (InvalidRuntime val))"

fun first_error :: "('a \<Rightarrow> 'e option) \<Rightarrow> 'a list \<Rightarrow> 'e option" where
  "first_error f [] = None"
| "first_error f (x # xs) = (case f x of Some e \<Rightarrow> Some e | None \<Rightarrow> first_error f xs)"

definition validate_beat :: "BeatRuntimeConfig \<Rightarrow> runtime_error option" where
  "validate_beat b = (case validateRuntimeManager (BeatDefault b) True of
       Some e \<Rightarrow> Some e
     | None \<Rightarrow> first_error (\<lambda>(_, val). validateRuntimeManager val False) (BeatInputType b))"

definition validate_dynamic :: "DynamicInputsConfig \<Rightarrow> runtime_error option" where
  "validate_dynamic d = (case validateRuntimeManager (DynamicDefault d) True of
       Some e \<Rightarrow> Some e
     | None \<Rightarrow> (case first_error validate_beat (beat_list d) of
         Some e \<Rightarrow> Some e
       | None \<Rightarrow> first_error (\<lambda>s. if trim_space s = [] then Some EmptyStaticVariable else None) (StaticVariables d)))"

definition Validate :: "RuntimeConfig \<Rightarrow> runtime_error option" where
  "Validate r = (case validateRuntimeManager (RuntimeDefault r) False of
       Some e \<Rightarrow> Some e
     | None \<Rightarrow> (case first_error validate_beat (beat_list r) of
         Some e \<Rightarrow> Some e
       | None \<Rightarrow> (case validate_dynamic (DynamicInputs r) of
           Some e \<Rightarrow> Some (DynamicInputsError e)
         | None \<Rightarrow> first_error (\<lambda>(name, runtime).
             if name \<notin> {''elasticsearch'', ''logstash'', ''kafka''} then Some (OutputNotSupported name)
             else validateRuntimeManager runtime False) (Output r))))"

section \<open>The choice\<close>

definition RuntimeManagerForDynamicInput :: "DynamicInputsConfig \<Rightarrow> string \<Rightarrow> string \<Rightarrow> RuntimeManager" where
  "RuntimeManagerForDynamicInput d beatName inputType = (case BeatRuntimeConfigOf d beatName of
       None \<Rightarrow> DynamicDefault d
     | Some b \<Rightarrow> (case map_of (BeatInputType b) inputType of
           Some manager \<Rightarrow> if manager \<noteq> [] then manager
             else if BeatDefault b \<noteq> [] then BeatDefault b else DynamicDefault d
         | None \<Rightarrow> if BeatDefault b \<noteq> [] then BeatDefault b else DynamicDefault d))"

text \<open>Of the output, the type and whether it is enabled matter.\<close>

definition RuntimeManagerForInputType :: "RuntimeConfig \<Rightarrow> string \<Rightarrow> string \<Rightarrow> string \<Rightarrow> bool \<Rightarrow> RuntimeManager" where
  "RuntimeManagerForInputType r inputType beatName outputType outputEnabled =
     (let fallback = (if RuntimeDefault r \<noteq> [] then RuntimeDefault r else DefaultRuntimeManager);
          by_beat = (case BeatRuntimeConfigOf r beatName of
              None \<Rightarrow> fallback
            | Some b \<Rightarrow> (case map_of (BeatInputType b) inputType of
                  Some manager \<Rightarrow> manager
                | None \<Rightarrow> if BeatDefault b \<noteq> [] then BeatDefault b else fallback))
      in case map_of (Output r) outputType of
           Some runtime \<Rightarrow> if outputEnabled then runtime else by_beat
         | None \<Rightarrow> by_beat)"

section \<open>A validated configuration names a runtime\<close>

definition is_runtime :: "RuntimeManager \<Rightarrow> bool" where
  "is_runtime m \<longleftrightarrow> m = ProcessRuntimeManager \<or> m = OtelRuntimeManager"

lemma no_error_then: "(case x of None \<Rightarrow> y | Some e \<Rightarrow> Some e) = None \<longleftrightarrow> x = None \<and> y = None"
  by (simp split: option.split)

lemma first_error_None: "first_error f xs = None \<longleftrightarrow> (\<forall>x\<in>set xs. f x = None)"
  by (induction xs) (auto split: option.split)

lemma validateRuntimeManager_None: "validateRuntimeManager val allow = None \<longleftrightarrow> val = [] \<or> is_runtime val"
  by (auto simp: validateRuntimeManager_def is_runtime_def)

lemma validate_beat_None:
  "validate_beat b = None \<longleftrightarrow> (BeatDefault b = [] \<or> is_runtime (BeatDefault b)) \<and> (\<forall>(t, m)\<in>set (BeatInputType b). m = [] \<or> is_runtime m)"
  by (auto simp: validate_beat_def no_error_then first_error_None validateRuntimeManager_None)

lemma Validate_None:
  assumes "Validate r = None"
  shows "RuntimeDefault r = [] \<or> is_runtime (RuntimeDefault r)"
    and "BeatRuntimeConfigOf r beat = Some b \<Longrightarrow> validate_beat b = None"
    and "map_of (Output r) t = Some m \<Longrightarrow> m = [] \<or> is_runtime m"
proof -
  have v: "validateRuntimeManager (RuntimeDefault r) False = None" "\<forall>b\<in>set (beat_list r). validate_beat b = None"
    "\<forall>(n, m)\<in>set (Output r). validateRuntimeManager m False = None"
    using assms by (auto simp: Validate_def first_error_None split: option.splits if_splits)
  show "RuntimeDefault r = [] \<or> is_runtime (RuntimeDefault r)" using v(1) by (simp add: validateRuntimeManager_None)
  show "validate_beat b = None" if "BeatRuntimeConfigOf r beat = Some b"
    using v(2) that by (auto simp: BeatRuntimeConfigOf_def beat_list_def split: if_splits)
  show "m = [] \<or> is_runtime m" if "map_of (Output r) t = Some m"
    using v(3) map_of_SomeD[OF that] by (auto simp: validateRuntimeManager_None)
qed

lemma default_is_runtime: "is_runtime DefaultRuntimeManager"
  by (simp add: is_runtime_def DefaultRuntimeManager_def)

lemma chosen_runtime:
  assumes "Validate r = None"
  shows "is_runtime (RuntimeManagerForInputType r t beat ot en)
    \<or> RuntimeManagerForInputType r t beat ot en = [] \<and> (map_of (Output r) ot = Some [] \<and> en
        \<or> (\<exists>b. BeatRuntimeConfigOf r beat = Some b \<and> map_of (BeatInputType b) t = Some []))"
proof -
  have "is_runtime (if RuntimeDefault r \<noteq> [] then RuntimeDefault r else DefaultRuntimeManager)"
    using Validate_None(1)[OF assms] default_is_runtime by auto
  moreover have "m = [] \<or> is_runtime m" if "BeatRuntimeConfigOf r beat = Some b" "map_of (BeatInputType b) t = Some m" for b m
    using Validate_None(2)[OF assms that(1)] map_of_SomeD[OF that(2)] by (auto simp: validate_beat_None)
  moreover have "BeatDefault b = [] \<or> is_runtime (BeatDefault b)" if "BeatRuntimeConfigOf r beat = Some b" for b
    using Validate_None(2)[OF assms that] by (auto simp: validate_beat_None)
  ultimately show ?thesis
    using Validate_None(3)[OF assms, of ot]
    by (auto simp: RuntimeManagerForInputType_def Let_def split: option.splits)
qed

lemma default_config_valid: "Validate DefaultRuntimeConfig = None"
  by (simp add: Validate_def DefaultRuntimeConfig_def validate_dynamic_def DefaultDynamicInputsConfig_def beat_list_def
      validate_beat_def no_beat_def validateRuntimeManager_def DefaultRuntimeManager_def Let_def)

end
