(* ===== verification/Component_Model.thy ===== *)
theory Component_Model
  imports Input_Specs_Props Runtime_Config Component_Props
begin

text \<open>
  From a policy to the components to run, \<^verbatim>\<open>pkg/component/component.go\<close>: the outputs and inputs of the
  policy in an intermediate form, the units and components made of them, and the check that the
  identifier of a component names a directory of its own.

  The configuration of a unit is turned into a message of the control protocol by the client library, the
  parameter \<open>expectedConfig\<close>; feature flags and limits are parsed by their own packages, and
  \<open>madeAt\<close> is the clock when the component of a runtime and an identifier is made. Go
  ranges over the outputs and the input types in the order that the ranking \<open>rk\<close> gives.
\<close>

type_synonym config = "(string \<times> gval) list"

record 'p model_env =
  eqlConfig :: eql_config
  inDefaultPath :: bool
  runDir :: "gerror + string list"
  expectedConfig :: "config \<Rightarrow> go_error + 'p"
  UnitTypeInput :: int
  UnitTypeOutput :: int
  UnitLogLevelError :: int
  UnitLogLevelWarn :: int
  UnitLogLevelInfo :: int
  UnitLogLevelDebug :: int
  UnitLogLevelTrace :: int
  parseFeatures :: "config \<Rightarrow> gerror + 'p option"
  parseLimits :: "config \<Rightarrow> gerror + 'p"
  madeAt :: "RuntimeManager \<Rightarrow> string \<Rightarrow> gtime"

section \<open>Log levels\<close>

datatype level_error = LevelNotString | UnknownLevel string

definition stringToLogLevel :: "'p model_env \<Rightarrow> string \<Rightarrow> level_error + int" where
  "stringToLogLevel e val = (let v = map lower (trim_space val) in
     if v = ''error'' then Inr (UnitLogLevelError e)
     else if v = ''warn'' \<or> v = ''warning'' then Inr (UnitLogLevelWarn e)
     else if v = ''info'' then Inr (UnitLogLevelInfo e)
     else if v = ''debug'' then Inr (UnitLogLevelDebug e)
     else if v = ''trace'' then Inr (UnitLogLevelTrace e)
     else Inl (UnknownLevel v))"

text \<open>The level and the configuration without its key; \<open>ll\<close> is the printed level of the agent.\<close>

definition getLogLevel :: "'p model_env \<Rightarrow> string \<Rightarrow> config \<Rightarrow> level_error + int \<times> config" where
  "getLogLevel e ll val = rbind (stringToLogLevel e ll) (\<lambda>logLevel. case map_of val ''log_level'' of
       None \<Rightarrow> Inr (logLevel, val)
     | Some (GStr s) \<Rightarrow> rbind (stringToLogLevel e s) (\<lambda>l. Inr (l, AList.delete ''log_level'' val))
     | Some _ \<Rightarrow> Inl LevelNotString)"

section \<open>The intermediate form\<close>

record inputI =
  idx :: nat
  inId :: string
  inEnabled :: bool
  inLogLevel :: int
  inType :: string
  inRuntimeManager :: RuntimeManager
  inDynamic :: bool
  inConfig :: config

record outputI =
  outName :: string
  outEnabled :: bool
  outLogLevel :: int
  OutputType :: string
  outConfig :: config
  outInputs :: "(string, inputI list) gomap"

datatype policy_error =
    InvalidOutputs
  | InvalidOutput string
  | OutputTypeMissing string
  | OutputTypeInvalid string
  | OutputEnabledInvalid string
  | OutputLevelInvalid string level_error
  | HeadersInvalid
  | InvalidInputs
  | InvalidInput nat
  | InputTypeMissing nat
  | InputTypeInvalid nat
  | InputIdInvalid nat
  | DuplicateId nat string
  | UseOutputInvalid nat
  | UnknownOutput nat string
  | InputEnabledInvalid nat
  | InputLevelInvalid nat level_error
  | RuntimeInvalid nat
  | RuntimeUnknown nat
  | FeaturesInvalid gerror
  | LimitsInvalid gerror
  | ModifierFailed gerror
  | MonitoringFailed gerror
  | MonitoringComponents policy_error

definition agentSection :: "config \<Rightarrow> config" where
  "agentSection policy = filter (\<lambda>(k, _). k = ''agent'' \<or> has_prefix k ''agent.'') policy"

definition injectInputPolicyID :: "config \<Rightarrow> config \<Rightarrow> config" where
  "injectInputPolicyID fleetPolicy inputConfig = (case map_of fleetPolicy ''revision'' of
       None \<Rightarrow> inputConfig
     | Some revision \<Rightarrow> (case map_of inputConfig ''policy'' of
           Some (GMap m) \<Rightarrow> map_put ''policy'' (GMap (map_put ''revision'' revision m)) inputConfig
         | Some GNil \<Rightarrow> map_put ''policy'' (GMap [(''revision'', revision)]) inputConfig
         | Some _ \<Rightarrow> inputConfig
         | None \<Rightarrow> map_put ''policy'' (GMap [(''revision'', revision)]) inputConfig))"

text \<open>The key \<open>enabled\<close> of an input or an output, true when it is absent.\<close>

definition read_enabled :: "policy_error \<Rightarrow> config \<Rightarrow> policy_error + bool \<times> config" where
  "read_enabled err cfg = (case map_of cfg ''enabled'' of
       None \<Rightarrow> Inr (True, cfg)
     | Some (GBool b) \<Rightarrow> Inr (b, AList.delete ''enabled'' cfg)
     | Some _ \<Rightarrow> Inl err)"

definition inject_headers :: "(string \<times> string) list \<Rightarrow> config \<Rightarrow> policy_error + config" where
  "inject_headers agentHeaders cfg = (if agentHeaders = [] then Inr cfg
     else rbind (case map_of cfg ''headers'' of
         None \<Rightarrow> Inr [] | Some (GMap m) \<Rightarrow> Inr m | Some _ \<Rightarrow> Inl HeadersInvalid)
       (\<lambda>hs. Inr (map_put ''headers'' (GMap (foldl (\<lambda>m (n, v). if map_of m n = None then map_put n (GStr v) m else m) hs agentHeaders)) cfg)))"

text \<open>The provider of the headers may be nil.\<close>

definition ParseOutput ::
  "'p model_env \<Rightarrow> string \<Rightarrow> (string \<times> string) list option \<Rightarrow> string \<Rightarrow> config \<Rightarrow> policy_error + outputI" where
  "ParseOutput e ll headers name cfg = (case map_of cfg ''type'' of
       None \<Rightarrow> Inl (OutputTypeMissing name)
     | Some (GStr t) \<Rightarrow>
         rbind (read_enabled (OutputEnabledInvalid name) cfg) (\<lambda>(enabled, cfg1).
         rbind (map_sum (OutputLevelInvalid name) id (getLogLevel e ll cfg1)) (\<lambda>(logLevel, cfg2).
         rbind (case headers of
             Some hs \<Rightarrow> if t = ''elasticsearch'' then inject_headers hs cfg2 else Inr cfg2
           | None \<Rightarrow> Inr cfg2) (\<lambda>cfg3.
         Inr \<lparr>outName = name, outEnabled = enabled, outLogLevel = logLevel, OutputType = t, outConfig = cfg3, outInputs = []\<rparr>)))
     | Some _ \<Rightarrow> Inl (OutputTypeInvalid name))"

definition parse_outputs ::
  "'p model_env \<Rightarrow> string \<Rightarrow> (string \<times> string) list option \<Rightarrow> (string \<times> gval) list \<Rightarrow> policy_error + (string, outputI) gomap" where
  "parse_outputs e ll headers outputs = rmap (\<lambda>(name, raw). case raw of
       GMap cfg \<Rightarrow> rbind (ParseOutput e ll headers name cfg) (\<lambda>out. Inr (name, out))
     | _ \<Rightarrow> Inl (InvalidOutput name)) outputs"

definition hasDuplicate :: "(string, outputI) gomap \<Rightarrow> string \<Rightarrow> bool" where
  "hasDuplicate outputsMap i \<longleftrightarrow> list_ex (\<lambda>(_, out). list_ex (\<lambda>(_, ins). list_ex (\<lambda>j. inId j = i) ins) (outInputs out)) outputsMap"

definition read_runtime :: "nat \<Rightarrow> config \<Rightarrow> policy_error + RuntimeManager \<times> config" where
  "read_runtime i cfg = (case map_of cfg ''_runtime_experimental'' of
       None \<Rightarrow> Inr ([], cfg)
     | Some (GStr m) \<Rightarrow> if m = OtelRuntimeManager \<or> m = ProcessRuntimeManager
         then Inr (m, AList.delete ''_runtime_experimental'' cfg) else Inl (RuntimeUnknown i)
     | Some _ \<Rightarrow> Inl (RuntimeInvalid i))"

text \<open>The type of an input behind its alias, and its identifier, the type when there is none.\<close>

definition read_type :: "(string, string) gomap \<Rightarrow> nat \<Rightarrow> config \<Rightarrow> policy_error + string \<times> config" where
  "read_type aliases i cfg = (case map_of cfg ''type'' of
       None \<Rightarrow> Inl (InputTypeMissing i)
     | Some (GStr t) \<Rightarrow> (case map_of aliases t of
           None \<Rightarrow> Inr (t, cfg) | Some realType \<Rightarrow> Inr (realType, map_put ''type'' (GStr realType) cfg))
     | Some _ \<Rightarrow> Inl (InputTypeInvalid i))"

definition read_id :: "nat \<Rightarrow> string \<Rightarrow> config \<Rightarrow> policy_error + string" where
  "read_id i t cfg = (case map_of cfg ''id'' of
       None \<Rightarrow> Inr t | Some (GStr s) \<Rightarrow> Inr s | Some _ \<Rightarrow> Inl (InputIdInvalid i))"

definition read_output :: "nat \<Rightarrow> config \<Rightarrow> policy_error + string \<times> config" where
  "read_output i cfg = (case map_of cfg ''use_output'' of
       None \<Rightarrow> Inr (''default'', cfg)
     | Some (GStr s) \<Rightarrow> Inr (s, AList.delete ''use_output'' cfg)
     | Some _ \<Rightarrow> Inl (UseOutputInvalid i))"

text \<open>The body of the loop over the inputs: the name of the output and the input.\<close>

definition parse_input ::
  "'p model_env \<Rightarrow> (string, string) gomap \<Rightarrow> string \<Rightarrow> (string \<Rightarrow> bool) \<Rightarrow> config \<Rightarrow> (string, outputI) gomap \<Rightarrow> nat \<Rightarrow> gval
   \<Rightarrow> policy_error + string \<times> inputI" where
  "parse_input e aliases ll dynamicInputs policy outs i raw = (case raw of
       GMap cfg \<Rightarrow>
         rbind (read_type aliases i cfg) (\<lambda>(t, cfg1).
         rbind (read_id i t cfg1) (\<lambda>ident.
         if hasDuplicate outs ident then Inl (DuplicateId i ident)
         else rbind (read_output i cfg1) (\<lambda>(outputName, cfg2).
         if map_of outs outputName = None then Inl (UnknownOutput i outputName)
         else rbind (read_enabled (InputEnabledInvalid i) cfg2) (\<lambda>(enabled, cfg3).
         rbind (map_sum (InputLevelInvalid i) id (getLogLevel e ll cfg3)) (\<lambda>(logLevel, cfg4).
         rbind (read_runtime i cfg4) (\<lambda>(runtimeManager, cfg5).
         Inr (outputName, \<lparr>idx = i, inId = ident, inEnabled = enabled, inLogLevel = logLevel, inType = t,
           inRuntimeManager = runtimeManager, inDynamic = dynamicInputs ident, inConfig = injectInputPolicyID policy cfg5\<rparr>)))))))
     | _ \<Rightarrow> Inl (InvalidInput i))"

definition add_input :: "string \<Rightarrow> inputI \<Rightarrow> (string, outputI) gomap \<Rightarrow> (string, outputI) gomap" where
  "add_input name i outs = map (\<lambda>(n, out). (n, if n = name
     then out\<lparr>outInputs := AList.update (inType i) ((case map_of (outInputs out) (inType i) of None \<Rightarrow> [] | Some ins \<Rightarrow> ins) @ [i]) (outInputs out)\<rparr>
     else out)) outs"

fun parse_inputs ::
  "'p model_env \<Rightarrow> (string, string) gomap \<Rightarrow> string \<Rightarrow> (string \<Rightarrow> bool) \<Rightarrow> config \<Rightarrow> nat \<Rightarrow> gval list \<Rightarrow> (string, outputI) gomap
   \<Rightarrow> policy_error + (string, outputI) gomap" where
  "parse_inputs e aliases ll dyn policy i [] outs = Inr outs"
| "parse_inputs e aliases ll dyn policy i (raw # raws) outs =
     rbind (parse_input e aliases ll dyn policy outs i raw) (\<lambda>(name, inp).
       parse_inputs e aliases ll dyn policy (i + 1) raws (add_input name inp outs))"

text \<open>None stands for the nil map: nothing to run.\<close>

definition toIntermediate ::
  "'p model_env \<Rightarrow> (string \<Rightarrow> nat) \<Rightarrow> (string, string) gomap \<Rightarrow> string \<Rightarrow> (string \<times> string) list option \<Rightarrow> (string \<Rightarrow> bool) \<Rightarrow> config
   \<Rightarrow> policy_error + (string, outputI) gomap option" where
  "toIntermediate e rk aliases ll headers dyn policy = (case map_of policy ''outputs'' of
       None \<Rightarrow> Inr None
     | Some (GMap outputs) \<Rightarrow> rbind (parse_outputs e ll headers (iterate rk outputs)) (\<lambda>outs.
         case map_of policy ''inputs'' of
           None \<Rightarrow> Inr None
         | Some (GList inputs) \<Rightarrow> rbind (parse_inputs e aliases ll dyn policy 0 inputs outs) (\<lambda>outs'.
             Inr (if outs' = [] then None else Some outs'))
         | Some _ \<Rightarrow> Inl InvalidInputs)
     | Some _ \<Rightarrow> Inl InvalidOutputs)"

section \<open>The directory of a component\<close>

text \<open>\<^verbatim>\<open>filepath.Clean\<close> of an absolute path that is extended by the elements of another: empty and dot elements are
  dropped and a double dot drops the element before it. The runtime directory is the list of its
  elements.\<close>

fun clean_join :: "string list \<Rightarrow> string list \<Rightarrow> string list" where
  "clean_join dir [] = dir"
| "clean_join dir (x # xs) =
     (if x = [] \<or> x = ''.'' then clean_join dir xs
      else if x = ''..'' then clean_join (butlast dir) xs
      else clean_join (dir @ [x]) xs)"

text \<open>\<^verbatim>\<open>filepath.Rel\<close> of two cleaned absolute paths.\<close>

fun filepath_Rel :: "string list \<Rightarrow> string list \<Rightarrow> string list" where
  "filepath_Rel (b # base) (t # targ) = (if b = t then filepath_Rel base targ else replicate (length (b # base)) ''..'' @ t # targ)"
| "filepath_Rel [] targ = targ"
| "filepath_Rel base [] = replicate (length base) ''..''"

datatype id_error = EmptyID | NoRuntimeDir gerror | OutsideRuntimeDir string

definition validateComponentID :: "gerror + string list \<Rightarrow> string \<Rightarrow> id_error option" where
  "validateComponentID absParent ident =
     (if ident = [] then Some EmptyID
      else case absParent of
        Inl err \<Rightarrow> Some (NoRuntimeDir err)
      | Inr parent \<Rightarrow>
          let rel = filepath_Rel parent (clean_join parent (split_on CHR ''/'' ident)) in
          if rel = [] \<or> has_prefix (join_with CHR ''/'' rel) ''..'' then Some (OutsideRuntimeDir ident) else None)"

section \<open>Units and components\<close>

record 'p model_component = "'p Component" +
  CompID :: string
  CompErr :: "input_error option"
  CompInputSpec :: InputRuntimeSpec
  CompInputType :: string
  CompOutputType :: string
  CompOutputName :: string
  CompRuntimeManager :: RuntimeManager
  CompDynamic :: bool
  OutputStatusReporting :: "bool option"
  LastConfiguredAt :: gtime

record 'p componentsShared =
  sharedFeatures :: "'p option"
  sharedAgentInfo :: "'p option"
  sharedConfig :: 'p

definition unit_of :: "'p model_env \<Rightarrow> int \<Rightarrow> int \<Rightarrow> string \<Rightarrow> config \<Rightarrow> 'p Unit" where
  "unit_of e typ level ident cfg = (case expectedConfig e cfg of
       Inr p \<Rightarrow> \<lparr>ID = ident, Type = typ, LogLevel = level, Config = Some p, Err = None\<rparr>
     | Inl err \<Rightarrow> \<lparr>ID = ident, Type = typ, LogLevel = level, Config = None, Err = Some err\<rparr>)"

definition unitForInput :: "'p model_env \<Rightarrow> inputI \<Rightarrow> string \<Rightarrow> 'p Unit" where
  "unitForInput e i ident = unit_of e (UnitTypeInput e) (inLogLevel i) ident (inConfig i)"

definition unitForOutput :: "'p model_env \<Rightarrow> outputI \<Rightarrow> string \<Rightarrow> 'p Unit" where
  "unitForOutput e out ident = unit_of e (UnitTypeOutput e) (outLogLevel out) ident (outConfig out)"

definition GetInputUnitId :: "string \<Rightarrow> string \<Rightarrow> string" where
  "GetInputUnitId componentID inputID = componentID @ CHR ''-'' # inputID"

definition GetOutputUnitId :: "string \<Rightarrow> string" where
  "GetOutputUnitId componentID = componentID @ ''-unit''"

definition extractStatusReporting :: "config \<Rightarrow> bool option" where
  "extractStatusReporting cfg = (case map_of cfg ''status_reporting'' of
       Some (GMap m) \<Rightarrow> (case map_of m ''enabled'' of Some (GBool b) \<Rightarrow> Some b | _ \<Rightarrow> None)
     | _ \<Rightarrow> None)"

text \<open>The specification that \<^verbatim>\<open>GetInput\<close> returns when there is none.\<close>

definition zero_spec :: InputRuntimeSpec where
  "zero_spec = \<lparr>InputType = [], BinaryName = [], BinaryPath = [], InputSpecOf = \<lparr>Name = [], Aliases = [], Description = [],
     Platforms = [], Outputs = [], ProxiedActions = [], Preventions = [], Command = None, Service = None, IsolateUnits = False,
     SingleReceiver = False\<rparr>\<rparr>"

definition component_error :: "'p model_env \<Rightarrow> InputRuntimeSpec \<Rightarrow> input_error option \<Rightarrow> string \<Rightarrow> string \<Rightarrow> input_error option" where
  "component_error e spec err ident outputType = (case err of
       Some x \<Rightarrow> Some x
     | None \<Rightarrow> if validateComponentID (runDir e) ident \<noteq> None then Some ErrComponentID
         else if outputType \<notin> set (Outputs (InputSpecOf spec)) then Some ErrOutputNotSupported
         else None)"

definition make_component ::
  "'p model_env \<Rightarrow> 'p componentsShared \<Rightarrow> InputRuntimeSpec \<Rightarrow> string \<Rightarrow> outputI \<Rightarrow> string \<Rightarrow> input_error option \<Rightarrow> RuntimeManager \<Rightarrow> bool
   \<Rightarrow> 'p Unit list \<Rightarrow> 'p model_component" where
  "make_component e sh spec inputType out ident err manager dynamic units =
     \<lparr>CompUnits = units, CompFeatures = sharedFeatures sh, CompComponent = Some (sharedConfig sh), CompAgentInfo = sharedAgentInfo sh,
      CompID = ident, CompErr = err, CompInputSpec = spec, CompInputType = inputType, CompOutputType = OutputType out,
      CompOutputName = outName out, CompRuntimeManager = manager, CompDynamic = dynamic,
      OutputStatusReporting = extractStatusReporting (outConfig out), LastConfiguredAt = madeAt e manager ident\<rparr>"

definition manager_for :: "RuntimeConfig \<Rightarrow> InputRuntimeSpec \<Rightarrow> outputI \<Rightarrow> inputI \<Rightarrow> RuntimeManager" where
  "manager_for rc spec out i = (if inRuntimeManager i = []
     then RuntimeManagerForInputType rc (inType i) (BeatName spec) (OutputType out) (outEnabled out) else inRuntimeManager i)"

text \<open>The map from a runtime to its units.\<close>

definition add_unit :: "RuntimeManager \<Rightarrow> 'u \<Rightarrow> (RuntimeManager, 'u list) gomap \<Rightarrow> (RuntimeManager, 'u list) gomap" where
  "add_unit k u m = AList.update k ((case map_of m k of None \<Rightarrow> [] | Some us \<Rightarrow> us) @ [u]) m"

definition joint_components ::
  "'p model_env \<Rightarrow> RuntimeConfig \<Rightarrow> 'p componentsShared \<Rightarrow> InputRuntimeSpec \<Rightarrow> input_error option \<Rightarrow> string \<Rightarrow> outputI \<Rightarrow> inputI list
   \<Rightarrow> 'p model_component list" where
  "joint_components e rc sh spec err inputType out ins =
     (let ident = (if Service (InputSpecOf spec) \<noteq> None then inputType else inputType @ CHR ''-'' # outName out);
          cerr = component_error e spec err ident (OutputType out);
          enabled = filter inEnabled ins;
          byManager = foldl (\<lambda>m i. add_unit (manager_for rc spec out i) (unitForInput e i (GetInputUnitId ident (inId i))) m) [] enabled;
          dynamic = list_ex inDynamic enabled
      in map (\<lambda>k. make_component e sh spec inputType out ident cerr k dynamic (the (map_of byManager k) @ [unitForOutput e out ident]))
           (filter (\<lambda>k. the (map_of byManager k) \<noteq> []) (sort (map fst byManager))))"

definition isolated_components ::
  "'p model_env \<Rightarrow> RuntimeConfig \<Rightarrow> 'p componentsShared \<Rightarrow> InputRuntimeSpec \<Rightarrow> string \<Rightarrow> outputI \<Rightarrow> inputI list \<Rightarrow> 'p model_component list" where
  "isolated_components e rc sh spec inputType out ins = map (\<lambda>i.
     let ident = (if Service (InputSpecOf spec) \<noteq> None then inputType @ CHR ''-'' # inId i
                  else inputType @ CHR ''-'' # outName out @ CHR ''-'' # inId i)
     in make_component e sh spec inputType out ident (component_error e spec None ident (OutputType out)) (manager_for rc spec out i)
          (inDynamic i) [unitForInput e i (GetOutputUnitId ident), unitForOutput e out ident])
     (filter inEnabled ins)"

definition componentsForInputType ::
  "'p model_env \<Rightarrow> RuntimeSpecs \<Rightarrow> RuntimeConfig \<Rightarrow> 'p componentsShared \<Rightarrow> outputI \<Rightarrow> string \<Rightarrow> inputI list \<Rightarrow> 'p model_component list" where
  "componentsForInputType e r rc sh out inputType ins = (case GetInput (eqlConfig e) (inDefaultPath e) r inputType of
     (w, err) \<Rightarrow> let spec = (case w of None \<Rightarrow> zero_spec | Some s \<Rightarrow> s) in
       if err \<noteq> None \<or> \<not> IsolateUnits (InputSpecOf spec) then joint_components e rc sh spec err inputType out ins
       else isolated_components e rc sh spec inputType out ins)"

definition componentsForOutput ::
  "'p model_env \<Rightarrow> (string \<Rightarrow> nat) \<Rightarrow> RuntimeSpecs \<Rightarrow> RuntimeConfig \<Rightarrow> 'p componentsShared \<Rightarrow> outputI \<Rightarrow> 'p model_component list" where
  "componentsForOutput e rk r rc sh out = concat (map (\<lambda>(inputType, ins).
     filter (\<lambda>cm. CompUnits cm \<noteq> []) (componentsForInputType e r rc sh out inputType ins)) (iterate rk (outInputs out)))"

text \<open>What a caller passes beside the policy.\<close>

record 'p model_args =
  logLevel :: string
  headersOf :: "(string \<times> string) list option"
  dynamicInputs :: "string \<Rightarrow> bool"
  agentInfo :: "'p option"

definition PolicyToComponents ::
  "'p model_env \<Rightarrow> (string \<Rightarrow> nat) \<Rightarrow> RuntimeSpecs \<Rightarrow> RuntimeConfig \<Rightarrow> 'p model_args \<Rightarrow> config \<Rightarrow> policy_error + 'p model_component list" where
  "PolicyToComponents e rk r rc a policy =
     (let agentCfg = agentSection policy in
      rbind (map_sum FeaturesInvalid id (parseFeatures e agentCfg)) (\<lambda>feats.
      rbind (toIntermediate e rk (aliasMapping r) (logLevel a) (headersOf a) (dynamicInputs a) policy) (\<lambda>outs.
      case outs of
        None \<Rightarrow> Inr []
      | Some om \<Rightarrow> rbind (map_sum LimitsInvalid id (parseLimits e agentCfg)) (\<lambda>lims.
          let sh = \<lparr>sharedFeatures = feats, sharedAgentInfo = agentInfo a, sharedConfig = lims\<rparr> in
          Inr (concat (map (\<lambda>k. let out = the (map_of om k) in
            if outEnabled out then componentsForOutput e rk r rc sh out else []) (sort (map fst om))))))))"

fun apply_modifiers ::
  "('p model_component list \<Rightarrow> config \<Rightarrow> gerror + 'p model_component list) list \<Rightarrow> config \<Rightarrow> 'p model_component list
   \<Rightarrow> policy_error + 'p model_component list" where
  "apply_modifiers [] policy comps = Inr comps"
| "apply_modifiers (f # fs) policy comps = rbind (map_sum ModifierFailed id (f comps policy)) (apply_modifiers fs policy)"

text \<open>The injector of the monitoring configuration may be nil, and may give no configuration.\<close>

definition ToComponents ::
  "'p model_env \<Rightarrow> (string \<Rightarrow> nat) \<Rightarrow> RuntimeSpecs \<Rightarrow> RuntimeConfig \<Rightarrow> 'p model_args
   \<Rightarrow> ('p model_component list \<Rightarrow> config \<Rightarrow> gerror + 'p model_component list) list
   \<Rightarrow> (config \<Rightarrow> 'p model_component list \<Rightarrow> gerror + config option) option \<Rightarrow> config \<Rightarrow> policy_error + 'p model_component list" where
  "ToComponents e rk r rc a modifiers monitoringInjector policy =
     rbind (PolicyToComponents e rk r rc a policy) (\<lambda>cs.
     rbind (apply_modifiers modifiers policy cs) (\<lambda>comps. case monitoringInjector of
         None \<Rightarrow> Inr comps
       | Some inject \<Rightarrow> rbind (map_sum MonitoringFailed id (inject policy comps)) (\<lambda>w. case w of
             None \<Rightarrow> Inr comps
           | Some cfg \<Rightarrow>
               rbind (map_sum MonitoringComponents id (PolicyToComponents e rk r rc (a\<lparr>dynamicInputs := \<lambda>_. False\<rparr>) cfg)) (\<lambda>ms.
               rbind (apply_modifiers modifiers policy ms) (\<lambda>monitoringComps. Inr (comps @ monitoringComps))))))"

end
