(* ===== verification/Model_Props.thy ===== *)
theory Model_Props
  imports Component_Model
begin

text \<open>
  What the component model promises: every input of the policy is read once and every enabled one is run by
  exactly one component, the units of a component have keys of their own, and a component without an
  error has a directory strictly inside the runtime directory.
\<close>

section \<open>Grouping\<close>

lemma add_units_get:
  "map_of (foldl (\<lambda>m i. add_unit (f i) (g i) m) m xs) k =
     (if map_of m k = None \<and> filter (\<lambda>i. f i = k) xs = [] then None
      else Some ((case map_of m k of None \<Rightarrow> [] | Some us \<Rightarrow> us) @ map g (filter (\<lambda>i. f i = k) xs)))"
  by (induction xs arbitrary: m) (auto simp: add_unit_def update_conv' split: option.splits)

lemma add_units_keys: "set (map fst (foldl (\<lambda>m i. add_unit (f i) (g i) m) m xs)) = set (map fst m) \<union> f ` set xs"
proof (induction xs arbitrary: m)
  case (Cons x xs)
  have "set (map fst (add_unit (f x) (g x) m)) = insert (f x) (set (map fst m))"
    by (simp add: add_unit_def dom_update)
  with Cons show ?case by auto
qed simp

lemma add_units_distinct: "distinct (map fst m) \<Longrightarrow> distinct (map fst (foldl (\<lambda>m i. add_unit (f i) (g i) m) m xs))"
  by (induction xs arbitrary: m) (simp_all add: add_unit_def distinct_update)

lemma concat_pick: "distinct ks \<Longrightarrow> concat (map (\<lambda>k. if y = k then [x] else []) ks) = (if y \<in> set ks then [x] else [])"
  by (induction ks) auto

lemma mset_groups:
  assumes "distinct ks" "f ` set xs \<subseteq> set ks"
  shows "mset (concat (map (\<lambda>k. filter (\<lambda>x. f x = k) xs) ks)) = mset xs"
  using assms(2)
proof (induction xs)
  case (Cons x xs)
  have "mset (concat (map (\<lambda>k. filter (\<lambda>y. f y = k) (x # xs)) ks)) =
      mset (concat (map (\<lambda>k. if f x = k then [x] else []) ks)) + mset (concat (map (\<lambda>k. filter (\<lambda>y. f y = k) xs) ks))"
    by (induction ks) auto
  moreover have "concat (map (\<lambda>k. if f x = k then [x] else []) ks) = [x]"
    using concat_pick[OF assms(1), of "f x" x] Cons.prems by simp
  ultimately show ?case using Cons by simp
qed simp

lemma sum_mset_concat: "\<Sum>\<^sub># (mset (map (\<lambda>x. mset (f x)) xs)) = mset (concat (map f xs))"
  by (induction xs) simp_all

lemma mset_iterate: "mset (iterate rk m) = mset m"
  by (simp add: iterate_def)

section \<open>Units\<close>

definition unit_info :: "'p Unit \<Rightarrow> int \<times> 'p option \<times> go_error option" where
  "unit_info u = (LogLevel u, Config u, Err u)"

definition input_info :: "'p model_env \<Rightarrow> inputI \<Rightarrow> int \<times> 'p option \<times> go_error option" where
  "input_info e i = (inLogLevel i, case expectedConfig e (inConfig i) of Inr p \<Rightarrow> (Some p, None) | Inl err \<Rightarrow> (None, Some err))"

definition input_units :: "'p model_env \<Rightarrow> 'p model_component \<Rightarrow> 'p Unit list" where
  "input_units e cm = filter (\<lambda>u. Type u = UnitTypeInput e) (CompUnits cm)"

lemma unitForInput_simps [simp]:
  "ID (unitForInput e i n) = n" "Type (unitForInput e i n) = UnitTypeInput e" "unit_info (unitForInput e i n) = input_info e i"
  by (simp_all add: unitForInput_def unit_of_def unit_info_def input_info_def split: sum.split)

lemma unitForOutput_simps [simp]:
  "ID (unitForOutput e out n) = n" "Type (unitForOutput e out n) = UnitTypeOutput e"
  by (simp_all add: unitForOutput_def unit_of_def split: sum.split)

lemma make_component_simps [simp]:
  "CompUnits (make_component e sh spec t out n err k d us) = us" "CompID (make_component e sh spec t out n err k d us) = n"
  "CompOutputName (make_component e sh spec t out n err k d us) = outName out"
  "CompInputType (make_component e sh spec t out n err k d us) = t"
  "CompRuntimeManager (make_component e sh spec t out n err k d us) = k"
  "CompErr (make_component e sh spec t out n err k d us) = err"
  by (simp_all add: make_component_def)

lemma joint_components_eq:
  "\<exists>ident dyn. joint_components e rc sh spec err t out ins = map (\<lambda>k.
     make_component e sh spec t out ident (component_error e spec err ident (OutputType out)) k dyn
       (map (\<lambda>i. unitForInput e i (GetInputUnitId ident (inId i))) (filter (\<lambda>i. manager_for rc spec out i = k) (filter inEnabled ins))
        @ [unitForOutput e out ident]))
     (sorted_list_of_set (manager_for rc spec out ` set (filter inEnabled ins)))"
proof -
  let ?f = "manager_for rc spec out" and ?en = "filter inEnabled ins"
  define ident where "ident = (if Service (InputSpecOf spec) \<noteq> None then t else t @ CHR ''-'' # outName out)"
  let ?g = "\<lambda>i. unitForInput e i (GetInputUnitId ident (inId i))"
  define B where "B = foldl (\<lambda>m i. add_unit (?f i) (?g i) m) [] ?en"
  have get: "the (map_of B k) = map ?g (filter (\<lambda>i. ?f i = k) ?en)" "the (map_of B k) \<noteq> []" if "k \<in> set (sort (map fst B))" for k
  proof -
    have "filter (\<lambda>i. ?f i = k) ?en \<noteq> []"
      using that add_units_keys[of ?f ?g "[]" ?en] by (auto simp: B_def filter_empty_conv)
    then show "the (map_of B k) = map ?g (filter (\<lambda>i. ?f i = k) ?en)" "the (map_of B k) \<noteq> []"
      using add_units_get[of ?f ?g "[]" ?en k] by (simp_all add: B_def)
  qed
  have "sort (map fst B) = sorted_list_of_set (?f ` set ?en)"
    using add_units_keys[of ?f ?g "[]" ?en] add_units_distinct[of "[]" ?f ?g ?en]
      sorted_list_of_set_sort_remdups[of "map fst B"] by (simp add: B_def distinct_remdups_id)
  moreover have "filter (\<lambda>k. the (map_of B k) \<noteq> []) (sort (map fst B)) = sort (map fst B)"
    using get(2) by (simp add: filter_id_conv)
  moreover have "joint_components e rc sh spec err t out ins = map (\<lambda>k. make_component e sh spec t out ident
      (component_error e spec err ident (OutputType out)) k (list_ex inDynamic ?en) (the (map_of B k) @ [unitForOutput e out ident]))
      (filter (\<lambda>k. the (map_of B k) \<noteq> []) (sort (map fst B)))"
    by (simp add: joint_components_def Let_def B_def ident_def)
  ultimately have "joint_components e rc sh spec err t out ins = map (\<lambda>k. make_component e sh spec t out ident
      (component_error e spec err ident (OutputType out)) k (list_ex inDynamic ?en)
      (map ?g (filter (\<lambda>i. ?f i = k) ?en) @ [unitForOutput e out ident])) (sorted_list_of_set (?f ` set ?en))"
    using get(1) by simp
  then show ?thesis by blast
qed

text \<open>What a list of components runs: the units of inputs with the output and the type they are for.\<close>

definition runs :: "'p model_env \<Rightarrow> 'p model_component list \<Rightarrow> (string \<times> string \<times> int \<times> 'p option \<times> go_error option) multiset" where
  "runs e cs = mset (concat (map (\<lambda>cm. map (\<lambda>u. (CompOutputName cm, CompInputType cm, unit_info u)) (input_units e cm)) cs))"

lemma runs_append: "runs e (cs @ ds) = runs e cs + runs e ds"
  by (simp add: runs_def)

lemma runs_concat: "runs e (concat css) = \<Sum>\<^sub># (mset (map (runs e) css))"
  by (induction css) (simp_all add: runs_append, simp add: runs_def)

lemma runs_filter: "runs e (filter (\<lambda>cm. CompUnits cm \<noteq> []) cs) = runs e cs"
  by (induction cs) (auto simp: runs_def input_units_def)

lemma joint_runs:
  assumes "UnitTypeInput e \<noteq> UnitTypeOutput e"
  shows "runs e (joint_components e rc sh spec err t out ins) = mset (map (\<lambda>i. (outName out, t, input_info e i)) (filter inEnabled ins))"
proof -
  let ?f = "manager_for rc spec out" and ?en = "filter inEnabled ins"
  let ?ks = "sorted_list_of_set (?f ` set ?en)"
  have "runs e (joint_components e rc sh spec err t out ins)
      = mset (concat (map (\<lambda>k. map (\<lambda>i. (outName out, t, input_info e i)) (filter (\<lambda>i. ?f i = k) ?en)) ?ks))"
    using joint_components_eq[of e rc sh spec err t out ins] assms by (auto simp: runs_def input_units_def comp_def filter_map)
  also have "\<dots> = mset (map (\<lambda>i. (outName out, t, input_info e i)) (concat (map (\<lambda>k. filter (\<lambda>i. ?f i = k) ?en) ?ks)))"
    by (simp add: map_concat comp_def)
  also have "\<dots> = mset (map (\<lambda>i. (outName out, t, input_info e i)) ?en)"
  proof -
    have "mset (concat (map (\<lambda>k. filter (\<lambda>i. ?f i = k) ?en) ?ks)) = mset ?en" by (rule mset_groups) simp_all
    then show ?thesis by (simp only: mset_map)
  qed
  finally show ?thesis .
qed

lemma isolated_runs:
  assumes "UnitTypeInput e \<noteq> UnitTypeOutput e"
  shows "runs e (isolated_components e rc sh spec t out ins) = mset (map (\<lambda>i. (outName out, t, input_info e i)) (filter inEnabled ins))"
  using assms by (induction ins) (auto simp: runs_def isolated_components_def input_units_def Let_def)

lemma componentsForInputType_runs:
  assumes "UnitTypeInput e \<noteq> UnitTypeOutput e"
  shows "runs e (componentsForInputType e r rc sh out t ins) = mset (map (\<lambda>i. (outName out, t, input_info e i)) (filter inEnabled ins))"
  using joint_runs[OF assms] isolated_runs[OF assms] by (simp add: componentsForInputType_def Let_def split: prod.split)

definition wanted :: "'p model_env \<Rightarrow> outputI \<Rightarrow> (string \<times> string \<times> int \<times> 'p option \<times> go_error option) list" where
  "wanted e out = concat (map (\<lambda>(t, ins). map (\<lambda>i. (outName out, t, input_info e i)) (filter inEnabled ins)) (outInputs out))"

lemma componentsForOutput_runs:
  assumes "UnitTypeInput e \<noteq> UnitTypeOutput e"
  shows "runs e (componentsForOutput e rk r rc sh out) = mset (wanted e out)"
proof -
  have "runs e (componentsForOutput e rk r rc sh out) = \<Sum>\<^sub># (mset (map (\<lambda>(t, ins).
      mset (map (\<lambda>i. (outName out, t, input_info e i)) (filter inEnabled ins))) (iterate rk (outInputs out))))"
    using componentsForInputType_runs[OF assms, of r rc sh out]
    by (simp add: componentsForOutput_def runs_concat runs_filter comp_def case_prod_unfold)
  also have "\<dots> = \<Sum>\<^sub># (mset (map (\<lambda>(t, ins). mset (map (\<lambda>i. (outName out, t, input_info e i)) (filter inEnabled ins))) (outInputs out)))"
    by (simp only: mset_map mset_iterate)
  also have "\<dots> = mset (wanted e out)"
    using sum_mset_concat[of "\<lambda>(t, ins). map (\<lambda>i. (outName out, t, input_info e i)) (filter inEnabled ins)" "outInputs out"]
    by (simp add: wanted_def case_prod_unfold)
  finally show ?thesis .
qed

lemma sorted_keys:
  assumes "distinct (map fst om)"
  shows "mset (map (\<lambda>k. the (map_of om k)) (sort (map fst om))) = mset (map snd om)"
proof -
  have "map (\<lambda>k. the (map_of om k)) (map fst om) = map snd om"
    by (auto simp: map_of_is_SomeI[OF assms])
  then have "mset (map (\<lambda>k. the (map_of om k)) (map fst om)) = mset (map snd om)" by (rule arg_cong)
  then show ?thesis by (simp only: mset_map mset_sort)
qed

lemma PolicyToComponents_runs:
  assumes "UnitTypeInput e \<noteq> UnitTypeOutput e" "PolicyToComponents e rk r rc a policy = Inr comps"
    and "toIntermediate e rk (aliasMapping r) (logLevel a) (headersOf a) (dynamicInputs a) policy = Inr (Some om)"
    and "distinct (map fst om)"
  shows "runs e comps = mset (concat (map (wanted e) (filter outEnabled (map snd om))))"
proof -
  obtain sh where c: "comps = concat (map (\<lambda>k. let out = the (map_of om k) in
      if outEnabled out then componentsForOutput e rk r rc sh out else []) (sort (map fst om)))"
    using assms(2,3) by (auto simp: PolicyToComponents_def Let_def rbind_eq_Inr)
  let ?h = "\<lambda>out. if outEnabled out then mset (wanted e out) else {#}"
  have "runs e comps = \<Sum>\<^sub># (mset (map (\<lambda>k. ?h (the (map_of om k))) (sort (map fst om))))"
    using componentsForOutput_runs[OF assms(1), of rk r rc sh]
    by (simp add: c runs_concat comp_def Let_def if_distrib[of "runs e"] runs_def[of e "[]"] cong: if_cong)
  also have "\<dots> = \<Sum>\<^sub># (image_mset ?h (mset (map (\<lambda>k. the (map_of om k)) (sort (map fst om)))))"
    by (simp add: image_mset.compositionality comp_def)
  also have "\<dots> = \<Sum>\<^sub># (mset (map ?h (map snd om)))"
    unfolding sorted_keys[OF assms(4)] by (simp only: mset_map)
  also have "\<dots> = mset (concat (map (wanted e) (filter outEnabled (map snd om))))"
    by (induction om) auto
  finally show ?thesis .
qed

section \<open>The inputs of the policy\<close>

definition policy_inputs :: "(string, outputI) gomap \<Rightarrow> inputI list" where
  "policy_inputs outs = concat (map (\<lambda>(_, out). concat (map snd (outInputs out))) outs)"

lemma policy_inputs_Cons: "policy_inputs ((n, out) # outs) = concat (map snd (outInputs out)) @ policy_inputs outs"
  by (simp add: policy_inputs_def)

lemma hasDuplicate_iff: "hasDuplicate outs i \<longleftrightarrow> i \<in> inId ` set (policy_inputs outs)"
proof -
  have a: "list_ex (\<lambda>j. inId j = i) ins \<longleftrightarrow> i \<in> inId ` set ins" for ins by (induction ins) auto
  have b: "list_ex (\<lambda>(_, ins). list_ex (\<lambda>j. inId j = i) ins) m \<longleftrightarrow> i \<in> inId ` set (concat (map snd m))"
    for m :: "(string, inputI list) gomap"
    unfolding a by (induction m) auto
  show ?thesis unfolding hasDuplicate_def b
  proof (induction outs)
    case (Cons x outs)
    then show ?case by (cases x) (simp add: policy_inputs_Cons image_Un del: set_concat)
  qed (simp add: policy_inputs_def)
qed

definition output_ok :: "string \<times> outputI \<Rightarrow> bool" where
  "output_ok x \<longleftrightarrow> outName (snd x) = fst x \<and> (\<forall>(t, ins)\<in>set (outInputs (snd x)). \<forall>i\<in>set ins. inType i = t)"

definition intermediate_ok :: "(string, outputI) gomap \<Rightarrow> bool" where
  "intermediate_ok outs \<longleftrightarrow> distinct (map fst outs) \<and> list_all output_ok outs \<and> distinct (map inId (policy_inputs outs))"

lemma update_group:
  "mset (concat (map snd (AList.update t ((case map_of m t of None \<Rightarrow> [] | Some xs \<Rightarrow> xs) @ [x]) m))) = add_mset x (mset (concat (map snd m)))"
  by (induction m) auto

lemma add_input_other: "name \<notin> fst ` set outs \<Longrightarrow> add_input name i outs = outs"
  by (induction outs) (auto simp: add_input_def)

lemma add_input_Cons: "add_input name i ((n, out) # outs) = (n, if n = name
    then out\<lparr>outInputs := AList.update (inType i) ((case map_of (outInputs out) (inType i) of None \<Rightarrow> [] | Some ins \<Rightarrow> ins) @ [i]) (outInputs out)\<rparr>
    else out) # add_input name i outs"
  by (simp add: add_input_def)

lemma add_input_inputs:
  assumes "distinct (map fst outs)" "name \<in> fst ` set outs"
  shows "mset (policy_inputs (add_input name i outs)) = add_mset i (mset (policy_inputs outs))"
  using assms
proof (induction outs)
  case (Cons x outs)
  obtain n out where x: "x = (n, out)" by (cases x)
  show ?case
  proof (cases "n = name")
    case True
    then have "add_input name i outs = outs" using Cons.prems x by (intro add_input_other) auto
    then show ?thesis
      using True update_group[where m = "outInputs out" and t = "inType i" and x = i] by (simp add: x add_input_Cons policy_inputs_Cons)
  next
    case False
    then show ?thesis using Cons x by (auto simp: add_input_Cons policy_inputs_Cons)
  qed
qed simp

lemma add_input_names [simp]: "map fst (add_input name i outs) = map fst outs"
  by (simp add: add_input_def case_prod_unfold comp_def)

lemma update_typed:
  assumes "(a, b) \<in> set (AList.update (inType i) ((case map_of m (inType i) of None \<Rightarrow> [] | Some ins \<Rightarrow> ins) @ [i]) m)" "j \<in> set b"
    and "\<forall>(t, ins)\<in>set m. \<forall>j\<in>set ins. inType j = t"
  shows "inType j = a"
  using assms
proof (induction m)
  case (Cons x m)
  obtain t ins where x: "x = (t, ins)" by (cases x)
  show ?case
  proof (cases "t = inType i")
    case True
    then show ?thesis using Cons.prems by (auto simp: x)
  next
    case False
    then show ?thesis using Cons by (auto simp: x)
  qed
qed simp

lemma add_input_ok:
  assumes "list_all output_ok outs"
  shows "list_all output_ok (add_input name i outs)"
proof -
  have "output_ok (n, out\<lparr>outInputs := AList.update (inType i) ((case map_of (outInputs out) (inType i) of None \<Rightarrow> [] | Some ins \<Rightarrow> ins) @ [i]) (outInputs out)\<rparr>)"
    if "output_ok (n, out)" for n out
    using that unfolding output_ok_def by (auto dest: update_typed)
  then show ?thesis
    using assms by (auto simp: add_input_def list_all_iff)
qed

lemma parse_input_spec:
  assumes "parse_input e aliases ll dyn policy outs k raw = Inr (name, i)"
  shows "name \<in> fst ` set outs" "idx i = k" "inId i \<notin> inId ` set (policy_inputs outs)"
  using assms
  by (auto simp: parse_input_def rbind_eq_Inr hasDuplicate_iff map_of_eq_None_iff split: gval.splits if_splits)

lemma parse_inputs_ok:
  assumes "parse_inputs e aliases ll dyn policy k raws outs = Inr outs'" "intermediate_ok outs"
  shows "intermediate_ok outs' \<and> map fst outs' = map fst outs
    \<and> mset (map idx (policy_inputs outs')) = mset (map idx (policy_inputs outs)) + mset [k..<k + length raws]"
  using assms
proof (induction raws arbitrary: k outs)
  case (Cons raw raws)
  obtain name i where p: "parse_input e aliases ll dyn policy outs k raw = Inr (name, i)"
    "parse_inputs e aliases ll dyn policy (k + 1) raws (add_input name i outs) = Inr outs'"
    using Cons.prems(1) by (auto simp: rbind_eq_Inr)
  note sp = parse_input_spec[OF p(1)]
  have ins: "mset (policy_inputs (add_input name i outs)) = add_mset i (mset (policy_inputs outs))"
    using add_input_inputs[OF _ sp(1)] Cons.prems(2) by (simp add: intermediate_ok_def)
  then have "mset (map inId (policy_inputs (add_input name i outs))) = mset (inId i # map inId (policy_inputs outs))" by simp
  then have "distinct (map inId (policy_inputs (add_input name i outs))) \<longleftrightarrow> distinct (inId i # map inId (policy_inputs outs))"
    by (rule mset_eq_imp_distinct_iff)
  then have "intermediate_ok (add_input name i outs)"
    using Cons.prems(2) sp(3) add_input_ok by (simp add: intermediate_ok_def)
  from Cons.IH[OF p(2) this] show ?case
    using ins sp(2) by (auto simp: upt_conv_Cons simp del: upt_Suc)
qed simp

lemma parse_outputs_ok:
  "parse_outputs e ll hs outputs = Inr outs \<Longrightarrow> map fst outs = map fst outputs \<and> list_all output_ok outs \<and> policy_inputs outs = []"
proof (induction outputs arbitrary: outs)
  case (Cons x outputs)
  obtain name raw where x: "x = (name, raw)" by (cases x)
  obtain cfg out outs1 where o: "ParseOutput e ll hs name cfg = Inr out" "parse_outputs e ll hs outputs = Inr outs1" "outs = (name, out) # outs1"
    using Cons.prems by (auto simp: x parse_outputs_def rbind_eq_Inr split: gval.splits)
  have "outName out = name" "outInputs out = []"
    using o(1) by (auto simp: ParseOutput_def rbind_eq_Inr split: option.splits gval.splits)
  then show ?case
    using Cons.IH[OF o(2)] by (simp add: o(3) x output_ok_def policy_inputs_Cons)
qed (simp add: parse_outputs_def policy_inputs_def)

definition outputs_distinct :: "config \<Rightarrow> bool" where
  "outputs_distinct policy \<longleftrightarrow> (\<forall>m. map_of policy ''outputs'' = Some (GMap m) \<longrightarrow> distinct (map fst m))"

lemma toIntermediate_Some:
  assumes "toIntermediate e rk aliases ll hs dyn policy = Inr (Some om)"
  obtains m outs raws where "map_of policy ''outputs'' = Some (GMap m)" "parse_outputs e ll hs (iterate rk m) = Inr outs"
    "map_of policy ''inputs'' = Some (GList raws)" "parse_inputs e aliases ll dyn policy 0 raws outs = Inr om"
proof -
  obtain g where g: "map_of policy ''outputs'' = Some g"
    using assms by (cases "map_of policy ''outputs''") (simp_all add: toIntermediate_def)
  obtain m where m: "g = GMap m"
    using assms g by (cases g) (simp_all add: toIntermediate_def)
  obtain outs where o: "parse_outputs e ll hs (iterate rk m) = Inr outs"
    using assms g m by (cases "parse_outputs e ll hs (iterate rk m)") (simp_all add: toIntermediate_def)
  obtain h where h: "map_of policy ''inputs'' = Some h"
    using assms g m o by (cases "map_of policy ''inputs''") (simp_all add: toIntermediate_def)
  obtain raws where r: "h = GList raws"
    using assms g m o h by (cases h) (simp_all add: toIntermediate_def)
  have "parse_inputs e aliases ll dyn policy 0 raws outs = Inr om"
    using assms g m o h r by (cases "parse_inputs e aliases ll dyn policy 0 raws outs") (simp_all add: toIntermediate_def split: if_splits)
  with that g m o h r show thesis by blast
qed

lemma toIntermediate_ok:
  assumes "toIntermediate e rk aliases ll hs dyn policy = Inr (Some om)" "outputs_distinct policy"
  shows "\<exists>raws. map_of policy ''inputs'' = Some (GList raws) \<and> intermediate_ok om
    \<and> mset (map idx (policy_inputs om)) = mset [0..<length raws]"
proof -
  obtain m outs raws where o: "map_of policy ''outputs'' = Some (GMap m)" "parse_outputs e ll hs (iterate rk m) = Inr outs"
    "map_of policy ''inputs'' = Some (GList raws)" "parse_inputs e aliases ll dyn policy 0 raws outs = Inr om"
    by (rule toIntermediate_Some[OF assms(1)])
  have "mset (map fst (iterate rk m)) = mset (map fst m)" by (simp only: mset_map mset_iterate)
  from mset_eq_imp_distinct_iff[OF this] have "distinct (map fst (iterate rk m))"
    using assms(2) o(1) by (simp add: outputs_distinct_def)
  then have "intermediate_ok outs"
    using parse_outputs_ok[OF o(2)] by (simp add: intermediate_ok_def)
  from parse_inputs_ok[OF o(4) this] show ?thesis
    using o(3) parse_outputs_ok[OF o(2)] by simp
qed

section \<open>The units of a component\<close>

lemma joint_keys:
  assumes "UnitTypeInput e \<noteq> UnitTypeOutput e" "distinct (map inId ins)" "cm \<in> set (joint_components e rc sh spec err t out ins)"
  shows "distinct (map unit_key (CompUnits cm))"
proof -
  obtain ident k where u: "CompUnits cm = map (\<lambda>i. unitForInput e i (GetInputUnitId ident (inId i)))
      (filter (\<lambda>i. manager_for rc spec out i = k) (filter inEnabled ins)) @ [unitForOutput e out ident]"
    using joint_components_eq[of e rc sh spec err t out ins] assms(3) by auto
  let ?us = "filter (\<lambda>i. manager_for rc spec out i = k) (filter inEnabled ins)"
  let ?g = "\<lambda>n. \<lparr>UnitType = UnitTypeInput e, UnitID = GetInputUnitId ident n\<rparr>"
  have "distinct (map inId ?us)" using assms(2) by (intro distinct_map_filter)
  moreover have "inj ?g" by (rule injI) (simp add: GetInputUnitId_def)
  ultimately have "distinct (map ?g (map inId ?us))" by (simp only: distinct_map inj_on_subset[OF _ subset_UNIV] simp_thms)
  moreover have "map unit_key (CompUnits cm) = map ?g (map inId ?us) @ [\<lparr>UnitType = UnitTypeOutput e, UnitID = ident\<rparr>]"
    by (simp add: u unit_key_def)
  ultimately show ?thesis using assms(1) by auto
qed

lemma isolated_keys:
  assumes "UnitTypeInput e \<noteq> UnitTypeOutput e" "cm \<in> set (isolated_components e rc sh spec t out ins)"
  shows "distinct (map unit_key (CompUnits cm))"
  using assms by (auto simp: isolated_components_def Let_def unit_key_def)

lemma typed_inputs_distinct:
  assumes "distinct (map inId (policy_inputs om))" "(n, out) \<in> set om" "(t, ins) \<in> set (outInputs out)"
  shows "distinct (map inId ins)"
proof -
  obtain as bs where "om = as @ (n, out) # bs" using split_list[OF assms(2)] by blast
  moreover obtain cs ds where "outInputs out = cs @ (t, ins) # ds" using split_list[OF assms(3)] by blast
  ultimately show ?thesis using assms(1) by (simp add: policy_inputs_def)
qed

text \<open>Where a component of the model comes from.\<close>

lemma component_origin:
  assumes "PolicyToComponents e rk r rc a policy = Inr comps" "cm \<in> set comps"
  obtains om n out t ins sh where "toIntermediate e rk (aliasMapping r) (logLevel a) (headersOf a) (dynamicInputs a) policy = Inr (Some om)"
    "(n, out) \<in> set om" "outEnabled out" "(t, ins) \<in> set (outInputs out)" "cm \<in> set (componentsForInputType e r rc sh out t ins)"
proof -
  obtain om sh where o: "toIntermediate e rk (aliasMapping r) (logLevel a) (headersOf a) (dynamicInputs a) policy = Inr (Some om)"
    "comps = concat (map (\<lambda>k. let out = the (map_of om k) in if outEnabled out then componentsForOutput e rk r rc sh out else []) (sort (map fst om)))"
    using assms by (auto simp: PolicyToComponents_def Let_def rbind_eq_Inr split: option.splits)
  then obtain n where n: "n \<in> fst ` set om" "outEnabled (the (map_of om n))" "cm \<in> set (componentsForOutput e rk r rc sh (the (map_of om n)))"
    using assms(2) by (auto simp: Let_def split: if_splits)
  then obtain out where out: "map_of om n = Some out" by (metis map_of_eq_None_iff option.exhaust)
  then obtain t ins where "(t, ins) \<in> set (outInputs out)" "cm \<in> set (componentsForInputType e r rc sh out t ins)"
    using n(3) by (auto simp: componentsForOutput_def)
  with that[OF o(1) map_of_SomeD[OF out]] n(2) out show thesis by simp
qed

lemma component_keys:
  assumes "PolicyToComponents e rk r rc a policy = Inr comps" "cm \<in> set comps" "UnitTypeInput e \<noteq> UnitTypeOutput e" "outputs_distinct policy"
  shows "distinct (map unit_key (CompUnits cm))"
proof -
  obtain om n out t ins sh where o: "toIntermediate e rk (aliasMapping r) (logLevel a) (headersOf a) (dynamicInputs a) policy = Inr (Some om)"
    "(n, out) \<in> set om" "(t, ins) \<in> set (outInputs out)" "cm \<in> set (componentsForInputType e r rc sh out t ins)"
    using component_origin[OF assms(1,2)] by metis
  have "distinct (map inId ins)"
    using typed_inputs_distinct[OF _ o(2,3)] toIntermediate_ok[OF o(1) assms(4)] by (auto simp: intermediate_ok_def)
  then show ?thesis
    using o(4) joint_keys[OF assms(3)] isolated_keys[OF assms(3)] by (auto simp: componentsForInputType_def Let_def split: prod.splits if_splits)
qed

section \<open>Directories\<close>

lemma has_prefix_dotdot: "has_prefix (join_with CHR ''/'' (''..'' # xs)) ''..''"
  by (cases xs) (simp_all add: has_prefix_iff)

lemma filepath_Rel_inside:
  assumes "\<not> has_prefix (join_with CHR ''/'' (filepath_Rel base targ)) ''..''"
  shows "targ = base @ filepath_Rel base targ"
  using assms
proof (induction base targ rule: filepath_Rel.induct)
  case (1 b base t targ)
  then show ?case using has_prefix_dotdot by (auto split: if_splits)
next
  case (3 b base)
  then show ?case using has_prefix_dotdot by auto
qed simp

lemma validateComponentID_inside:
  assumes "validateComponentID (Inr parent) ident = None"
  shows "\<exists>rest. rest \<noteq> [] \<and> clean_join parent (split_on CHR ''/'' ident) = parent @ rest"
  using assms filepath_Rel_inside[of parent "clean_join parent (split_on CHR ''/'' ident)"]
  by (auto simp: validateComponentID_def Let_def split: if_splits)

lemma component_error_None: "component_error e spec err ident ot = None \<Longrightarrow> validateComponentID (runDir e) ident = None"
  by (simp add: component_error_def split: option.splits if_splits)

text \<open>The shape of a component: the units of its inputs, and the unit of its output.\<close>

definition component_shape :: "'p model_env \<Rightarrow> 'p model_component \<Rightarrow> bool" where
  "component_shape e cm \<longleftrightarrow> (\<exists>us u. CompUnits cm = us @ [u] \<and> us \<noteq> [] \<and> (\<forall>v\<in>set us. Type v = UnitTypeInput e)
     \<and> Type u = UnitTypeOutput e \<and> ID u = CompID cm)
   \<and> (CompErr cm = None \<longrightarrow> validateComponentID (runDir e) (CompID cm) = None)"

lemma joint_shape:
  assumes "cm \<in> set (joint_components e rc sh spec err t out ins)"
  shows "component_shape e cm"
proof -
  let ?f = "manager_for rc spec out" and ?en = "filter inEnabled ins"
  obtain ident dyn where eq: "joint_components e rc sh spec err t out ins = map (\<lambda>k.
     make_component e sh spec t out ident (component_error e spec err ident (OutputType out)) k dyn
       (map (\<lambda>i. unitForInput e i (GetInputUnitId ident (inId i))) (filter (\<lambda>i. ?f i = k) ?en) @ [unitForOutput e out ident]))
     (sorted_list_of_set (?f ` set ?en))"
    using joint_components_eq[of e rc sh spec err t out ins] by blast
  then obtain k where k: "k \<in> ?f ` set ?en" "cm = make_component e sh spec t out ident (component_error e spec err ident (OutputType out)) k dyn
       (map (\<lambda>i. unitForInput e i (GetInputUnitId ident (inId i))) (filter (\<lambda>i. ?f i = k) ?en) @ [unitForOutput e out ident])"
    using assms unfolding eq by (simp only: set_map set_sorted_list_of_set finite_imageI finite_set) blast
  have "filter (\<lambda>i. ?f i = k) ?en \<noteq> []" using k(1) by (auto simp: filter_empty_conv)
  then show ?thesis using component_error_None by (auto simp: k(2) component_shape_def)
qed

lemma isolated_shape: "cm \<in> set (isolated_components e rc sh spec t out ins) \<Longrightarrow> component_shape e cm"
  using component_error_None[of e spec None] by (auto simp: isolated_components_def component_shape_def Let_def)

lemma policy_shape:
  assumes "PolicyToComponents e rk r rc a policy = Inr comps" "cm \<in> set comps"
  shows "component_shape e cm"
proof -
  obtain out t ins sh where "cm \<in> set (componentsForInputType e r rc sh out t ins)"
    by (rule component_origin[OF assms])
  then show ?thesis
    using joint_shape isolated_shape by (auto simp: componentsForInputType_def Let_def split: prod.splits if_splits)
qed

section \<open>A sample policy\<close>

definition policy_env :: "nat model_env" where
  "policy_env = \<lparr>eqlConfig = sample_eql, inDefaultPath = True, runDir = Inr [''opt'', ''agent'', ''run''], expectedConfig = \<lambda>_. Inr 7,
     UnitTypeInput = 0, UnitTypeOutput = 1, UnitLogLevelError = 0, UnitLogLevelWarn = 1, UnitLogLevelInfo = 2, UnitLogLevelDebug = 3,
     UnitLogLevelTrace = 4, parseFeatures = \<lambda>_. Inr None, parseLimits = \<lambda>_. Inr 0, madeAt = \<lambda>_ _. 0\<rparr>"

definition open_specs :: RuntimeSpecs where
  "open_specs = \<lparr>platform = sample_platform True, inputTypes = [''endpoint''],
     inputSpecs = [(''endpoint'', runtime_spec (sample_platform True) (''a.spec.yml'', (sample_input ''endpoint'' [])\<lparr>Preventions := []\<rparr>))],
     aliasMapping = []\<rparr>"

definition sample_args :: "nat model_args" where
  "sample_args = \<lparr>logLevel = ''info'', headersOf = None, dynamicInputs = \<lambda>_. False, agentInfo = None\<rparr>"

definition sample_cfg :: config where
  "sample_cfg = [(''id'', GStr ''one''), (''type'', GStr ''endpoint'')]"

definition sample_policy :: config where
  "sample_policy = [(''inputs'', GList [GMap sample_cfg]),
     (''outputs'', GMap [(''default'', GMap [(''type'', GStr ''elasticsearch'')])])]"

lemma sample_level: "stringToLogLevel policy_env ''info'' = Inr 2"
  by (simp add: stringToLogLevel_def policy_env_def trim_space_def is_ascii_space_def lower_def Let_def)

definition sample_input_parsed :: inputI where
  "sample_input_parsed = \<lparr>idx = 0, inId = ''one'', inEnabled = True, inLogLevel = 2, inType = ''endpoint'', inRuntimeManager = [],
     inDynamic = False, inConfig = sample_cfg\<rparr>"

definition sample_output :: "inputI list \<Rightarrow> outputI" where
  "sample_output ins = \<lparr>outName = ''default'', outEnabled = True, outLogLevel = 2, OutputType = ''elasticsearch'',
     outConfig = [(''type'', GStr ''elasticsearch'')], outInputs = (if ins = [] then [] else [(''endpoint'', ins)])\<rparr>"

lemma sample_ParseOutput: "ParseOutput policy_env ''info'' None ''default'' [(''type'', GStr ''elasticsearch'')] = Inr (sample_output [])"
  by (simp add: ParseOutput_def read_enabled_def getLogLevel_def sample_level sample_output_def)

lemma sample_parse_input:
  "parse_input policy_env [] ''info'' (\<lambda>_. False) sample_policy [(''default'', sample_output [])] 0 (GMap sample_cfg)
     = Inr (''default'', sample_input_parsed)"
  by (simp add: parse_input_def read_type_def read_id_def hasDuplicate_def sample_output_def read_output_def read_enabled_def
      getLogLevel_def sample_level read_runtime_def injectInputPolicyID_def sample_policy_def sample_cfg_def sample_input_parsed_def)

lemma sample_intermediate:
  "toIntermediate policy_env rk [] ''info'' None (\<lambda>_. False) sample_policy = Inr (Some [(''default'', sample_output [sample_input_parsed])])"
  using sample_ParseOutput sample_parse_input
  by (simp add: toIntermediate_def sample_policy_def parse_outputs_def iterate_def add_input_def sample_output_def sample_cfg_def sample_input_parsed_def)

lemma sample_GetInput: "GetInput sample_eql True open_specs ''endpoint''
    = (Some (runtime_spec (sample_platform True) (''a.spec.yml'', (sample_input ''endpoint'' [])\<lparr>Preventions := []\<rparr>)), None)"
  using platform_vars[of True "sample_platform True" "[]"]
  by (auto simp: GetInput_def validateRuntimeChecks_def open_specs_def runtime_spec_def)

lemma sample_error: "component_error policy_env (runtime_spec d (p, (sample_input ''endpoint'' [])\<lparr>Preventions := []\<rparr>)) None ''endpoint'' ''elasticsearch'' = None"
  by (simp add: component_error_def validateComponentID_def policy_env_def runtime_spec_def sample_input_def Let_def)

definition sample_spec_of :: InputRuntimeSpec where
  "sample_spec_of = runtime_spec (sample_platform True) (''a.spec.yml'', (sample_input ''endpoint'' [])\<lparr>Preventions := []\<rparr>)"

lemma sample_joint:
  "\<exists>cm. joint_components policy_env rc sh sample_spec_of None ''endpoint'' (sample_output [sample_input_parsed]) [sample_input_parsed] = [cm]
    \<and> CompErr cm = None \<and> CompID cm = ''endpoint'' \<and> CompUnits cm \<noteq> []"
proof -
  have "Service (InputSpecOf sample_spec_of) \<noteq> None" by (simp add: sample_spec_of_def runtime_spec_def sample_input_def)
  moreover have "inEnabled sample_input_parsed" by (simp add: sample_input_parsed_def)
  moreover have "OutputType (sample_output [sample_input_parsed]) = ''elasticsearch''" by (simp add: sample_output_def)
  ultimately show ?thesis
    using sample_error[of "sample_platform True" "''a.spec.yml''"]
    by (simp add: joint_components_def Let_def add_unit_def sample_spec_of_def)
qed

lemma sample_components:
  "\<exists>cm. PolicyToComponents policy_env rk open_specs DefaultRuntimeConfig sample_args sample_policy = Inr [cm]
    \<and> CompErr cm = None \<and> CompID cm = ''endpoint''"
proof -
  let ?sh = "\<lparr>sharedFeatures = None, sharedAgentInfo = None, sharedConfig = 0\<rparr> :: nat componentsShared"
  have o: "outEnabled (sample_output [sample_input_parsed])" "outInputs (sample_output [sample_input_parsed]) = [(''endpoint'', [sample_input_parsed])]"
    by (simp_all add: sample_output_def)
  have "\<not> IsolateUnits (InputSpecOf sample_spec_of)" by (simp add: sample_spec_of_def runtime_spec_def sample_input_def)
  then have "componentsForInputType policy_env open_specs DefaultRuntimeConfig ?sh (sample_output [sample_input_parsed]) ''endpoint'' [sample_input_parsed]
    = joint_components policy_env DefaultRuntimeConfig ?sh sample_spec_of None ''endpoint'' (sample_output [sample_input_parsed]) [sample_input_parsed]"
    using sample_GetInput by (simp add: componentsForInputType_def policy_env_def sample_spec_of_def Let_def)
  moreover have "PolicyToComponents policy_env rk open_specs DefaultRuntimeConfig sample_args sample_policy
    = Inr (componentsForOutput policy_env rk open_specs DefaultRuntimeConfig ?sh (sample_output [sample_input_parsed]))"
    using sample_intermediate[of rk] o(1) by (simp add: PolicyToComponents_def open_specs_def sample_args_def policy_env_def Let_def)
  ultimately show ?thesis
    using sample_joint[of DefaultRuntimeConfig ?sh] o(2) by (auto simp: componentsForOutput_def iterate_def)
qed

section \<open>The properties\<close>

text \<open>C3: A policy that is accepted is run as it says: each of its inputs is read exactly once, their
  identifiers differ, and the input units of all components together are one unit for each enabled input of an
  enabled output, with its configuration, in a component of its type and output.\<close>

theorem enabled_inputs_run_exactly_once:
  assumes "PolicyToComponents e rk r rc a policy = Inr comps"
    and "toIntermediate e rk (aliasMapping r) (logLevel a) (headersOf a) (dynamicInputs a) policy = Inr (Some om)"
    and "UnitTypeInput e \<noteq> UnitTypeOutput e" "outputs_distinct policy"
  shows "runs e comps = mset (concat (map (wanted e) (filter outEnabled (map snd om))))
    \<and> (\<exists>raws. map_of policy ''inputs'' = Some (GList raws) \<and> mset (map idx (policy_inputs om)) = mset [0..<length raws])
    \<and> distinct (map inId (policy_inputs om))"
  using PolicyToComponents_runs[OF assms(3,1,2)] toIntermediate_ok[OF assms(2,4)] by (auto simp: intermediate_ok_def)

lemma sample_outputs_distinct: "outputs_distinct sample_policy"
  by (simp add: outputs_distinct_def sample_policy_def)

theorem enabled_inputs_run_exactly_once_witness:
  "\<exists>comps. PolicyToComponents policy_env (\<lambda>_. 0) open_specs DefaultRuntimeConfig sample_args sample_policy = Inr comps
    \<and> runs policy_env comps = {#(''default'', ''endpoint'', 2, Some 7, None)#}"
proof -
  obtain cm where c: "PolicyToComponents policy_env (\<lambda>_. 0) open_specs DefaultRuntimeConfig sample_args sample_policy = Inr [cm]"
    using sample_components by blast
  have i: "toIntermediate policy_env (\<lambda>_. 0) (aliasMapping open_specs) (logLevel sample_args) (headersOf sample_args) (dynamicInputs sample_args)
      sample_policy = Inr (Some [(''default'', sample_output [sample_input_parsed])])"
    using sample_intermediate by (simp add: open_specs_def sample_args_def)
  have w: "wanted policy_env (sample_output [sample_input_parsed]) = [(''default'', ''endpoint'', 2, Some 7, None)]"
    by (simp add: wanted_def sample_output_def sample_input_parsed_def input_info_def policy_env_def)
  have "UnitTypeInput policy_env \<noteq> UnitTypeOutput policy_env" "outEnabled (sample_output [sample_input_parsed])"
    by (simp_all add: policy_env_def sample_output_def)
  with enabled_inputs_run_exactly_once[OF c i this(1) sample_outputs_distinct] c w show ?thesis by simp
qed



text \<open>C11: A component without an error works in a directory strictly inside the runtime directory, whatever
  dots and slashes the names in the policy hold.\<close>

theorem work_directory_stays_inside:
  assumes "PolicyToComponents e rk r rc a policy = Inr comps" "cm \<in> set comps" "CompErr cm = None" "runDir e = Inr parent"
  shows "\<exists>rest. rest \<noteq> [] \<and> clean_join parent (split_on CHR ''/'' (CompID cm)) = parent @ rest"
  using policy_shape[OF assms(1,2)] assms(3,4) validateComponentID_inside by (simp add: component_shape_def)

theorem work_directory_stays_inside_witness:
  "\<exists>cm rest. PolicyToComponents policy_env (\<lambda>_. 0) open_specs DefaultRuntimeConfig sample_args sample_policy = Inr [cm]
    \<and> rest \<noteq> [] \<and> clean_join [''opt'', ''agent'', ''run''] (split_on CHR ''/'' (CompID cm)) = [''opt'', ''agent'', ''run''] @ rest"
proof -
  obtain cm where c: "PolicyToComponents policy_env (\<lambda>_. 0) open_specs DefaultRuntimeConfig sample_args sample_policy = Inr [cm]"
    "CompErr cm = None"
    using sample_components by blast
  have "runDir policy_env = Inr [''opt'', ''agent'', ''run'']" by (simp add: policy_env_def)
  from work_directory_stays_inside[OF c(1) _ c(2) this] c(1) show ?thesis by auto
qed

end
