(* ===== verification/Capabilities.thy ===== *)
theory Capabilities
  imports Vars
begin

text \<open>
  The capabilities file, \<^verbatim>\<open>internal/pkg/capabilities\<close>: rules that allow or deny inputs, outputs, upgrades and
  the override of the fleet configuration. A rule is decoded from a map; the YAML library gives the text of a
  scalar, the parameter \<open>text_of\<close>. The first rule that matches decides.
\<close>

type_synonym allowOrDeny = string

definition ruleTypeAllow :: allowOrDeny where "ruleTypeAllow = ''allow''"
definition ruleTypeDeny :: allowOrDeny where "ruleTypeDeny = ''deny''"

definition allowOrDeny_Validate :: "allowOrDeny \<Rightarrow> gerror option" where
  "allowOrDeny_Validate ad = (if ad \<noteq> ruleTypeAllow \<and> ad \<noteq> ruleTypeDeny then Some ad else None)"

section \<open>Patterns\<close>

definition wild :: string where "wild = ''*''"

definition separator :: char where "separator = CHR ''/''"

definition matchesExpr :: "string \<Rightarrow> string \<Rightarrow> bool" where
  "matchesExpr pat target = (if pat = wild then True
     else let patternParts = split_on separator pat; targetParts = split_on separator target in
       length patternParts = length targetParts \<and> list_all (\<lambda>(pp, t). pp = wild \<or> pp = t) (zip patternParts targetParts))"

record stringMatcher =
  pattern :: string
  matchRule :: allowOrDeny

fun matchString :: "string \<Rightarrow> stringMatcher list \<Rightarrow> bool" where
  "matchString t [] = True"
| "matchString t (matcher # ms) =
     (if matchesExpr (pattern matcher) t then matchRule matcher = ruleTypeAllow else matchString t ms)"

section \<open>Upgrades\<close>

record upgradeCapability =
  upgradeCondition :: exp
  upgradeRule :: allowOrDeny
  conditionStr :: string

definition newUpgradeCapability :: "eql_config \<Rightarrow> string \<Rightarrow> allowOrDeny \<Rightarrow> upgradeCapability option" where
  "newUpgradeCapability c cond rule = (case eql_New c (if cond = [] then ''true'' else cond) of
       None \<Rightarrow> None
     | Some e \<Rightarrow> Some \<lparr>upgradeCondition = e, upgradeRule = rule, conditionStr = cond\<rparr>)"

definition ast_store :: "ast \<Rightarrow> string \<Rightarrow> lookup_res" where
  "ast_store a name = (case AST_Lookup a name of Inl _ \<Rightarrow> LPanic | Inr None \<Rightarrow> LMissing | Inr (Some g) \<Rightarrow> LFound g)"

text \<open>None is a panic of the evaluation.\<close>

fun upgrade_loop :: "eql_config \<Rightarrow> ast \<Rightarrow> upgradeCapability list \<Rightarrow> bool option" where
  "upgrade_loop c store [] = Some True"
| "upgrade_loop c store (cap # caps) =
     (case Eval \<lparr>varStore = Some (ast_store store), allowMissingVars = True, rank = iteration c, regexp = engine c\<rparr> (upgradeCondition cap) of
        Inl EPanic \<Rightarrow> None
      | Inl _ \<Rightarrow> upgrade_loop c store caps
      | Inr (r, _) \<Rightarrow> if r then Some (upgradeRule cap = ruleTypeAllow) else upgrade_loop c store caps)"

definition allowUpgrade :: "eql_config \<Rightarrow> string \<Rightarrow> string \<Rightarrow> upgradeCapability list \<Rightarrow> bool option" where
  "allowUpgrade c version sourceURI caps = (case NewAST [(''sourceURI'', GStr sourceURI), (''version'', GStr version)] of
       Inl _ \<Rightarrow> Some True
     | Inr store \<Rightarrow> upgrade_loop c store caps)"

section \<open>The override of the fleet configuration\<close>

record fleetOverrideCapability = overrideRule :: allowOrDeny

definition newFleetOverrideCapability :: "allowOrDeny \<Rightarrow> fleetOverrideCapability" where
  "newFleetOverrideCapability rule = \<lparr>overrideRule = rule\<rparr>"

text \<open>None is a nil entry, which is skipped.\<close>

fun allowFleetOverride :: "fleetOverrideCapability option list \<Rightarrow> bool" where
  "allowFleetOverride [] = False"
| "allowFleetOverride (None # caps) = allowFleetOverride caps"
| "allowFleetOverride (Some cap # caps) =
     (if overrideRule cap = ruleTypeAllow then True
      else if overrideRule cap = ruleTypeDeny then False
      else allowFleetOverride caps)"

section \<open>Decoding\<close>

record capabilitiesList =
  inputChecks :: "stringMatcher list"
  outputChecks :: "stringMatcher list"
  upgradeChecks :: "upgradeCapability list"
  fleetOverrideChecks :: "fleetOverrideCapability option list"

datatype caps_error = NotText gerror | BadUpgradeCondition string | UnexpectedCapability nat

text \<open>A key that is absent leaves the empty string.\<close>

definition read_text :: "(gval \<Rightarrow> gerror + string) \<Rightarrow> string \<Rightarrow> (string \<times> gval) list \<Rightarrow> caps_error + string" where
  "read_text text_of k mm = (case map_of mm k of None \<Rightarrow> Inr [] | Some g \<Rightarrow> map_sum NotText id (text_of g))"

definition add_capability ::
  "eql_config \<Rightarrow> (gval \<Rightarrow> gerror + string) \<Rightarrow> nat \<Rightarrow> (string \<times> gval) list \<Rightarrow> capabilitiesList \<Rightarrow> caps_error + capabilitiesList" where
  "add_capability c text_of i mm r = (let rule = read_text text_of ''rule'' mm in
     if map_of mm ''input'' \<noteq> None then
       rbind rule (\<lambda>t. rbind (read_text text_of ''input'' mm) (\<lambda>p.
         Inr (r\<lparr>inputChecks := inputChecks r @ [\<lparr>pattern = p, matchRule = t\<rparr>]\<rparr>)))
     else if map_of mm ''output'' \<noteq> None then
       rbind rule (\<lambda>t. rbind (read_text text_of ''output'' mm) (\<lambda>p.
         Inr (r\<lparr>outputChecks := outputChecks r @ [\<lparr>pattern = p, matchRule = t\<rparr>]\<rparr>)))
     else if map_of mm ''upgrade'' \<noteq> None then
       rbind rule (\<lambda>t. rbind (read_text text_of ''upgrade'' mm) (\<lambda>cond.
         case newUpgradeCapability c cond t of
           None \<Rightarrow> Inl (BadUpgradeCondition cond)
         | Some cap \<Rightarrow> Inr (r\<lparr>upgradeChecks := upgradeChecks r @ [cap]\<rparr>)))
     else if map_of mm ''fleet_override'' \<noteq> None then
       rbind rule (\<lambda>t. Inr (r\<lparr>fleetOverrideChecks := fleetOverrideChecks r @ [Some (newFleetOverrideCapability t)]\<rparr>))
     else Inl (UnexpectedCapability i))"

fun UnmarshalYAML ::
  "eql_config \<Rightarrow> (gval \<Rightarrow> gerror + string) \<Rightarrow> nat \<Rightarrow> (string \<times> gval) list list \<Rightarrow> capabilitiesList \<Rightarrow> caps_error + capabilitiesList" where
  "UnmarshalYAML c text_of i [] r = Inr r"
| "UnmarshalYAML c text_of i (mm # mms) r = rbind (add_capability c text_of i mm r) (UnmarshalYAML c text_of (i + 1) mms)"

definition no_capabilities :: capabilitiesList where
  "no_capabilities = \<lparr>inputChecks = [], outputChecks = [], upgradeChecks = [], fleetOverrideChecks = []\<rparr>"

section \<open>The manager\<close>

text \<open>The manager holds the four lists. The file may be missing, which allows everything but the override.\<close>

type_synonym capabilitiesManager = capabilitiesList

definition Load :: "eql_config \<Rightarrow> (gval \<Rightarrow> gerror + string) \<Rightarrow> (string \<times> gval) list list \<Rightarrow> capabilitiesManager \<times> caps_error option" where
  "Load c text_of spec = (case UnmarshalYAML c text_of 0 spec no_capabilities of
       Inl e \<Rightarrow> (no_capabilities, Some e) | Inr caps \<Rightarrow> (caps, None))"

definition AllowInput :: "capabilitiesManager \<Rightarrow> string \<Rightarrow> bool" where
  "AllowInput cm inputType = matchString inputType (inputChecks cm)"

definition AllowOutput :: "capabilitiesManager \<Rightarrow> string \<Rightarrow> bool" where
  "AllowOutput cm outputType = matchString outputType (outputChecks cm)"

fun any_source :: "eql_config \<Rightarrow> string \<Rightarrow> string list \<Rightarrow> upgradeCapability list \<Rightarrow> bool option" where
  "any_source c version [] caps = Some False"
| "any_source c version (s # ss) caps = (case allowUpgrade c version s caps of
       None \<Rightarrow> None
     | Some ok \<Rightarrow> if ok then Some True else any_source c version ss caps)"

definition AllowUpgrade :: "eql_config \<Rightarrow> capabilitiesManager \<Rightarrow> string \<Rightarrow> string list \<Rightarrow> bool option" where
  "AllowUpgrade c cm version sources = (if sources = [] then allowUpgrade c version [] (upgradeChecks cm)
     else any_source c version sources (upgradeChecks cm))"

fun filter_sources :: "eql_config \<Rightarrow> string \<Rightarrow> string list \<Rightarrow> upgradeCapability list \<Rightarrow> string list option" where
  "filter_sources c version [] caps = Some []"
| "filter_sources c version (s # ss) caps = (case allowUpgrade c version s caps of
       None \<Rightarrow> None
     | Some ok \<Rightarrow> map_option (\<lambda>allowed. if ok then s # allowed else allowed) (filter_sources c version ss caps))"

definition FilterUpgradeSources :: "eql_config \<Rightarrow> capabilitiesManager \<Rightarrow> string \<Rightarrow> string list \<Rightarrow> string list option" where
  "FilterUpgradeSources c cm version sources = filter_sources c version sources (upgradeChecks cm)"

definition AllowFleetOverride :: "capabilitiesManager \<Rightarrow> bool" where
  "AllowFleetOverride cm = allowFleetOverride (fleetOverrideChecks cm)"

section \<open>The first rule that matches decides\<close>

text \<open>An entry of the file that is a rule about inputs and matches an input type.\<close>

definition input_rule_matches :: "(gval \<Rightarrow> gerror + string) \<Rightarrow> string \<Rightarrow> (string \<times> gval) list \<Rightarrow> bool" where
  "input_rule_matches text_of t mm \<longleftrightarrow> (case map_of mm ''input'' of
     None \<Rightarrow> False | Some g \<Rightarrow> (case text_of g of Inl _ \<Rightarrow> False | Inr p \<Rightarrow> matchesExpr p t))"

definition says_allow :: "(gval \<Rightarrow> gerror + string) \<Rightarrow> (string \<times> gval) list \<Rightarrow> bool" where
  "says_allow text_of mm \<longleftrightarrow> read_text text_of ''rule'' mm = Inr ruleTypeAllow"

lemma matchString_append:
  "matchString t (ms @ ns) = (if list_ex (\<lambda>m. matchesExpr (pattern m) t) ms then matchString t ms else matchString t ns)"
  by (induction ms) auto

lemma add_capability_inputs:
  assumes "add_capability c text_of i mm r = Inr r'"
  shows "\<exists>ms. inputChecks r' = inputChecks r @ ms
    \<and> (\<forall>t. list_ex (\<lambda>m. matchesExpr (pattern m) t) ms = input_rule_matches text_of t mm)
    \<and> (\<forall>t. input_rule_matches text_of t mm \<longrightarrow> matchString t ms = says_allow text_of mm)"
  using assms
  by (auto simp: add_capability_def Let_def rbind_eq_Inr input_rule_matches_def says_allow_def read_text_def
      split: if_splits option.splits sum.splits)

lemma UnmarshalYAML_inputs:
  assumes "UnmarshalYAML c text_of i mms r = Inr r'"
  shows "matchString t (inputChecks r') = (if list_ex (\<lambda>m. matchesExpr (pattern m) t) (inputChecks r) then matchString t (inputChecks r)
    else case find (input_rule_matches text_of t) mms of None \<Rightarrow> True | Some mm \<Rightarrow> says_allow text_of mm)"
  using assms
proof (induction mms arbitrary: i r)
  case Nil
  have "\<not> list_ex (\<lambda>m. matchesExpr (pattern m) t) ms \<Longrightarrow> matchString t ms" for ms by (induction ms) auto
  with Nil show ?case by auto
next
  case (Cons mm mms)
  then obtain r1 where r1: "add_capability c text_of i mm r = Inr r1" "UnmarshalYAML c text_of (i + 1) mms r1 = Inr r'"
    by (auto simp: rbind_eq_Inr)
  obtain ms where ms: "inputChecks r1 = inputChecks r @ ms"
    "\<And>t. list_ex (\<lambda>m. matchesExpr (pattern m) t) ms = input_rule_matches text_of t mm"
    "\<And>t. input_rule_matches text_of t mm \<Longrightarrow> matchString t ms = says_allow text_of mm"
    using add_capability_inputs[OF r1(1)] by blast
  show ?case
    using Cons.IH[OF r1(2)] by (auto simp: ms matchString_append)
qed

text \<open>C27: For a capabilities file that loads, an input type is allowed exactly when the first entry of the file that is a
  rule about inputs with a pattern that matches the type says allow, or there is no such entry.\<close>

theorem first_matching_rule_decides:
  assumes "Load c text_of spec = (cm, None)"
  shows "AllowInput cm t = (case find (input_rule_matches text_of t) spec of None \<Rightarrow> True | Some mm \<Rightarrow> says_allow text_of mm)"
  using assms UnmarshalYAML_inputs[of c text_of 0 spec no_capabilities cm t]
  by (auto simp: Load_def AllowInput_def no_capabilities_def split: sum.splits)

definition plain_text :: "gval \<Rightarrow> gerror + string" where
  "plain_text g = (case g of GStr s \<Rightarrow> Inr s | _ \<Rightarrow> Inl ''scalar expected'')"

definition sample_caps :: "(string \<times> gval) list list" where
  "sample_caps = [[(''input'', GStr ''system/*''), (''rule'', GStr ''allow'')], [(''input'', GStr ''*''), (''rule'', GStr ''deny'')]]"

definition no_parser :: eql_config where
  "no_parser = \<lparr>parser = \<lambda>_. None, iteration = \<lambda>_. 0, engine = \<lambda>_. None\<rparr>"

theorem first_matching_rule_decides_witness:
  "AllowInput (fst (Load no_parser plain_text sample_caps)) ''system/metrics'' \<and> \<not> AllowInput (fst (Load no_parser plain_text sample_caps)) ''logs''"
proof -
  have "Load no_parser plain_text sample_caps = (fst (Load no_parser plain_text sample_caps), None)"
    by (simp add: Load_def sample_caps_def add_capability_def read_text_def plain_text_def Let_def)
  from first_matching_rule_decides[OF this] show ?thesis
    by (simp add: sample_caps_def input_rule_matches_def plain_text_def says_allow_def read_text_def ruleTypeAllow_def matchesExpr_def
        wild_def separator_def)
qed

text \<open>An upgrade with sources is allowed exactly when one of its sources is left by the filter.\<close>

lemma upgrade_allowed_with_a_source:
  assumes "sources \<noteq> []" "FilterUpgradeSources c cm version sources = Some allowed"
  shows "AllowUpgrade c cm version sources = Some (allowed \<noteq> [])"
proof -
  have "filter_sources c version ss caps = Some us \<Longrightarrow> any_source c version ss caps = Some (us \<noteq> [])" for ss us caps
    by (induction ss arbitrary: us) (auto split: option.splits if_splits)
  with assms show ?thesis by (simp add: AllowUpgrade_def FilterUpgradeSources_def)
qed

text \<open>A rule that is neither allow nor deny counts as deny for inputs and outputs and is skipped for the override.\<close>

lemma misspelt_rule:
  assumes "allowOrDeny_Validate rule = Some e"
  shows "matchesExpr p t \<Longrightarrow> \<not> matchString t (\<lparr>pattern = p, matchRule = rule\<rparr> # ms)"
    and "allowFleetOverride (Some \<lparr>overrideRule = rule\<rparr> # caps) = allowFleetOverride caps"
  using assms by (auto simp: allowOrDeny_Validate_def split: if_splits)

end
