(* ===== verification/Coordinator.thy ===== *)
theory Coordinator
  imports Model_Props Render_Props Capabilities Command_Runtime Upgrade_Details
begin

text \<open>
  The coordinator, \<^verbatim>\<open>internal/pkg/agent/application/coordinator\<close>: the state it reports, the component model it makes of
  the policy and the variables, the two managers that run the components, and its loop as a step on the events of its
  channels.

  What the coordinator sends is recorded in the field \<open>sent\<close>, oldest first: the states for the broadcaster, the models for
  the two managers and the directories it removes. Code outside the coordinator answers through the parameters of
  \<open>coord_env\<close> or through the event. The managers exist, as they do outside tests, and logging is left out. A panic of the
  tree is carried as the error \<open>TPanic\<close>.
\<close>

section \<open>State\<close>

datatype AgentState = Starting | Configuring | Healthy | Degraded | Failed | Stopping | Stopped | Upgrading | Rollback

text \<open>The status of a collector; the list is the map of its children in the order that Go ranges over it.\<close>

datatype AggregateStatus = AggregateStatus (agg_status: int) (ComponentStatusMap: "(string \<times> AggregateStatus) list")

record 'p ComponentComponentState =
  ccComponent :: "'p model_component"
  ccState :: "'p ComponentState"

abbreviation cc_id :: "'p ComponentComponentState \<Rightarrow> string" where
  "cc_id s \<equiv> CompID (ccComponent s)"

record 'p State =
  AggState :: AgentState
  AggMessage :: string
  CoordinatorState :: AgentState
  CoordinatorMessage :: string
  FleetState :: AgentState
  FleetMessage :: string
  Components :: "'p ComponentComponentState list"
  StateLogLevel :: int
  Tags :: "string list"
  Collector :: "AggregateStatus option"
  UpgradeDetails :: "unit Details option"
  PolicyApplied :: bool
  PolicyConfiguredActionTypes :: "(string, string list) gomap"

record coordinatorOverrideState =
  ovState :: AgentState
  ovMessage :: string

datatype coord_error =
    ExternalError gerror
  | PolicyChangeFailed coord_error
  | AckFailed coord_error
  | PersistedFailed coord_error
  | MapFailed coord_error
  | AstFailed tr_error
  | ReloadFailed coord_error
  | ObserveFailed tr_error
  | ProtectionFailed coord_error
  | InvalidConfiguration coord_error
  | GeneratingModel coord_error
  | RenderingInputs tr_error
  | InsertingInputs tr_error
  | RenderingOutputs tr_error
  | InsertingOutputs tr_error
  | ConvertingAst tr_error
  | RenderingComponents policy_error
  | WorkDirs coord_error
  | PreparingWorkDir string gerror

text \<open>The signed part of a policy. Every error of reading it wraps \<^verbatim>\<open>ErrNotFound\<close>.\<close>

record SignedPolicy =
  signedData :: string
  signedSignature :: string

datatype signed_error = NotSigned | SignedNotMap | SignedMissing string | SignedNotString string

definition getStringValue :: "config \<Rightarrow> string \<Rightarrow> signed_error + string" where
  "getStringValue m key = (case map_of m key of
       None \<Rightarrow> Inl (SignedMissing key) | Some (GStr s) \<Rightarrow> Inr s | Some _ \<Rightarrow> Inl (SignedNotString key))"

definition SignedFromPolicy :: "config \<Rightarrow> signed_error + SignedPolicy" where
  "SignedFromPolicy policy = (case map_of policy ''signed'' of
       None \<Rightarrow> Inl NotSigned
     | Some (GMap m) \<Rightarrow> rbind (getStringValue m ''data'') (\<lambda>d. rbind (getStringValue m ''signature'') (\<lambda>sg.
         Inr \<lparr>signedData = d, signedSignature = sg\<rparr>))
     | Some _ \<Rightarrow> Inl SignedNotMap)"

record 'p Model =
  ModelComponents :: "'p model_component list"
  Signed :: "SignedPolicy option"

text \<open>A deferred update: the closure \<^verbatim>\<open>apply\<close> is what it captures.\<close>

record 'm pendingManagerUpdate =
  deferred :: 'm
  waiting :: "string list"

record 'p pendingRuntimeTransitions =
  toOTel :: "'p model_component list pendingManagerUpdate option"
  toProcess :: "'p Model pendingManagerUpdate option"
  deadline :: gtime

record 'p settings =
  RuntimeCfg :: RuntimeConfig
  MonitoringConfig :: 'p
  LoggingLevel :: int
  SettingsTags :: "string list"

datatype 'p coord_effect =
    Broadcast "'p State"
  | RuntimeUpdate "'p Model"
  | OTelUpdate "'p option" 'p int "'p model_component list"
  | RemoveWorkDir string
  | SetLevel int
  | Observe "string list"
  | ChangeFailed coord_error
  | ChangeAcked

record 'p Coordinator =
  isManaged :: bool
  standalone :: bool
  agentTags :: "string list"
  currentCfg :: "'p settings"
  otelCfg :: "'p option"
  cstateOf :: "'p State"
  stateNeedsRefresh :: bool
  overrideState :: "coordinatorOverrideState option"
  configMgrErr :: "coord_error option"
  actionsErr :: "coord_error option"
  varsMgrErr :: "coord_error option"
  configErr :: "coord_error option"
  componentModelErr :: "coord_error option"
  runtimeUpdateErr :: "coord_error option"
  otelErr :: "coord_error option"
  cast :: "ast option"
  cvars :: "Vars list option"
  derivedConfig :: config
  renderCache :: RenderCache
  componentModel :: "'p model_component list"
  pendingTransitions :: "'p pendingRuntimeTransitions"
  queuedModel :: "'p Model option"
  protection :: "'p option"
  componentPidRequiresUpdate :: bool
  sent :: "'p coord_effect list"

record 'p coord_env =
  capi :: "'p client_api"
  menv :: "'p model_env"
  order :: "string \<Rightarrow> nat"
  specs :: RuntimeSpecs
  sum64 :: "string \<Rightarrow> nat"
  StatusFatalError :: int
  StatusPermanentError :: int
  StatusRecoverableError :: int
  isRecoverable :: "coord_error \<Rightarrow> bool"
  asWarning :: "coord_error \<Rightarrow> string option"
  errorText :: "coord_error \<Rightarrow> string"
  isDynamic :: "string \<Rightarrow> bool"
  otelSupported :: "'p model_component \<Rightarrow> bool"
  caps :: "capabilitiesManager option"
  modifiers :: "('p model_component list \<Rightarrow> config \<Rightarrow> gerror + 'p model_component list) list"
  monitoring :: "((string, u64) gomap \<Rightarrow> config \<Rightarrow> 'p model_component list \<Rightarrow> gerror + config option) option"
  headers :: "(string \<times> string) list option"
  levelString :: "int \<Rightarrow> string"
  agentInfoFor :: "string list \<Rightarrow> 'p"
  PrepareWorkDir :: "'p model_component \<Rightarrow> gerror option"
  varsDefaultProvider :: string

definition emit :: "'p coord_effect \<Rightarrow> 'p Coordinator \<Rightarrow> 'p Coordinator" where
  "emit x c = c\<lparr>sent := sent c @ [x]\<rparr>"

abbreviation upd_state :: "('p State \<Rightarrow> 'p State) \<Rightarrow> 'p Coordinator \<Rightarrow> 'p Coordinator" where
  "upd_state f c \<equiv> c\<lparr>cstateOf := f (cstateOf c)\<rparr>"

section \<open>Setters\<close>

definition setRuntimeUpdateError :: "coord_error option \<Rightarrow> 'p Coordinator \<Rightarrow> 'p Coordinator" where
  "setRuntimeUpdateError err c = c\<lparr>runtimeUpdateErr := err, stateNeedsRefresh := True\<rparr>"

definition setOTelError :: "coord_error option \<Rightarrow> 'p Coordinator \<Rightarrow> 'p Coordinator" where
  "setOTelError err c = c\<lparr>otelErr := err, stateNeedsRefresh := True\<rparr>"

definition setConfigManagerError :: "coord_error option \<Rightarrow> 'p Coordinator \<Rightarrow> 'p Coordinator" where
  "setConfigManagerError err c = c\<lparr>configMgrErr := err, stateNeedsRefresh := True\<rparr>"

definition setConfigManagerActionsError :: "coord_error option \<Rightarrow> 'p Coordinator \<Rightarrow> 'p Coordinator" where
  "setConfigManagerActionsError err c = c\<lparr>actionsErr := err, stateNeedsRefresh := True\<rparr>"

definition setVarsManagerError :: "coord_error option \<Rightarrow> 'p Coordinator \<Rightarrow> 'p Coordinator" where
  "setVarsManagerError err c = c\<lparr>varsMgrErr := err, stateNeedsRefresh := True\<rparr>"

definition setConfigError :: "coord_error option \<Rightarrow> 'p Coordinator \<Rightarrow> 'p Coordinator" where
  "setConfigError err c = c\<lparr>configErr := err, stateNeedsRefresh := True\<rparr>"

definition setComponentModelError :: "coord_error option \<Rightarrow> 'p Coordinator \<Rightarrow> 'p Coordinator" where
  "setComponentModelError err c = c\<lparr>componentModelErr := err, stateNeedsRefresh := True\<rparr>"

definition setOverrideState :: "coordinatorOverrideState option \<Rightarrow> 'p Coordinator \<Rightarrow> 'p Coordinator" where
  "setOverrideState ov c = c\<lparr>overrideState := ov, stateNeedsRefresh := True\<rparr>"

definition setUpgradeDetails :: "unit Details option \<Rightarrow> 'p Coordinator \<Rightarrow> 'p Coordinator" where
  "setUpgradeDetails d c = (upd_state (\<lambda>s. s\<lparr>UpgradeDetails := d\<rparr>) c)\<lparr>stateNeedsRefresh := True\<rparr>"

definition setCoordinatorState :: "AgentState \<Rightarrow> string \<Rightarrow> 'p Coordinator \<Rightarrow> 'p Coordinator" where
  "setCoordinatorState st msg c =
     (upd_state (\<lambda>s. s\<lparr>CoordinatorState := st, CoordinatorMessage := msg\<rparr>) c)\<lparr>stateNeedsRefresh := True\<rparr>"

definition setFleetState :: "AgentState \<Rightarrow> string \<Rightarrow> 'p Coordinator \<Rightarrow> 'p Coordinator" where
  "setFleetState st msg c = (upd_state (\<lambda>s. s\<lparr>FleetState := st, FleetMessage := msg\<rparr>) c)\<lparr>stateNeedsRefresh := True\<rparr>"

definition setLogLevel :: "int \<Rightarrow> 'p Coordinator \<Rightarrow> 'p Coordinator" where
  "setLogLevel ll c = (upd_state (\<lambda>s. s\<lparr>StateLogLevel := ll\<rparr>) c)\<lparr>stateNeedsRefresh := True\<rparr>"

definition setTags :: "string list \<Rightarrow> 'p Coordinator \<Rightarrow> 'p Coordinator" where
  "setTags tags c = (upd_state (\<lambda>s. s\<lparr>Tags := tags\<rparr>) c)\<lparr>agentTags := tags, stateNeedsRefresh := True\<rparr>"

section \<open>The reported state\<close>

definition hasState :: "'p ComponentComponentState list \<Rightarrow> UnitState \<Rightarrow> bool" where
  "hasState cs st \<longleftrightarrow> list_ex (\<lambda>s. CState (ccState s) = st \<or> list_ex (\<lambda>(_, u). unitState u = st) (Units (ccState s))) cs"

text \<open>The loop over the children returns in its first iteration.\<close>

fun status_of_first :: "AggregateStatus \<Rightarrow> int \<Rightarrow> bool" where
  "status_of_first (AggregateStatus s cs) x = (if s = x then True
     else case cs of [] \<Rightarrow> False | (_, child) # _ \<Rightarrow> status_of_first child x)"

definition HasStatus :: "AggregateStatus option \<Rightarrow> int \<Rightarrow> bool" where
  "HasStatus cur x = (case cur of None \<Rightarrow> False | Some a \<Rightarrow> status_of_first a x)"

fun copyOTelStatus :: "AggregateStatus \<Rightarrow> AggregateStatus" where
  "copyOTelStatus (AggregateStatus s cs) = AggregateStatus s (map (\<lambda>(k, v). (k, copyOTelStatus v)) cs)"

definition report :: "'p coord_env \<Rightarrow> 'p Coordinator \<Rightarrow> 'p State \<Rightarrow> AgentState \<times> string" where
  "report e c s = (case overrideState c of Some ov \<Rightarrow> (ovState ov, ovMessage ov) | None \<Rightarrow>
     (case configErr c of Some er \<Rightarrow> (Failed, ''Invalid policy: '' @ errorText e er) | None \<Rightarrow>
     (case componentModelErr c of Some er \<Rightarrow> (Failed, ''Invalid component model: '' @ errorText e er) | None \<Rightarrow>
     (case runtimeUpdateErr c of Some er \<Rightarrow> (Failed, ''Runtime update failed: '' @ errorText e er) | None \<Rightarrow>
     (case otelErr c of Some er \<Rightarrow> (Failed, ''OTel manager failed: '' @ errorText e er) | None \<Rightarrow>
     (case configMgrErr c of Some er \<Rightarrow> (Failed, ''Config manager: '' @ errorText e er) | None \<Rightarrow>
     (case actionsErr c of
        Some er \<Rightarrow> if isRecoverable e er then (Degraded, ''Actions degraded: '' @ errorText e er)
          else (Failed, ''Actions failed: '' @ errorText e er)
      | None \<Rightarrow>
     (case varsMgrErr c of Some er \<Rightarrow> (Failed, ''Vars manager: '' @ errorText e er) | None \<Rightarrow>
     if hasState (Components s) (UnitStateFailed (capi e)) \<or> HasStatus (Collector s) (StatusFatalError e)
       \<or> HasStatus (Collector s) (StatusPermanentError e)
     then (Degraded, ''1 or more components/units in a failed state'')
     else if hasState (Components s) (UnitStateDegraded (capi e)) \<or> HasStatus (Collector s) (StatusRecoverableError e)
     then (Degraded, ''1 or more components/units in a degraded state'')
     else (CoordinatorState s, CoordinatorMessage s)))))))))"

definition generateReportableState :: "'p coord_env \<Rightarrow> 'p Coordinator \<Rightarrow> 'p State" where
  "generateReportableState e c =
     (let s = (cstateOf c)\<lparr>Collector := map_option copyOTelStatus (Collector (cstateOf c))\<rparr>;
          r = report e c s
      in s\<lparr>AggState := fst r, AggMessage := snd r\<rparr>)"

definition refreshState :: "'p coord_env \<Rightarrow> 'p Coordinator \<Rightarrow> 'p Coordinator" where
  "refreshState e c = (emit (Broadcast (generateReportableState e c)) c)\<lparr>stateNeedsRefresh := False\<rparr>"

section \<open>The two managers\<close>

definition transitionTimeout :: duration where
  "transitionTimeout = ProcessStopTimeout + 3 * second_ns"

definition no_transitions :: "'p pendingRuntimeTransitions" where
  "no_transitions = \<lparr>toOTel = None, toProcess = None, deadline = zero_time\<rparr>"

definition active :: "'p pendingRuntimeTransitions \<Rightarrow> bool" where
  "active p \<longleftrightarrow> toOTel p \<noteq> None \<or> toProcess p \<noteq> None"

definition expired :: "gtime \<Rightarrow> 'p pendingRuntimeTransitions \<Rightarrow> bool" where
  "expired now p \<longleftrightarrow> active p \<and> deadline p \<noteq> zero_time \<and> deadline p < now"

definition splitModelBetweenManagers :: "'p Model \<Rightarrow> 'p Model \<times> 'p Model" where
  "splitModelBetweenManagers model =
     (\<lparr>ModelComponents = filter (\<lambda>cm. CompRuntimeManager cm = ProcessRuntimeManager) (ModelComponents model), Signed = Signed model\<rparr>,
      \<lparr>ModelComponents = filter (\<lambda>cm. CompRuntimeManager cm = OtelRuntimeManager) (ModelComponents model), Signed = None\<rparr>)"

text \<open>The runtime of the components that have reported; of several with one identifier the last counts, and the empty string is no runtime.\<close>

definition currentRuntime :: "'p Coordinator \<Rightarrow> string \<Rightarrow> RuntimeManager" where
  "currentRuntime c i = (case map_of (rev (map (\<lambda>s. (cc_id s, CompRuntimeManager (ccComponent s))) (Components (cstateOf c)))) i of
     None \<Rightarrow> [] | Some m \<Rightarrow> m)"

record 'p runtimeTransitionResult =
  movingToOtel :: "string list"
  movingToProcess :: "string list"
  currentRuntimeModel :: "'p Model"
  currentOTelComponents :: "'p model_component list"
  fullRuntimeModel :: "'p Model"
  fullOTelComponents :: "'p model_component list"

definition detectRuntimeTransitions :: "'p Model \<Rightarrow> 'p Model \<Rightarrow> 'p Coordinator \<Rightarrow> 'p runtimeTransitionResult" where
  "detectRuntimeTransitions runtimeModel otelModel c =
     (let on = (\<lambda>m cm. currentRuntime c (CompID cm) = m) in
      \<lparr>movingToOtel = remdups (map CompID (filter (on ProcessRuntimeManager) (ModelComponents otelModel))),
       movingToProcess = remdups (map CompID (filter (on OtelRuntimeManager) (ModelComponents runtimeModel))),
       currentRuntimeModel = runtimeModel\<lparr>ModelComponents := filter (\<lambda>cm. \<not> on OtelRuntimeManager cm) (ModelComponents runtimeModel)\<rparr>,
       currentOTelComponents = filter (\<lambda>cm. \<not> on ProcessRuntimeManager cm) (ModelComponents otelModel),
       fullRuntimeModel = runtimeModel, fullOTelComponents = ModelComponents otelModel\<rparr>)"

definition runtimeMgr_Update :: "'p Model \<Rightarrow> 'p Coordinator \<Rightarrow> 'p Coordinator" where
  "runtimeMgr_Update model c = emit (RuntimeUpdate model) c"

definition applyOTelUpdate :: "'p model_component list \<Rightarrow> 'p Coordinator \<Rightarrow> 'p Coordinator" where
  "applyOTelUpdate cs c = emit (OTelUpdate (otelCfg c) (MonitoringConfig (currentCfg c)) (StateLogLevel (cstateOf c)) cs) c"

definition updateManagersWithConfig :: "gtime \<Rightarrow> 'p Model \<Rightarrow> 'p Coordinator \<Rightarrow> 'p Coordinator" where
  "updateManagersWithConfig now model c =
     (if active (pendingTransitions c) then c\<lparr>queuedModel := Some model\<rparr>
      else let sp = splitModelBetweenManagers model;
               tr = detectRuntimeTransitions (fst sp) (snd sp) c;
               c1 = applyOTelUpdate (currentOTelComponents tr) (runtimeMgr_Update (currentRuntimeModel tr) c);
               p0 = pendingTransitions c1;
               p1 = (if movingToOtel tr \<noteq> [] then p0\<lparr>toOTel := Some \<lparr>deferred = fullOTelComponents tr, waiting = movingToOtel tr\<rparr>\<rparr> else p0);
               p2 = (if movingToProcess tr \<noteq> [] then p1\<lparr>toProcess := Some \<lparr>deferred = fullRuntimeModel tr, waiting = movingToProcess tr\<rparr>\<rparr> else p1)
           in c1\<lparr>pendingTransitions := (if active p2 then p2\<lparr>deadline := now + transitionTimeout\<rparr> else p2)\<rparr>)"

definition take_queued :: "gtime \<Rightarrow> 'p Coordinator \<Rightarrow> 'p Coordinator" where
  "take_queued now c = (case queuedModel c of
       None \<Rightarrow> c
     | Some model \<Rightarrow> updateManagersWithConfig now model (c\<lparr>queuedModel := None\<rparr>))"

definition forceApplyPendingTransitions :: "gtime \<Rightarrow> 'p Coordinator \<Rightarrow> 'p Coordinator" where
  "forceApplyPendingTransitions now c =
     (let c1 = (case toOTel (pendingTransitions c) of None \<Rightarrow> c | Some p \<Rightarrow> applyOTelUpdate (deferred p) c);
          c2 = (case toProcess (pendingTransitions c1) of None \<Rightarrow> c1 | Some p \<Rightarrow> runtimeMgr_Update (deferred p) c1)
      in take_queued now (c2\<lparr>pendingTransitions := no_transitions\<rparr>))"

definition checkAndApplyPending ::
  "('m \<Rightarrow> 'p Coordinator \<Rightarrow> 'p Coordinator) \<Rightarrow> 'm pendingManagerUpdate option \<Rightarrow> string \<Rightarrow> 'p Coordinator
   \<Rightarrow> 'm pendingManagerUpdate option \<times> 'p Coordinator" where
  "checkAndApplyPending apply_update w i c = (case w of
       None \<Rightarrow> (None, c)
     | Some p \<Rightarrow> if i \<notin> set (waiting p) then (Some p, c)
         else let rest = removeAll i (waiting p) in
           if rest = [] then (None, apply_update (deferred p) c) else (Some (p\<lparr>waiting := rest\<rparr>), c))"

definition checkPendingManagerUpdate :: "gtime \<Rightarrow> string \<Rightarrow> 'p Coordinator \<Rightarrow> 'p Coordinator" where
  "checkPendingManagerUpdate now i c =
     (case checkAndApplyPending applyOTelUpdate (toOTel (pendingTransitions c)) i c of (w1, c1) \<Rightarrow>
      case checkAndApplyPending runtimeMgr_Update (toProcess (pendingTransitions c1)) i (c1\<lparr>pendingTransitions := (pendingTransitions c1)\<lparr>toOTel := w1\<rparr>\<rparr>) of (w2, c2) \<Rightarrow>
      let c3 = c2\<lparr>pendingTransitions := (pendingTransitions c2)\<lparr>toProcess := w2\<rparr>\<rparr> in
      if \<not> active (pendingTransitions c3) \<and> queuedModel c3 \<noteq> None
      then take_queued now (c3\<lparr>pendingTransitions := no_transitions\<rparr>) else c3)"

section \<open>A component reports\<close>

text \<open>The place of the first component state with an identifier.\<close>

fun replace_state :: "'p ComponentComponentState \<Rightarrow> 'p ComponentComponentState list \<Rightarrow> 'p ComponentComponentState list" where
  "replace_state s [] = [s]"
| "replace_state s (x # xs) = (if cc_id x = cc_id s then s # xs else x # replace_state s xs)"

fun remove_state :: "string \<Rightarrow> 'p ComponentComponentState list \<Rightarrow> 'p ComponentComponentState list" where
  "remove_state i [] = []"
| "remove_state i (x # xs) = (if cc_id x = i then xs else x # remove_state i xs)"

definition known_state :: "string \<Rightarrow> 'p Coordinator \<Rightarrow> 'p ComponentComponentState option" where
  "known_state i c = find (\<lambda>x. cc_id x = i) (Components (cstateOf c))"

definition stale :: "'p ComponentComponentState \<Rightarrow> 'p Coordinator \<Rightarrow> bool" where
  "stale s c \<longleftrightarrow> (case known_state (cc_id s) c of
     None \<Rightarrow> False | Some other \<Rightarrow> LastConfiguredAt (ccComponent s) < LastConfiguredAt (ccComponent other))"

definition new_pid :: "'p ComponentComponentState \<Rightarrow> 'p Coordinator \<Rightarrow> bool" where
  "new_pid s c \<longleftrightarrow> (case known_state (cc_id s) c of
     None \<Rightarrow> Pid (ccState s) \<noteq> 0 | Some other \<Rightarrow> Pid (ccState other) \<noteq> Pid (ccState s))"

definition merge_state :: "'p ComponentComponentState \<Rightarrow> 'p Coordinator \<Rightarrow> 'p Coordinator" where
  "merge_state s c = (upd_state (\<lambda>st. st\<lparr>Components := replace_state s (Components st)\<rparr>) c)
     \<lparr>componentPidRequiresUpdate := componentPidRequiresUpdate c \<or> new_pid s c\<rparr>"

definition stopped_component :: "'p coord_env \<Rightarrow> gtime \<Rightarrow> string \<Rightarrow> 'p Coordinator \<Rightarrow> 'p Coordinator" where
  "stopped_component e now i c =
     (let c1 = upd_state (\<lambda>st. st\<lparr>Components := remove_state i (Components st)\<rparr>) (refreshState e c);
          c2 = (if list_ex (\<lambda>cm. CompID cm = i) (componentModel c1) then c1 else emit (RemoveWorkDir i) c1)
      in checkPendingManagerUpdate now i c2)"

definition applyComponentState :: "'p coord_env \<Rightarrow> gtime \<Rightarrow> 'p ComponentComponentState \<Rightarrow> 'p Coordinator \<Rightarrow> 'p Coordinator" where
  "applyComponentState e now s c = (if stale s c then c
     else let c1 = merge_state s c;
              c2 = (if CState (ccState s) = UnitStateStopped (capi e) then stopped_component e now (cc_id s) c1 else c1)
          in c2\<lparr>stateNeedsRefresh := True\<rparr>)"

section \<open>The component model\<close>

definition isStaticVariable :: "string list \<Rightarrow> string \<Rightarrow> bool" where
  "isStaticVariable staticVariables name \<longleftrightarrow> list_ex (\<lambda>st. name = st \<or> has_prefix name (st @ ''.'')) staticVariables"

definition getDynamicInputs :: "(string \<Rightarrow> bool) \<Rightarrow> (string \<times> RenderedInputInfo) list \<Rightarrow> string list \<Rightarrow> string list" where
  "getDynamicInputs dyn infos staticVariables = map fst (filter (\<lambda>(i, info). dyn (DynamicProvider info)
     \<and> (ProviderVars info = [] \<or> list_ex (\<lambda>n. \<not> isStaticVariable staticVariables n) (ProviderVars info))) infos)"

definition maybeOverrideRuntimeForComponent ::
  "('p model_component \<Rightarrow> bool) \<Rightarrow> RuntimeConfig \<Rightarrow> 'p model_component \<Rightarrow> 'p model_component" where
  "maybeOverrideRuntimeForComponent okay rc cm =
     (if CompRuntimeManager cm = OtelRuntimeManager then
        let cm1 = (if okay cm then cm else cm\<lparr>CompRuntimeManager := ProcessRuntimeManager\<rparr>);
            dyn = RuntimeManagerForDynamicInput (DynamicInputs rc) (BeatName (CompInputSpec cm)) (CompInputType cm)
        in if dyn \<noteq> [] \<and> CompDynamic cm1 \<and> CompRuntimeManager cm1 \<noteq> dyn then cm1\<lparr>CompRuntimeManager := dyn\<rparr> else cm1
      else cm)"

definition otelRuntimeModifier ::
  "('p model_component \<Rightarrow> bool) \<Rightarrow> RuntimeConfig \<Rightarrow> 'p model_component list \<Rightarrow> config \<Rightarrow> gerror + 'p model_component list" where
  "otelRuntimeModifier okay rc comps cfg = Inr (map (maybeOverrideRuntimeForComponent okay rc) comps)"

text \<open>Every component has a specification, so both checks apply to all of them.\<close>

definition filterByCapabilities :: "capabilitiesManager option \<Rightarrow> 'p model_component list \<Rightarrow> 'p model_component list" where
  "filterByCapabilities w comps = (case w of
       None \<Rightarrow> comps
     | Some cm \<Rightarrow> filter (\<lambda>x. AllowInput cm (CompInputType x) \<and> AllowOutput cm (CompOutputType x)) comps)"

definition policyConfiguredActionTypes :: "'p model_component list \<Rightarrow> (string, string list) gomap" where
  "policyConfiguredActionTypes comps = foldl (\<lambda>m cm. foldl (\<lambda>m typ. add_unit typ (CompID cm) m) m
     (ProxiedActions (InputSpecOf (CompInputSpec cm)))) [] comps"

text \<open>The inputs are rendered with the cache and replaced by an empty list; the outputs are rendered in the tree. A
  nil node in place of a key has no value to look at.\<close>

definition render_inputs ::
  "'p coord_env \<Rightarrow> ast \<Rightarrow> Vars list \<Rightarrow> RenderCache \<Rightarrow> coord_error + RenderedInputs option \<times> RenderCache" where
  "render_inputs e a vs cache = rbind (map_sum RenderingInputs id (Lookup a ''inputs'')) (\<lambda>w. case w of
       None \<Rightarrow> Inr (None, cache)
     | Some None \<Rightarrow> Inl (RenderingInputs TPanic)
     | Some (Some inputs) \<Rightarrow>
         rbind (map_sum RenderingInputs id (RenderInputsCached (eqlConfig (menv e)) (sum64 e) inputs vs (Some cache))) (\<lambda>(r, cache').
         Inr (Some r, the cache')))"

definition clear_inputs :: "RenderedInputs option \<Rightarrow> ast \<Rightarrow> coord_error + ast" where
  "clear_inputs ri a = (if ri = None then Inr a else case Insert a (Some (NewList [])) ''inputs'' of
       (a', Some er) \<Rightarrow> Inl (InsertingInputs er)
     | (a', None) \<Rightarrow> Inr a')"

definition render_outputs :: "'p coord_env \<Rightarrow> ast \<Rightarrow> Vars list \<Rightarrow> coord_error + ast" where
  "render_outputs e a vs = rbind (map_sum RenderingOutputs id (Lookup a ''outputs'')) (\<lambda>w. case w of
       None \<Rightarrow> Inr a
     | Some None \<Rightarrow> Inl (RenderingOutputs TPanic)
     | Some (Some outputs) \<Rightarrow> rbind (map_sum RenderingOutputs id (RenderOutputs (eqlConfig (menv e)) outputs vs)) (\<lambda>r.
         case Insert a (Some r) ''outputs'' of
           (a', Some er) \<Rightarrow> Inl (InsertingOutputs er)
         | (a', None) \<Rightarrow> Inr a'))"

definition components_of ::
  "'p coord_env \<Rightarrow> 'p Coordinator \<Rightarrow> config \<Rightarrow> RenderedInputs option \<Rightarrow> coord_error + 'p model_component list" where
  "components_of e c cfg ri =
     (let rc = RuntimeCfg (currentCfg c);
          infos = (case ri of None \<Rightarrow> [] | Some r \<Rightarrow> Info r);
          dyn = getDynamicInputs (isDynamic e) infos (StaticVariables (DynamicInputs rc));
          existing = map (\<lambda>s. (cc_id s, Pid (ccState s))) (rev (Components (cstateOf c)));
          args = \<lparr>logLevel = levelString e (StateLogLevel (cstateOf c)), headersOf = headers e, dynamicInputs = (\<lambda>i. i \<in> set dyn),
            agentInfo = Some (agentInfoFor e (agentTags c))\<rparr>
      in map_sum RenderingComponents (filterByCapabilities (caps e))
           (ToComponents (menv e) (order e) (specs e) rc args (modifiers e @ [otelRuntimeModifier (otelSupported e) rc])
             (map_option (\<lambda>f. f existing) (monitoring e)) cfg))"

definition derive_config :: "'p coord_env \<Rightarrow> ast \<Rightarrow> Vars list \<Rightarrow> RenderedInputs option \<Rightarrow> coord_error + config" where
  "derive_config e a vs ri =
     rbind (clear_inputs ri a) (\<lambda>a1.
     rbind (render_outputs e a1 vs) (\<lambda>a2.
     rbind (map_sum ConvertingAst id (AST_Map a2)) (\<lambda>m.
     Inr (case ri of None \<Rightarrow> m | Some r \<Rightarrow> map_put ''inputs'' (GList (map GMap (RenderedInputs_Maps r))) m))))"

text \<open>The cache is kept when a later step fails. What a failed rendering of the inputs itself leaves in the cache is not
  modelled: the entries are the ones that the next rendering makes again.\<close>

definition generateComponentModel :: "'p coord_env \<Rightarrow> ast \<Rightarrow> Vars list \<Rightarrow> 'p Coordinator \<Rightarrow> coord_error option \<times> 'p Coordinator" where
  "generateComponentModel e a vs c = (case render_inputs e (map_option ShallowClone a) vs (renderCache c) of
       Inl er \<Rightarrow> (Some er, c)
     | Inr (ri, cache) \<Rightarrow>
         (let c1 = c\<lparr>renderCache := cache\<rparr> in
          case rbind (derive_config e (map_option ShallowClone a) vs ri) (\<lambda>cfg.
              rbind (components_of e c1 cfg ri) (\<lambda>comps. Inr (cfg, comps))) of
            Inl er \<Rightarrow> (Some er, c1)
          | Inr (cfg, comps) \<Rightarrow> (None, c1\<lparr>derivedConfig := cfg, componentModel := comps\<rparr>)))"

definition ensureComponentWorkDirs :: "'p coord_env \<Rightarrow> 'p Coordinator \<Rightarrow> coord_error option" where
  "ensureComponentWorkDirs e c = first_error (\<lambda>cm. map_option (PreparingWorkDir (CompID cm)) (PrepareWorkDir e cm)) (componentModel c)"

text \<open>The model for the managers, with what is changed on the way to it even when it fails. An error of the signed part that
  does not wrap \<^verbatim>\<open>ErrNotFound\<close> would be returned; there is none.\<close>

definition prepare_model :: "'p coord_env \<Rightarrow> ast \<Rightarrow> Vars list \<Rightarrow> 'p Coordinator \<Rightarrow> (coord_error + 'p Model) \<times> 'p Coordinator" where
  "prepare_model e a vs c = (case generateComponentModel e a vs c of
       (Some er, c1) \<Rightarrow> (Inl (GeneratingModel er), c1)
     | (None, c1) \<Rightarrow> (case ensureComponentWorkDirs e c1 of
           Some er \<Rightarrow> (Inl (WorkDirs er), c1)
         | None \<Rightarrow> (Inr \<lparr>ModelComponents = componentModel c1,
             Signed = (case SignedFromPolicy (derivedConfig c1) of Inl _ \<Rightarrow> None | Inr sg \<Rightarrow> Some sg)\<rparr>, c1)))"

definition refreshComponentModel :: "'p coord_env \<Rightarrow> gtime \<Rightarrow> 'p Coordinator \<Rightarrow> coord_error option \<times> 'p Coordinator" where
  "refreshComponentModel e now c = (case (cast c, cvars c) of
       (Some a, Some vs) \<Rightarrow> (case prepare_model e a vs c of
           (Inl er, c1) \<Rightarrow> (Some er, setComponentModelError (Some er) c1)
         | (Inr model, c1) \<Rightarrow> (None, setComponentModelError None (updateManagersWithConfig now model
             (upd_state (\<lambda>s. s\<lparr>PolicyConfiguredActionTypes := policyConfiguredActionTypes (componentModel c1), PolicyApplied := True\<rparr>) c1))))
     | _ \<Rightarrow> (None, c))"

section \<open>A new policy\<close>

definition NormalizeTags :: "string list \<Rightarrow> string list" where
  "NormalizeTags tags = rev (remdups (rev (filter (\<lambda>t. t \<noteq> []) (map trim_space tags))))"

text \<open>A change of the configuration, with what the packages that read it answer.\<close>

record 'p ConfigChange =
  injectErr :: "coord_error option"
  persistedErr :: "coord_error option"
  changeOTel :: "'p option"
  changeMap :: "coord_error + config"
  reloads :: "coord_error option list"
  observed :: "coord_error + Vars list option"
  protectionOf :: "coord_error + 'p option"
  newCfg :: "coord_error + 'p settings"
  ackErr :: "coord_error option"

definition generateAST :: "'p ConfigChange \<Rightarrow> config \<Rightarrow> 'p Coordinator \<Rightarrow> coord_error option \<times> 'p Coordinator" where
  "generateAST change m c = (case NewAST m of
       Inl er \<Rightarrow> (Some (AstFailed er), setConfigError (Some (AstFailed er)) c)
     | Inr rawAst \<Rightarrow> (case first_error (\<lambda>er. er) (reloads change) of
           Some er \<Rightarrow> (Some (ReloadFailed er), setConfigError (Some (ReloadFailed er)) c)
         | None \<Rightarrow> (None, setConfigError None (c\<lparr>cast := Some rawAst, renderCache := Reset (renderCache c)\<rparr>))))"

definition ast_vars :: "'p coord_env \<Rightarrow> ast \<Rightarrow> string \<Rightarrow> string list \<Rightarrow> tr_error + string list" where
  "ast_vars e a sel vs = rbind (Lookup a sel) (\<lambda>w. case w of
       None \<Rightarrow> Inr vs | Some None \<Rightarrow> Inl TPanic | Some (Some n) \<Rightarrow> node_Vars n (varsDefaultProvider e) vs)"

definition observeASTVars :: "'p coord_env \<Rightarrow> 'p ConfigChange \<Rightarrow> 'p Coordinator \<Rightarrow> coord_error option \<times> 'p Coordinator" where
  "observeASTVars e change c =
     (case (case cast c of None \<Rightarrow> Inr [] | Some a \<Rightarrow> rbind (ast_vars e a ''inputs'' []) (ast_vars e a ''outputs'')) of
        Inl er \<Rightarrow> (Some (ObserveFailed er), c)
      | Inr names \<Rightarrow> (case observed change of
            Inl er \<Rightarrow> (Some er, emit (Observe names) c)
          | Inr None \<Rightarrow> (None, emit (Observe names) c)
          | Inr (Some vs) \<Rightarrow> (None, (emit (Observe names) c)\<lparr>cvars := Some vs\<rparr>)))"

text \<open>The log level of a standalone agent and the tags of every agent come from the policy.\<close>

definition apply_settings :: "'p settings \<Rightarrow> 'p Coordinator \<Rightarrow> 'p Coordinator" where
  "apply_settings cfg c =
     (let c1 = c\<lparr>currentCfg := cfg\<rparr>;
          ll = LoggingLevel cfg;
          c2 = (if standalone c1 \<and> ll \<noteq> StateLogLevel (cstateOf c1) then emit (SetLevel ll) (setLogLevel ll c1) else c1);
          tags = NormalizeTags (SettingsTags cfg)
      in if tags \<noteq> Tags (cstateOf c2) then setTags tags c2 else c2)"

definition process_ast :: "'p coord_env \<Rightarrow> gtime \<Rightarrow> 'p ConfigChange \<Rightarrow> 'p Coordinator \<Rightarrow> coord_error option \<times> 'p Coordinator" where
  "process_ast e now change c = (case observeASTVars e change c of
       (Some er, c1) \<Rightarrow> (Some er, c1)
     | (None, c1) \<Rightarrow> (case protectionOf change of
           Inl er \<Rightarrow> (Some (ProtectionFailed er), c1)
         | Inr pr \<Rightarrow> (let c2 = c1\<lparr>protection := pr\<rparr> in case newCfg change of
               Inl er \<Rightarrow> (Some (InvalidConfiguration er), c2)
             | Inr cfg \<Rightarrow> refreshComponentModel e now (apply_settings cfg c2))))"

definition processConfig :: "'p coord_env \<Rightarrow> gtime \<Rightarrow> 'p ConfigChange \<Rightarrow> 'p Coordinator \<Rightarrow> coord_error option \<times> 'p Coordinator" where
  "processConfig e now change c = (case injectErr change of
       Some er \<Rightarrow> (Some er, c)
     | None \<Rightarrow> (case (if caps e = None then None else persistedErr change) of
           Some er \<Rightarrow> (Some (PersistedFailed er), c)
         | None \<Rightarrow> (let c1 = c\<lparr>otelCfg := changeOTel change\<rparr> in case changeMap change of
               Inl er \<Rightarrow> (Some (MapFailed er), c1)
             | Inr m \<Rightarrow> (case generateAST change m c1 of (res, c2) \<Rightarrow>
                 let c3 = setConfigError res c2 in
                 if res \<noteq> None then (res, c3) else process_ast e now change c3))))"

definition processConfigChange :: "'p coord_env \<Rightarrow> gtime \<Rightarrow> 'p ConfigChange \<Rightarrow> 'p Coordinator \<Rightarrow> coord_error option \<times> 'p Coordinator" where
  "processConfigChange e now change c = (case processConfig e now change c of
       (Some er, c1) \<Rightarrow> (Some (PolicyChangeFailed er), emit (ChangeFailed er) c1)
     | (None, c1) \<Rightarrow> (map_option AckFailed (ackErr change), emit ChangeAcked c1))"

definition processVars :: "'p coord_env \<Rightarrow> gtime \<Rightarrow> Vars list option \<Rightarrow> 'p Coordinator \<Rightarrow> 'p Coordinator" where
  "processVars e now vs c = snd (refreshComponentModel e now (c\<lparr>cvars := vs\<rparr>))"

definition processLogLevel :: "'p coord_env \<Rightarrow> gtime \<Rightarrow> int \<Rightarrow> 'p Coordinator \<Rightarrow> 'p Coordinator" where
  "processLogLevel e now ll c = (if StateLogLevel (cstateOf c) \<noteq> ll then snd (refreshComponentModel e now (setLogLevel ll c)) else c)"

section \<open>The loop\<close>

datatype 'p coord_event =
    ContextDone
  | RuntimeManagerError "coord_error option"
  | ConfigManagerError "coord_error option"
  | ActionsError "coord_error option"
  | VarsManagerError "coord_error option"
  | OTelManagerError "coord_error option"
  | OverrideState "coordinatorOverrideState option"
  | UpgradeDetailsSet "unit Details option"
  | Heartbeat
  | PIDTick
  | ComponentReport "'p ComponentComponentState"
  | ConfigUpdate "'p ConfigChange"
  | VarsUpdate "Vars list option"
  | CollectorStatus "AggregateStatus option"
  | LogLevelSet int
  | UpgradeMarker "unit Details option"

definition config_error :: "'p coord_env \<Rightarrow> coord_error option \<Rightarrow> 'p Coordinator \<Rightarrow> 'p Coordinator" where
  "config_error e err c = (if isManaged c then (case err of
         None \<Rightarrow> setFleetState Healthy ''Connected'' c
       | Some er \<Rightarrow> (case asWarning e er of
             Some w \<Rightarrow> setFleetState Degraded w c
           | None \<Rightarrow> setFleetState Failed (errorText e er) c))
     else setConfigManagerError err c)"

text \<open>\<open>now\<close> is the clock and \<open>cancelled\<close> tells whether the context was cancelled while the event is handled.\<close>

definition handle_event :: "'p coord_env \<Rightarrow> gtime \<Rightarrow> bool \<Rightarrow> 'p coord_event \<Rightarrow> 'p Coordinator \<Rightarrow> 'p Coordinator" where
  "handle_event e now cancelled ev c = (case ev of
       ContextDone \<Rightarrow> c
     | RuntimeManagerError err \<Rightarrow> (let c1 = setRuntimeUpdateError err c in
         if err = None then setCoordinatorState Healthy ''Running'' c1 else c1)
     | ConfigManagerError err \<Rightarrow> config_error e err c
     | ActionsError err \<Rightarrow> setConfigManagerActionsError err c
     | VarsManagerError err \<Rightarrow> setVarsManagerError err c
     | OTelManagerError err \<Rightarrow> setOTelError err c
     | OverrideState ov \<Rightarrow> setOverrideState ov c
     | UpgradeDetailsSet d \<Rightarrow> setUpgradeDetails d c
     | Heartbeat \<Rightarrow> c
     | PIDTick \<Rightarrow> if componentPidRequiresUpdate c
         then snd (refreshComponentModel e now (c\<lparr>componentPidRequiresUpdate := False\<rparr>)) else c
     | ComponentReport s \<Rightarrow> applyComponentState e now s c
     | ConfigUpdate change \<Rightarrow> (case processConfigChange e now change c of
         (err, c1) \<Rightarrow> if isManaged c1 then setConfigManagerActionsError err c1 else c1)
     | VarsUpdate vs \<Rightarrow> if cancelled then c else processVars e now vs c
     | CollectorStatus st \<Rightarrow> (upd_state (\<lambda>s. s\<lparr>Collector := st\<rparr>) c)\<lparr>stateNeedsRefresh := True\<rparr>
     | LogLevelSet ll \<Rightarrow> if cancelled then c else processLogLevel e now ll c
     | UpgradeMarker d \<Rightarrow> if cancelled then c else setUpgradeDetails d c)"

definition force_expired :: "gtime \<Rightarrow> 'p Coordinator \<Rightarrow> 'p Coordinator" where
  "force_expired later c = (if expired later (pendingTransitions c) then forceApplyPendingTransitions later c else c)"

definition broadcast_changes :: "'p coord_env \<Rightarrow> 'p Coordinator \<Rightarrow> 'p Coordinator" where
  "broadcast_changes e c = (if stateNeedsRefresh c then refreshState e c else c)"

definition runLoopIteration :: "'p coord_env \<Rightarrow> gtime \<Rightarrow> gtime \<Rightarrow> bool \<Rightarrow> 'p coord_event \<Rightarrow> 'p Coordinator \<Rightarrow> 'p Coordinator" where
  "runLoopIteration e now later cancelled ev c = (if ev = ContextDone then c
     else broadcast_changes e (force_expired later (handle_event e now cancelled ev c)))"

definition New :: "bool \<Rightarrow> bool \<Rightarrow> int \<Rightarrow> string list \<Rightarrow> 'p settings \<Rightarrow> unit Details option \<Rightarrow> 'p Coordinator" where
  "New managed alone ll tags cfg details =
     (let st = \<lparr>AggState = Starting, AggMessage = ''Starting'', CoordinatorState = Starting, CoordinatorMessage = [],
            FleetState = (if managed then Starting else Stopped), FleetMessage = (if managed then [] else ''Not enrolled into Fleet''),
            Components = [], StateLogLevel = ll, Tags = tags, Collector = None, UpgradeDetails = details, PolicyApplied = False,
            PolicyConfiguredActionTypes = []\<rparr>
      in \<lparr>isManaged = managed, standalone = alone, agentTags = tags, currentCfg = cfg, otelCfg = None, cstateOf = st,
          stateNeedsRefresh = False, overrideState = None, configMgrErr = None, actionsErr = None, varsMgrErr = None, configErr = None,
          componentModelErr = None, runtimeUpdateErr = None, otelErr = None, cast = None, cvars = None, derivedConfig = [],
          renderCache = NewRenderCache, componentModel = [], pendingTransitions = no_transitions, queuedModel = None,
          protection = None, componentPidRequiresUpdate = False, sent = [Broadcast st]\<rparr>)"

section \<open>Shutdown\<close>

definition minManagerShutdownTimeout :: duration where "minManagerShutdownTimeout = 5 * second_ns"

definition managerShutdownTimeoutForComponents :: "'p model_component list \<Rightarrow> duration" where
  "managerShutdownTimeoutForComponents comps =
     (let maxTimeout = foldl (\<lambda>mx cm. case Command (InputSpecOf (CompInputSpec cm)) of
            None \<Rightarrow> mx
          | Some cmd \<Rightarrow> max mx (Stop (Timeouts cmd))) 0 comps
      in if maxTimeout \<le> 0 then minManagerShutdownTimeout
         else let timeout = wrap64 (maxTimeout + ShutdownBuffer) in
           if timeout > ProcessStopTimeout then ProcessStopTimeout else timeout)"

end
