(* ===== verification/Coordinator_Props.thy ===== *)
theory Coordinator_Props
  imports Coordinator
begin

text \<open>
  Runs of the coordinator: its subscribers always have the current state, the managers get the latest model, the shutdown
  is bounded.
\<close>

section \<open>Runs\<close>

text \<open>The coordinators that a new one reaches on events of a kind.\<close>

inductive coord_run :: "'p coord_env \<Rightarrow> ('p coord_event \<Rightarrow> bool) \<Rightarrow> 'p Coordinator \<Rightarrow> bool" for e P where
  start: "coord_run e P (New managed alone ll tags cfg details)"
| iterate: "coord_run e P c \<Longrightarrow> P ev \<Longrightarrow> coord_run e P (runLoopIteration e now later cancelled ev c)"

lemmas setter_defs =
  setRuntimeUpdateError_def setOTelError_def setConfigManagerError_def setConfigManagerActionsError_def setVarsManagerError_def
  setConfigError_def setComponentModelError_def setOverrideState_def setUpgradeDetails_def setCoordinatorState_def
  setFleetState_def setLogLevel_def setTags_def

section \<open>Subscribers\<close>

fun broadcasts :: "'p coord_effect list \<Rightarrow> 'p State list" where
  "broadcasts [] = []"
| "broadcasts (Broadcast s # es) = s # broadcasts es"
| "broadcasts (x # es) = broadcasts es"

lemma broadcasts_append [simp]: "broadcasts (es @ fs) = broadcasts es @ broadcasts fs"
  by (induction es rule: broadcasts.induct) auto

text \<open>What the reported state is made of, and what was broadcast.\<close>

definition shown where
  "shown (c :: 'p Coordinator) = (cstateOf c, (overrideState c, configErr c, componentModelErr c, runtimeUpdateErr c, otelErr c, configMgrErr c, actionsErr c,
     varsMgrErr c), stateNeedsRefresh c, broadcasts (sent c))"

lemma report_cong:
  assumes "fst (snd (shown c')) = fst (snd (shown c))"
  shows "report e c' s = report e c s"
  using assms by (simp add: shown_def report_def cong: option.case_cong)

lemma shown_fields:
  assumes "shown c' = shown c"
  shows "generateReportableState e c' = generateReportableState e c" "stateNeedsRefresh c' = stateNeedsRefresh c"
    "broadcasts (sent c') = broadcasts (sent c)" "cstateOf c' = cstateOf c"
proof -
  show "generateReportableState e c' = generateReportableState e c"
    using report_cong[of c' c e] assms by (simp add: generateReportableState_def) (simp add: shown_def)
qed (use assms in \<open>simp_all add: shown_def\<close>)

named_theorems shown_simps

lemma shown_updates [shown_simps]:
  "shown (c\<lparr>currentCfg := a1\<rparr>) = shown c" "shown (c\<lparr>otelCfg := a2\<rparr>) = shown c" "shown (c\<lparr>cast := a3\<rparr>) = shown c"
  "shown (c\<lparr>cvars := a4\<rparr>) = shown c" "shown (c\<lparr>derivedConfig := a5\<rparr>) = shown c" "shown (c\<lparr>renderCache := a6\<rparr>) = shown c"
  "shown (c\<lparr>componentModel := a7\<rparr>) = shown c" "shown (c\<lparr>pendingTransitions := a8\<rparr>) = shown c" "shown (c\<lparr>queuedModel := a9\<rparr>) = shown c"
  "shown (c\<lparr>protection := a10\<rparr>) = shown c" "shown (c\<lparr>componentPidRequiresUpdate := a11\<rparr>) = shown c"
  by (simp_all add: shown_def)

lemma shown_emit [shown_simps]:
  "shown (emit (RuntimeUpdate m) c) = shown c" "shown (emit (OTelUpdate o1 mc ll cs) c) = shown c" "shown (emit (RemoveWorkDir i) c) = shown c"
  "shown (emit (SetLevel ll) c) = shown c" "shown (emit (Observe ns) c) = shown c" "shown (emit (ChangeFailed er) c) = shown c"
  "shown (emit ChangeAcked c) = shown c"
  by (simp_all add: shown_def emit_def)

lemma shown_managers [shown_simps]: "shown (runtimeMgr_Update m c) = shown c" "shown (applyOTelUpdate cs c) = shown c"
  by (simp_all add: runtimeMgr_Update_def applyOTelUpdate_def shown_simps)

lemma shown_update [shown_simps]: "shown (updateManagersWithConfig now m c) = shown c"
  by (simp add: updateManagersWithConfig_def Let_def shown_simps)

lemma shown_take_queued [shown_simps]: "shown (take_queued now c) = shown c"
  by (simp add: take_queued_def shown_simps split: option.split)

lemma shown_force [shown_simps]: "shown (forceApplyPendingTransitions now c) = shown c"
  by (auto simp: forceApplyPendingTransitions_def Let_def shown_simps split: option.split)

text \<open>A view of the coordinator that the updates of the managers keep is kept by the check of the pending updates.\<close>

lemma checkAndApply_view:
  assumes "checkAndApplyPending g w i c = (w', c')" "\<And>m d. f (g m d) = f d"
  shows "f c' = f c"
  using assms by (auto simp: checkAndApplyPending_def Let_def split: option.splits if_splits)

lemma checkPending_view:
  fixes c :: "'p Coordinator"
  assumes f: "\<And>m d. f (applyOTelUpdate m d) = f d" "\<And>m d. f (runtimeMgr_Update m d) = f d" "\<And>p d. f (d\<lparr>pendingTransitions := p\<rparr>) = f d"
    "\<And>d. f (take_queued now d) = f d"
  shows "f (checkPendingManagerUpdate now i c) = f c"
proof -
  obtain w1 c1 where c1: "checkAndApplyPending applyOTelUpdate (toOTel (pendingTransitions c)) i c = (w1, c1)" by fastforce
  obtain w2 c2 where c2: "checkAndApplyPending runtimeMgr_Update (toProcess (pendingTransitions c1)) i
      (c1\<lparr>pendingTransitions := (pendingTransitions c1)\<lparr>toOTel := w1\<rparr>\<rparr>) = (w2, c2)" by fastforce
  have "f c2 = f c"
    using checkAndApply_view[where f = f, OF c1, OF f(1)] checkAndApply_view[where f = f, OF c2, OF f(2)] by (simp only: f(3))
  then show ?thesis
    unfolding checkPendingManagerUpdate_def c1 c2 Let_def prod.case by (simp only: f split: if_split) blast
qed

lemma shown_checkPending [shown_simps]: "shown (checkPendingManagerUpdate now i c) = shown c"
  by (rule checkPending_view) (simp_all add: shown_simps)

text \<open>A step that changes nothing that is shown, or sets the flag.\<close>

definition flagged :: "'p Coordinator \<Rightarrow> 'p Coordinator \<Rightarrow> bool" where
  "flagged c c' \<longleftrightarrow> stateNeedsRefresh c' \<or> shown c' = shown c"

lemma flag_kept: "shown c' = shown c \<Longrightarrow> stateNeedsRefresh c \<Longrightarrow> stateNeedsRefresh c'"
  by (drule shown_fields(2)) simp

lemma flag_set [simp]:
  "stateNeedsRefresh (setComponentModelError er c)" "stateNeedsRefresh (setConfigError er c)" "stateNeedsRefresh (setConfigManagerActionsError er c)"
  "stateNeedsRefresh (setLogLevel ll c)" "stateNeedsRefresh (setTags ts c)" "stateNeedsRefresh (setUpgradeDetails d c)"
  by (simp_all add: setter_defs)

lemma flag_emit [simp]: "stateNeedsRefresh (emit x c) = stateNeedsRefresh c"
  by (simp add: emit_def)

lemma refresh_flagged: "flagged c (snd (refreshComponentModel e now c))"
  by (auto simp: refreshComponentModel_def flagged_def split: option.split sum.split prod.split)

lemma refresh_keeps_flag: "stateNeedsRefresh c \<Longrightarrow> stateNeedsRefresh (snd (refreshComponentModel e now c))"
  by (auto simp: refreshComponentModel_def split: option.split sum.split prod.split)

lemma apply_settings_keeps_flag: "stateNeedsRefresh c \<Longrightarrow> stateNeedsRefresh (apply_settings cfg c)"
  by (simp add: apply_settings_def Let_def)

lemma observe_shown: "observeASTVars e change c = (r, c') \<Longrightarrow> shown c' = shown c"
  by (auto simp: observeASTVars_def shown_simps split: option.splits sum.splits)

lemma process_ast_keeps_flag:
  assumes "stateNeedsRefresh c"
  shows "stateNeedsRefresh (snd (process_ast e now change c))"
proof -
  obtain r c1 where c1: "observeASTVars e change c = (r, c1)" by fastforce
  have "stateNeedsRefresh c1" using flag_kept[OF observe_shown[OF c1]] assms .
  then show ?thesis
    by (auto simp: process_ast_def c1 Let_def intro!: refresh_keeps_flag apply_settings_keeps_flag split: option.split sum.split)
qed

lemma config_change_flagged: "flagged c (snd (processConfigChange e now change c))"
proof -
  have "flagged c (snd (processConfig e now change c))"
    by (auto simp: processConfig_def Let_def flagged_def shown_simps intro!: process_ast_keeps_flag split: option.split sum.split prod.split)
  then show ?thesis
    by (auto simp: processConfigChange_def flagged_def shown_simps split: option.split prod.split)
qed

lemma component_report_flagged: "flagged c (applyComponentState e now s c)"
  by (simp add: applyComponentState_def flagged_def Let_def)

lemma handle_flagged: "flagged c (handle_event e now cancelled ev c)"
proof (cases ev)
  case (ConfigUpdate change)
  then show ?thesis
    using config_change_flagged[of c e now change]
    by (cases "processConfigChange e now change c") (auto simp: handle_event_def flagged_def)
next
  case (VarsUpdate vs)
  then show ?thesis
    using refresh_flagged[of "c\<lparr>cvars := vs\<rparr>" e now] by (auto simp: handle_event_def processVars_def flagged_def shown_simps)
next
  case (LogLevelSet ll)
  then show ?thesis
    using refresh_keeps_flag[of "setLogLevel ll c" e now] by (auto simp: handle_event_def processLogLevel_def flagged_def)
next
  case PIDTick
  then show ?thesis
    using refresh_flagged[of "c\<lparr>componentPidRequiresUpdate := False\<rparr>" e now] by (auto simp: handle_event_def flagged_def shown_simps)
next
  case (ComponentReport s)
  then show ?thesis by (simp add: handle_event_def component_report_flagged)
qed (auto simp: handle_event_def flagged_def setter_defs config_error_def Let_def split: option.split)

text \<open>The last state sent is the one to report; a new coordinator is created with a message of its own.\<close>

definition told :: "'p coord_env \<Rightarrow> 'p Coordinator \<Rightarrow> bool" where
  "told e c \<longleftrightarrow> \<not> stateNeedsRefresh c \<and> broadcasts (sent c) \<noteq> [] \<and>
     (let s = last (broadcasts (sent c)); t = generateReportableState e c
      in s = t \<or> AggMessage s = ''Starting'' \<and> s\<lparr>AggMessage := []\<rparr> = t)"

lemma told_shown:
  assumes "shown c' = shown c" "told e c"
  shows "told e c'"
  using assms(2) unfolding told_def shown_fields[OF assms(1)] .

lemma generate_flag [simp]: "generateReportableState e (c\<lparr>stateNeedsRefresh := b\<rparr>) = generateReportableState e c"
  using report_cong[of "c\<lparr>stateNeedsRefresh := b\<rparr>" c e] by (simp add: generateReportableState_def shown_def)

lemma generate_emit [simp]: "generateReportableState e (emit x c) = generateReportableState e c"
  using report_cong[of "emit x c" c e] by (simp add: generateReportableState_def shown_def emit_def)

lemma told_refresh: "told e (refreshState e c)"
proof -
  have "generateReportableState e (refreshState e c) = generateReportableState e c" by (simp add: refreshState_def)
  moreover have "last (broadcasts (sent (refreshState e c))) = generateReportableState e c" "broadcasts (sent (refreshState e c)) \<noteq> []"
    "\<not> stateNeedsRefresh (refreshState e c)"
    by (simp_all add: refreshState_def emit_def)
  ultimately show ?thesis unfolding told_def Let_def by metis
qed

lemma told_iteration:
  assumes "told e c"
  shows "told e (runLoopIteration e now later cancelled ev c)"
proof -
  let ?h = "handle_event e now cancelled ev c"
  have sh: "shown (force_expired later ?h) = shown ?h" by (simp add: force_expired_def shown_simps)
  have "told e (broadcast_changes e (force_expired later ?h))"
  proof (cases "stateNeedsRefresh (force_expired later ?h)")
    case True
    then show ?thesis by (simp add: broadcast_changes_def told_refresh)
  next
    case False
    then have "\<not> stateNeedsRefresh ?h" using shown_fields(2)[OF sh] by simp
    then have "shown ?h = shown c" using handle_flagged[of c e now cancelled ev] by (simp add: flagged_def)
    then have "shown (force_expired later ?h) = shown c" using sh by simp
    from told_shown[OF this assms] False show ?thesis by (simp add: broadcast_changes_def)
  qed
  with assms show ?thesis by (simp add: runLoopIteration_def)
qed

lemma new_fields [simp]:
  "stateNeedsRefresh (New managed alone ll tags cfg details) = False" "overrideState (New managed alone ll tags cfg details) = None"
  "configErr (New managed alone ll tags cfg details) = None" "componentModelErr (New managed alone ll tags cfg details) = None"
  "runtimeUpdateErr (New managed alone ll tags cfg details) = None" "otelErr (New managed alone ll tags cfg details) = None"
  "configMgrErr (New managed alone ll tags cfg details) = None" "actionsErr (New managed alone ll tags cfg details) = None"
  "varsMgrErr (New managed alone ll tags cfg details) = None" "queuedModel (New managed alone ll tags cfg details) = None"
  "pendingTransitions (New managed alone ll tags cfg details) = no_transitions" "cast (New managed alone ll tags cfg details) = None"
  "Components (cstateOf (New managed alone ll tags cfg details)) = []" "Collector (cstateOf (New managed alone ll tags cfg details)) = None"
  "PolicyApplied (cstateOf (New managed alone ll tags cfg details)) = False"
  "AggMessage (cstateOf (New managed alone ll tags cfg details)) = ''Starting''"
  "CoordinatorMessage (cstateOf (New managed alone ll tags cfg details)) = []"
  "AggState (cstateOf (New managed alone ll tags cfg details)) = CoordinatorState (cstateOf (New managed alone ll tags cfg details))"
  "sent (New managed alone ll tags cfg details) = [Broadcast (cstateOf (New managed alone ll tags cfg details))]"
  "renderCache (New managed alone ll tags cfg details) = NewRenderCache"
  by (simp_all add: New_def Let_def)

lemma told_new: "told e (New managed alone ll tags cfg details)"
proof -
  let ?c = "New managed alone ll tags cfg details"
  let ?s = "cstateOf ?c"
  have "?s\<lparr>Collector := map_option copyOTelStatus (Collector ?s)\<rparr> = ?s" unfolding New_def Let_def by simp
  moreover have "report e ?c ?s = (CoordinatorState ?s, [])"
    by (simp add: report_def hasState_def HasStatus_def)
  moreover have "?s\<lparr>AggState := CoordinatorState ?s, AggMessage := []\<rparr> = ?s\<lparr>AggMessage := []\<rparr>" unfolding New_def Let_def by simp
  ultimately have g: "generateReportableState e ?c = ?s\<lparr>AggMessage := []\<rparr>"
    unfolding generateReportableState_def Let_def by (simp only: fst_conv snd_conv)
  have b: "broadcasts (sent ?c) \<noteq> []" "last (broadcasts (sent ?c)) = ?s" "AggMessage ?s = ''Starting''" "\<not> stateNeedsRefresh ?c"
    by simp_all
  have "AggMessage (last (broadcasts (sent ?c))) = ''Starting''
      \<and> (last (broadcasts (sent ?c)))\<lparr>AggMessage := []\<rparr> = generateReportableState e ?c"
    unfolding b(2) g by (intro conjI b(3) refl)
  with b(1,4) show ?thesis unfolding told_def Let_def by blast
qed


section \<open>The latest model\<close>

fun runtime_models :: "'p coord_effect list \<Rightarrow> 'p model_component list list" where
  "runtime_models [] = []"
| "runtime_models (RuntimeUpdate m # es) = ModelComponents m # runtime_models es"
| "runtime_models (x # es) = runtime_models es"

fun otel_models :: "'p coord_effect list \<Rightarrow> 'p model_component list list" where
  "otel_models [] = []"
| "otel_models (OTelUpdate oc mc ll cs # es) = cs # otel_models es"
| "otel_models (x # es) = otel_models es"

lemma models_append [simp]:
  "runtime_models (es @ fs) = runtime_models es @ runtime_models fs" "otel_models (es @ fs) = otel_models es @ otel_models fs"
  by (induction es rule: runtime_models.induct) auto

abbreviation on_manager :: "RuntimeManager \<Rightarrow> 'p model_component list \<Rightarrow> 'p model_component list" where
  "on_manager m cs \<equiv> filter (\<lambda>cm. CompRuntimeManager cm = m) cs"

definition has_last :: "'a list \<Rightarrow> 'a \<Rightarrow> bool" where
  "has_last xs x \<longleftrightarrow> xs \<noteq> [] \<and> last xs = x"

lemma has_last_append [simp]: "has_last (xs @ [y]) x \<longleftrightarrow> y = x" "has_last [y] x \<longleftrightarrow> y = x" "\<not> has_last [] x"
  by (auto simp: has_last_def)

text \<open>The managers last got their parts of a list of components, or will once what they wait for has stopped.\<close>

definition owed :: "'p model_component list \<Rightarrow> 'p Coordinator \<Rightarrow> bool" where
  "owed cs c \<longleftrightarrow> (case toOTel (pendingTransitions c) of
       Some p \<Rightarrow> deferred p = on_manager OtelRuntimeManager cs
     | None \<Rightarrow> has_last (otel_models (sent c)) (on_manager OtelRuntimeManager cs))
   \<and> (case toProcess (pendingTransitions c) of
       Some p \<Rightarrow> ModelComponents (deferred p) = on_manager ProcessRuntimeManager cs
     | None \<Rightarrow> has_last (runtime_models (sent c)) (on_manager ProcessRuntimeManager cs))"

definition promised :: "'p model_component list \<Rightarrow> 'p Coordinator \<Rightarrow> bool" where
  "promised cs c \<longleftrightarrow> (case queuedModel c of Some m \<Rightarrow> ModelComponents m = cs | None \<Rightarrow> owed cs c)"

definition queue_ok :: "'p Coordinator \<Rightarrow> bool" where
  "queue_ok c \<longleftrightarrow> (queuedModel c \<noteq> None \<longrightarrow> active (pendingTransitions c))"

lemmas manager_defs = runtimeMgr_Update_def applyOTelUpdate_def emit_def

text \<open>What an update does when no transition is pending.\<close>

abbreviation known_on :: "'p Coordinator \<Rightarrow> RuntimeManager \<Rightarrow> 'p model_component list \<Rightarrow> 'p model_component list" where
  "known_on c m cs \<equiv> filter (\<lambda>cm. currentRuntime c (CompID cm) = m) cs"

abbreviation not_known_on :: "'p Coordinator \<Rightarrow> RuntimeManager \<Rightarrow> 'p model_component list \<Rightarrow> 'p model_component list" where
  "not_known_on c m cs \<equiv> filter (\<lambda>cm. currentRuntime c (CompID cm) \<noteq> m) cs"

definition deferral :: "'m \<Rightarrow> 'p model_component list \<Rightarrow> 'm pendingManagerUpdate option" where
  "deferral x cs = (if cs = [] then None else Some \<lparr>deferred = x, waiting = remdups (map CompID cs)\<rparr>)"

lemma update_active: "active (pendingTransitions c) \<Longrightarrow> updateManagersWithConfig now m c = c\<lparr>queuedModel := Some m\<rparr>"
  by (simp add: updateManagersWithConfig_def)

lemma update_idle:
  assumes "\<not> active (pendingTransitions c)"
  shows "sent (updateManagersWithConfig now m c) = sent c @
      [RuntimeUpdate \<lparr>ModelComponents = not_known_on c OtelRuntimeManager (on_manager ProcessRuntimeManager (ModelComponents m)), Signed = Signed m\<rparr>,
       OTelUpdate (otelCfg c) (MonitoringConfig (currentCfg c)) (StateLogLevel (cstateOf c))
         (not_known_on c ProcessRuntimeManager (on_manager OtelRuntimeManager (ModelComponents m)))]"
    and "toOTel (pendingTransitions (updateManagersWithConfig now m c)) =
      deferral (on_manager OtelRuntimeManager (ModelComponents m)) (known_on c ProcessRuntimeManager (on_manager OtelRuntimeManager (ModelComponents m)))"
    and "toProcess (pendingTransitions (updateManagersWithConfig now m c)) =
      deferral (fst (splitModelBetweenManagers m)) (known_on c OtelRuntimeManager (on_manager ProcessRuntimeManager (ModelComponents m)))"
  using assms by (simp_all add: updateManagersWithConfig_def manager_defs Let_def detectRuntimeTransitions_def splitModelBetweenManagers_def
      deferral_def active_def del: filter_filter)

lemma not_known_all: "known_on c m cs = [] \<Longrightarrow> not_known_on c m cs = cs"
  by (induction cs) (auto split: if_splits)

lemma update_owed:
  assumes "\<not> active (pendingTransitions c)"
  shows "owed (ModelComponents m) (updateManagersWithConfig now m c)"
  using assms by (simp add: owed_def update_idle deferral_def not_known_all splitModelBetweenManagers_def del: filter_filter)

lemma update_queued [simp]:
  "queuedModel (updateManagersWithConfig now m c) = (if active (pendingTransitions c) then Some m else queuedModel c)"
  by (simp add: updateManagersWithConfig_def manager_defs Let_def)

lemma update_promised:
  assumes "queue_ok c"
  shows "promised (ModelComponents m) (updateManagersWithConfig now m c)" "queue_ok (updateManagersWithConfig now m c)"
  using assms update_owed[of c m now] by (auto simp: promised_def queue_ok_def update_active)

lemma take_queued_promised:
  assumes "promised cs c" "\<not> active (pendingTransitions c)"
  shows "promised cs (take_queued now c)" "queuedModel (take_queued now c) = None"
proof -
  have "promised cs (take_queued now c) \<and> queuedModel (take_queued now c) = None"
  proof (cases "queuedModel c")
    case None
    then show ?thesis using assms by (simp add: take_queued_def)
  next
    case (Some m)
    have "queue_ok (c\<lparr>queuedModel := None\<rparr>)" by (simp add: queue_ok_def)
    from update_promised(1)[OF this, of m now] Some assms show ?thesis
      by (simp add: take_queued_def promised_def)
  qed
  then show "promised cs (take_queued now c)" "queuedModel (take_queued now c) = None" by simp_all
qed

lemma force_promised:
  assumes "promised cs c"
  shows "promised cs (forceApplyPendingTransitions now c)" "queuedModel (forceApplyPendingTransitions now c) = None"
proof -
  define d where "d = (let c1 = (case toOTel (pendingTransitions c) of None \<Rightarrow> c | Some p \<Rightarrow> applyOTelUpdate (deferred p) c)
     in (case toProcess (pendingTransitions c1) of None \<Rightarrow> c1 | Some p \<Rightarrow> runtimeMgr_Update (deferred p) c1))\<lparr>pendingTransitions := no_transitions\<rparr>"
  have d: "forceApplyPendingTransitions now c = take_queued now d"
    by (simp add: forceApplyPendingTransitions_def d_def Let_def)
  have "queuedModel d = queuedModel c" by (auto simp: d_def Let_def manager_defs split: option.split)
  moreover have "owed cs d" if "owed cs c"
    using that by (auto simp: owed_def d_def no_transitions_def Let_def manager_defs split: option.splits)
  ultimately have "promised cs d" using assms by (auto simp: promised_def split: option.splits)
  moreover have "\<not> active (pendingTransitions d)" by (simp add: d_def active_def no_transitions_def Let_def)
  ultimately show "promised cs (forceApplyPendingTransitions now c)" "queuedModel (forceApplyPendingTransitions now c) = None"
    unfolding d by (rule take_queued_promised)+
qed

lemma force_ends:
  assumes "queuedModel c = None"
  shows "\<not> active (pendingTransitions (forceApplyPendingTransitions now c))"
  using assms by (auto simp: forceApplyPendingTransitions_def take_queued_def active_def no_transitions_def Let_def manager_defs split: option.split)

lemma componentModel_kept [simp]:
  "componentModel (updateManagersWithConfig now m c) = componentModel c" "componentModel (take_queued now c) = componentModel c"
  "componentModel (forceApplyPendingTransitions now c) = componentModel c" "componentModel (checkPendingManagerUpdate now i c) = componentModel c"
  for c :: "'p Coordinator"
proof -
  show u: "componentModel (updateManagersWithConfig now m c) = componentModel c" for now m and c :: "'p Coordinator"
    by (simp add: updateManagersWithConfig_def manager_defs Let_def)
  show t: "componentModel (take_queued now c) = componentModel c" for c :: "'p Coordinator"
    by (simp add: take_queued_def u split: option.split)
  show "componentModel (forceApplyPendingTransitions now c) = componentModel c"
    by (auto simp: forceApplyPendingTransitions_def t Let_def manager_defs split: option.split)
  show "componentModel (checkPendingManagerUpdate now i c) = componentModel c"
    by (rule checkPending_view) (simp_all add: t manager_defs)
qed

lemma take_queued_idle:
  assumes "\<not> active (pendingTransitions c)"
  shows "queuedModel (take_queued now c) = None"
  using assms by (simp add: take_queued_def split: option.split)

lemma force_queued: "queuedModel (forceApplyPendingTransitions now c) = None"
  unfolding forceApplyPendingTransitions_def Let_def by (rule take_queued_idle) (simp add: active_def no_transitions_def)

lemma check_queue_ok: "queue_ok c \<Longrightarrow> queue_ok (checkPendingManagerUpdate now i c)"
  by (auto simp: checkPendingManagerUpdate_def queue_ok_def Let_def take_queued_idle active_def no_transitions_def split: prod.split)

lemma check_promised:
  assumes "promised cs c" "queue_ok c"
  shows "promised cs (checkPendingManagerUpdate now i c)"
proof -
  obtain w1 c1 where c1: "checkAndApplyPending applyOTelUpdate (toOTel (pendingTransitions c)) i c = (w1, c1)" by fastforce
  let ?c1 = "c1\<lparr>pendingTransitions := (pendingTransitions c1)\<lparr>toOTel := w1\<rparr>\<rparr>"
  obtain w2 c2 where c2: "checkAndApplyPending runtimeMgr_Update (toProcess (pendingTransitions c1)) i ?c1 = (w2, c2)" by fastforce
  let ?c3 = "c2\<lparr>pendingTransitions := (pendingTransitions c2)\<lparr>toProcess := w2\<rparr>\<rparr>"
  have q: "queuedModel ?c1 = queuedModel c" "queuedModel ?c3 = queuedModel ?c1"
    using c1 c2 by (auto simp: checkAndApplyPending_def manager_defs Let_def split: option.splits if_splits)
  have o1: "owed cs c \<Longrightarrow> owed cs ?c1"
    using c1 by (auto simp: owed_def checkAndApplyPending_def manager_defs Let_def split: option.splits if_splits)
  have o3: "owed cs ?c1 \<Longrightarrow> owed cs ?c3"
    using c2 by (auto simp: owed_def checkAndApplyPending_def manager_defs Let_def split: option.splits if_splits)
  have p3: "promised cs ?c3" using assms(1) q o1 o3 by (auto simp: promised_def split: option.splits)
  have r: "checkPendingManagerUpdate now i c = (if \<not> active (pendingTransitions ?c3) \<and> queuedModel ?c3 \<noteq> None
      then take_queued now (?c3\<lparr>pendingTransitions := no_transitions\<rparr>) else ?c3)"
    by (simp add: checkPendingManagerUpdate_def c1 c2 Let_def)
  have "promised cs (?c3\<lparr>pendingTransitions := no_transitions\<rparr>)" if "queuedModel ?c3 \<noteq> None"
    using p3 that by (auto simp: promised_def)
  from take_queued_promised(1)[OF this] p3 show ?thesis
    unfolding r by (auto simp: active_def no_transitions_def split: if_splits)
qed

definition deliveries :: "'p Coordinator \<Rightarrow> bool" where
  "deliveries c \<longleftrightarrow> queue_ok c \<and> (PolicyApplied (cstateOf c) \<and> componentModelErr c = None \<longrightarrow> promised (componentModel c) c)"

text \<open>What deliveries depend on.\<close>

definition sent_models where
  "sent_models (c :: 'p Coordinator) = (pendingTransitions c, queuedModel c, runtime_models (sent c), otel_models (sent c))"

lemma sent_models_cong:
  assumes "sent_models c' = sent_models c"
  shows "queue_ok c' = queue_ok c" "promised cs c' = promised cs c"
  using assms by (auto simp: sent_models_def queue_ok_def promised_def owed_def split: option.splits)

lemma deliveries_cong:
  assumes "sent_models c' = sent_models c" "componentModel c' = componentModel c" "componentModelErr c' = componentModelErr c"
    "PolicyApplied (cstateOf c') = PolicyApplied (cstateOf c)"
  shows "deliveries c' = deliveries c"
  using assms by (simp add: deliveries_def sent_models_cong[OF assms(1)])

lemma generate_kept: "sent_models (snd (generateComponentModel e a vs c)) = sent_models c"
  by (auto simp: generateComponentModel_def sent_models_def Let_def split: sum.split)

lemma prepare_kept:
  assumes "prepare_model e a vs c = (r, c1)"
  shows "sent_models c1 = sent_models c" "r = Inr m \<Longrightarrow> ModelComponents m = componentModel c1"
proof -
  obtain w c' where g: "generateComponentModel e a vs c = (w, c')" by fastforce
  then have "sent_models c' = sent_models c" using generate_kept[of e a vs c] by simp
  with assms show "sent_models c1 = sent_models c" "r = Inr m \<Longrightarrow> ModelComponents m = componentModel c1"
    by (auto simp: prepare_model_def g split: option.splits)
qed

lemma refresh_deliveries:
  fixes c :: "'p Coordinator"
  assumes "deliveries c"
  shows "deliveries (snd (refreshComponentModel e now c))"
proof (cases "\<exists>a vs. cast c = Some a \<and> cvars c = Some vs")
  case True
  then obtain a vs where av: "cast c = Some a" "cvars c = Some vs" by blast
  obtain r c1 where c1: "prepare_model e a vs c = (r, c1)" by fastforce
  have q: "queue_ok c1" using assms sent_models_cong(1)[OF prepare_kept(1)[OF c1]] by (simp add: deliveries_def)
  show ?thesis
  proof (cases r)
    case (Inl er)
    with q show ?thesis by (simp add: refreshComponentModel_def av c1 deliveries_def setComponentModelError_def queue_ok_def)
  next
    case (Inr m)
    let ?d = "upd_state (\<lambda>s. s\<lparr>PolicyConfiguredActionTypes := policyConfiguredActionTypes (componentModel c1), PolicyApplied := True\<rparr>) c1"
    have "queue_ok ?d" using q by (simp add: queue_ok_def)
    note u = update_promised(1)[OF this, of m now] update_promised(2)[OF this, of now m]
    have sm: "sent_models (setComponentModelError er x) = sent_models x" for x :: "'p Coordinator" and er
      by (simp add: sent_models_def setComponentModelError_def)
    have "componentModel (setComponentModelError er x) = componentModel x" for x :: "'p Coordinator" and er
      by (simp add: setComponentModelError_def)
    with u prepare_kept(2)[OF c1 Inr] show ?thesis
      by (simp add: refreshComponentModel_def av c1 Inr deliveries_def sent_models_cong[OF sm])
  qed
next
  case False
  then have "snd (refreshComponentModel e now c) = c" by (auto simp: refreshComponentModel_def split: option.split)
  with assms show ?thesis by simp
qed

lemma refreshState_deliveries [simp]: "deliveries (refreshState e c) = deliveries c"
  by (rule deliveries_cong) (simp_all add: refreshState_def emit_def sent_models_def)

lemma check_deliveries:
  assumes "deliveries c"
  shows "deliveries (checkPendingManagerUpdate now i c)"
proof -
  have sh: "shown (checkPendingManagerUpdate now i c) = shown c" by (rule shown_checkPending)
  then have "componentModelErr (checkPendingManagerUpdate now i c) = componentModelErr c" by (simp add: shown_def)
  with shown_fields(4)[OF sh] assms show ?thesis
    using check_promised[of "componentModel c" c now i] check_queue_ok by (auto simp: deliveries_def)
qed

lemma force_deliveries:
  assumes "deliveries c"
  shows "deliveries (forceApplyPendingTransitions now c)"
proof -
  have sh: "shown (forceApplyPendingTransitions now c) = shown c" by (rule shown_force)
  then have "componentModelErr (forceApplyPendingTransitions now c) = componentModelErr c" by (simp add: shown_def)
  with shown_fields(4)[OF sh] assms show ?thesis
    using force_promised[of "componentModel c" c now] force_queued[of now c] by (auto simp: deliveries_def queue_ok_def)
qed

lemma report_deliveries:
  fixes c :: "'p Coordinator"
  assumes "deliveries c"
  shows "deliveries (applyComponentState e now s c)"
proof -
  have m: "deliveries (merge_state s c)"
    using assms by (subst deliveries_cong[of _ c]) (simp_all add: merge_state_def sent_models_def)
  then have "deliveries (refreshState e (merge_state s c))" by simp
  moreover define d where "d = upd_state (\<lambda>st. st\<lparr>Components := remove_state (cc_id s) (Components st)\<rparr>) (refreshState e (merge_state s c))"
  ultimately have "deliveries d" by (subst deliveries_cong[of _ "refreshState e (merge_state s c)"]) (simp_all add: sent_models_def)
  then have "deliveries (if list_ex (\<lambda>cm. CompID cm = cc_id s) (componentModel d) then d else emit (RemoveWorkDir (cc_id s)) d)"
    using deliveries_cong[of "emit (RemoveWorkDir (cc_id s)) d" d] by (simp add: sent_models_def emit_def)
  from check_deliveries[OF this] have "deliveries (stopped_component e now (cc_id s) (merge_state s c))"
    unfolding stopped_component_def Let_def d_def[symmetric] .
  moreover have "deliveries (x\<lparr>stateNeedsRefresh := True\<rparr>) = deliveries x" for x :: "'p Coordinator"
    by (rule deliveries_cong) (simp_all add: sent_models_def)
  ultimately show ?thesis using assms m by (simp add: applyComponentState_def Let_def)
qed

lemma process_ast_deliveries:
  fixes c :: "'p Coordinator"
  assumes "deliveries c"
  shows "deliveries (snd (process_ast e now change c))"
proof -
  obtain r c1 where c1: "observeASTVars e change c = (r, c1)" by fastforce
  have "deliveries c1"
    using c1 assms by (subst deliveries_cong[of _ c])
      (auto simp: observeASTVars_def emit_def sent_models_def split: option.splits sum.splits)
  moreover have "deliveries (x\<lparr>protection := pr\<rparr>) = deliveries x" for x :: "'p Coordinator" and pr
    by (rule deliveries_cong) (simp_all add: sent_models_def)
  moreover have "deliveries (apply_settings cfg x) = deliveries x" for x :: "'p Coordinator" and cfg
    by (rule deliveries_cong) (simp_all add: sent_models_def apply_settings_def setLogLevel_def setTags_def emit_def Let_def)
  ultimately show ?thesis
    by (auto simp: process_ast_def c1 Let_def refresh_deliveries split: option.split sum.split)
qed

lemma config_change_deliveries:
  fixes c :: "'p Coordinator"
  assumes "deliveries c"
  shows "deliveries (snd (processConfigChange e now change c))"
proof -
  have cong: "deliveries (setConfigError er x) = deliveries x" "deliveries (x\<lparr>otelCfg := oc\<rparr>) = deliveries x"
    "deliveries (x\<lparr>cast := a, renderCache := rc\<rparr>) = deliveries x" "deliveries (emit ChangeAcked x) = deliveries x"
    "deliveries (emit (ChangeFailed f) x) = deliveries x" for x :: "'p Coordinator" and er oc a rc f
    by (rule deliveries_cong; simp add: sent_models_def setConfigError_def emit_def)+
  have "deliveries (snd (generateAST change m (c\<lparr>otelCfg := changeOTel change\<rparr>)))" for m
    using assms by (auto simp: generateAST_def cong split: sum.splits option.splits)
  then have "deliveries (snd (processConfig e now change c))"
    using assms by (auto simp: processConfig_def Let_def cong case_prod_unfold intro!: process_ast_deliveries split: option.split sum.split)
  then show ?thesis
    by (auto simp: processConfigChange_def cong split: option.split prod.splits)
qed

lemma handle_deliveries:
  fixes c :: "'p Coordinator"
  assumes "deliveries c"
  shows "deliveries (handle_event e now cancelled ev c)"
proof -
  have keep: "deliveries x" if "sent_models x = sent_models c" "componentModel x = componentModel c"
    "componentModelErr x = componentModelErr c" "PolicyApplied (cstateOf x) = PolicyApplied (cstateOf c)" for x :: "'p Coordinator"
    using deliveries_cong[OF that] assms by simp
  show ?thesis
proof (cases ev)
  case (ConfigUpdate change)
  have "deliveries (setConfigManagerActionsError er x) = deliveries x" for er and x :: "'p Coordinator"
    by (rule deliveries_cong) (simp_all add: sent_models_def setConfigManagerActionsError_def)
  with ConfigUpdate config_change_deliveries[OF assms, of e now change] show ?thesis
    by (cases "processConfigChange e now change c") (simp add: handle_event_def)
next
  case (VarsUpdate vs)
  have "deliveries (c\<lparr>cvars := vs\<rparr>)" using assms by (subst deliveries_cong[of _ c]) (simp_all add: sent_models_def)
  with VarsUpdate assms show ?thesis by (simp add: handle_event_def processVars_def refresh_deliveries)
next
  case (LogLevelSet ll)
  have "deliveries (setLogLevel ll c)" using assms by (subst deliveries_cong[of _ c]) (simp_all add: sent_models_def setLogLevel_def)
  with LogLevelSet assms show ?thesis by (simp add: handle_event_def processLogLevel_def refresh_deliveries)
next
  case PIDTick
  have "deliveries (c\<lparr>componentPidRequiresUpdate := False\<rparr>)" using assms by (subst deliveries_cong[of _ c]) (simp_all add: sent_models_def)
  with PIDTick assms show ?thesis by (simp add: handle_event_def refresh_deliveries)
next
  case (ComponentReport s)
  with assms show ?thesis by (simp add: handle_event_def report_deliveries)
qed (auto simp: handle_event_def setter_defs config_error_def Let_def sent_models_def intro!: keep split: option.split)
qed

lemma iteration_deliveries:
  assumes "deliveries c"
  shows "deliveries (runLoopIteration e now later cancelled ev c)"
proof -
  have "deliveries (force_expired later (handle_event e now cancelled ev c))"
    using force_deliveries[OF handle_deliveries[OF assms]] handle_deliveries[OF assms] by (simp add: force_expired_def)
  with assms show ?thesis by (simp add: runLoopIteration_def broadcast_changes_def)
qed

lemma run_deliveries: "coord_run e P c \<Longrightarrow> deliveries c"
proof (induction rule: coord_run.induct)
  case (start managed alone ll tags cfg details)
  show ?case by (simp add: deliveries_def queue_ok_def)
qed (rule iteration_deliveries)

text \<open>Both managers last got their part of the current component model.\<close>

definition delivered :: "'p Coordinator \<Rightarrow> bool" where
  "delivered c \<longleftrightarrow> has_last (runtime_models (sent c)) (on_manager ProcessRuntimeManager (componentModel c))
     \<and> has_last (otel_models (sent c)) (on_manager OtelRuntimeManager (componentModel c))"

lemma promised_delivered:
  assumes "promised (componentModel c) c" "queuedModel c = None" "\<not> active (pendingTransitions c)"
  shows "delivered c"
  using assms by (simp add: promised_def owed_def delivered_def active_def)

text \<open>C5: Once a policy was applied and the last refresh of the component model succeeded, the managers have the current model
  whenever no transition between the runtimes is pending, and at the latest when the transitions have timed out twice,
  whatever was queued in between.\<close>

theorem latest_model_is_delivered:
  assumes "coord_run e P c" "PolicyApplied (cstateOf c)" "componentModelErr c = None"
  shows "(\<not> active (pendingTransitions c) \<longrightarrow> delivered c)
    \<and> delivered (forceApplyPendingTransitions now' (forceApplyPendingTransitions now c))"
proof -
  let ?f = "forceApplyPendingTransitions now c"
  have d: "promised (componentModel c) c" "queue_ok c" using run_deliveries[OF assms(1)] assms(2,3) by (auto simp: deliveries_def)
  have "promised (componentModel c) (forceApplyPendingTransitions now' ?f)"
    by (intro force_promised(1) d(1))
  moreover have "\<not> active (pendingTransitions (forceApplyPendingTransitions now' ?f))" by (rule force_ends) (rule force_queued)
  ultimately have "delivered (forceApplyPendingTransitions now' ?f)"
    using promised_delivered[of "forceApplyPendingTransitions now' ?f"] by (simp add: force_queued)
  moreover have "delivered c" if "\<not> active (pendingTransitions c)"
    using promised_delivered[OF d(1)] d(2) that by (auto simp: queue_ok_def)
  ultimately show ?thesis by blast
qed

section \<open>Shutdown\<close>

text \<open>The stop timeout of a component that is a command.\<close>

abbreviation stop_of :: "'p model_component \<Rightarrow> duration option" where
  "stop_of cm \<equiv> map_option (\<lambda>cmd. Stop (Timeouts cmd)) (Command (InputSpecOf (CompInputSpec cm)))"

abbreviation max_stop :: "int \<Rightarrow> 'p model_component list \<Rightarrow> int" where
  "max_stop \<equiv> foldl (\<lambda>mx cm. case Command (InputSpecOf (CompInputSpec cm)) of None \<Rightarrow> mx | Some cmd \<Rightarrow> max mx (Stop (Timeouts cmd)))"

lemma max_stop_start: "mx \<le> max_stop mx cs"
proof (induction cs arbitrary: mx)
  case (Cons cm cs)
  then show ?case
    using order_trans[OF max.cobounded1 Cons.IH] by (cases "Command (InputSpecOf (CompInputSpec cm))") auto
qed simp

lemma max_stop_covers: "cm \<in> set cs \<Longrightarrow> stop_of cm = Some t \<Longrightarrow> t \<le> max_stop mx cs"
proof (induction cs arbitrary: mx)
  case (Cons x cs)
  then show ?case using max_stop_start[of "max mx t" cs] by auto
qed simp

lemma max_stop_bound: "\<forall>cm\<in>set cs. \<forall>t. stop_of cm = Some t \<longrightarrow> t \<le> b \<Longrightarrow> mx \<le> b \<Longrightarrow> max_stop mx cs \<le> b"
  by (induction cs arbitrary: mx) (auto split: option.split)

text \<open>C31: The time that the managers get to shut down is positive and at most the time that a process may take to stop, and
  within that limit it covers the stop timeout of every component and the buffer, for stop timeouts that leave room for
  the buffer in 64 bits.\<close>

theorem shutdown_timeout_is_bounded:
  fixes cs :: "'p model_component list"
  assumes "\<forall>cm\<in>set cs. \<forall>t. stop_of cm = Some t \<longrightarrow> t \<le> 9223372036854775807 - ShutdownBuffer"
  shows "0 < managerShutdownTimeoutForComponents cs \<and> managerShutdownTimeoutForComponents cs \<le> ProcessStopTimeout
    \<and> (\<forall>cm\<in>set cs. \<forall>t. stop_of cm = Some t \<longrightarrow> 0 < t \<longrightarrow> min (t + ShutdownBuffer) ProcessStopTimeout \<le> managerShutdownTimeoutForComponents cs)"
proof -
  define m where "m = max_stop 0 cs"
  have m: "0 \<le> m" "\<And>cm t. cm \<in> set cs \<Longrightarrow> stop_of cm = Some t \<Longrightarrow> t \<le> m" "m \<le> 9223372036854775807 - ShutdownBuffer"
    unfolding m_def using max_stop_start[of 0 cs] max_stop_covers[of _ cs _ 0] max_stop_bound[OF assms, of 0]
    by (auto simp: ShutdownBuffer_def KillReapTime_def second_ns_def)
  have w: "wrap64 (m + ShutdownBuffer) = m + ShutdownBuffer"
    using m(1,3) by (simp add: wrap64_def ShutdownBuffer_def KillReapTime_def second_ns_def)
  have val: "managerShutdownTimeoutForComponents cs = (if m = 0 then minManagerShutdownTimeout else min (m + ShutdownBuffer) ProcessStopTimeout)"
    using m(1) by (simp add: managerShutdownTimeoutForComponents_def m_def[symmetric] w Let_def min_def)
  show ?thesis
    unfolding val using m(1,2)
    by (auto simp: minManagerShutdownTimeout_def ShutdownBuffer_def KillReapTime_def ProcessStopTimeout_def second_ns_def min_def; force)
qed

section \<open>An agent with one component\<close>

definition coord_component :: "RuntimeManager \<Rightarrow> nat model_component" where
  "coord_component m = make_component policy_env \<lparr>sharedFeatures = None, sharedAgentInfo = None, sharedConfig = 0\<rparr> zero_spec
     ''filestream'' (sample_output []) ''filestream-default'' None m False []"

text \<open>An agent whose modifier adds one component on a given runtime.\<close>

definition sample_coord :: "RuntimeManager \<Rightarrow> nat coord_env" where
  "sample_coord m = \<lparr>capi = sample_client, menv = policy_env, order = \<lambda>_. 0, specs = open_specs, sum64 = length, StatusFatalError = 6,
     StatusPermanentError = 5, StatusRecoverableError = 4, isRecoverable = \<lambda>_. False, asWarning = \<lambda>_. None, errorText = \<lambda>_. [],
     isDynamic = \<lambda>_. False, otelSupported = \<lambda>_. True, caps = None, modifiers = [\<lambda>_ _. Inr [coord_component m]], monitoring = None,
     headers = None, levelString = \<lambda>_. ''info'', agentInfoFor = \<lambda>_. 0, PrepareWorkDir = \<lambda>_. None,
     varsDefaultProvider = []\<rparr>"

definition sample_settings :: "nat settings" where
  "sample_settings = \<lparr>RuntimeCfg = DefaultRuntimeConfig, MonitoringConfig = 0, LoggingLevel = 0, SettingsTags = []\<rparr>"

definition sample_vars :: Vars where
  "sample_vars = NewVarsFromAst [] (Some (NewDict [])) [] []"

definition sample_change :: "nat ConfigChange" where
  "sample_change = \<lparr>injectErr = None, persistedErr = None, changeOTel = None, changeMap = Inr [], reloads = [],
     observed = Inr (Some [sample_vars]), protectionOf = Inr None, newCfg = Inr sample_settings, ackErr = None\<rparr>"

abbreviation sample_new :: "nat Coordinator" where
  "sample_new \<equiv> New True False 0 [] sample_settings None"

lemma sample_override: "maybeOverrideRuntimeForComponent (\<lambda>_. True) rc (coord_component m) = coord_component m"
  by (simp add: maybeOverrideRuntimeForComponent_def coord_component_def make_component_def Let_def)

lemma coord_components: "components_of (sample_coord m) c [] None = Inr [coord_component m]"
  by (simp add: components_of_def sample_coord_def ToComponents_def PolicyToComponents_def policy_env_def toIntermediate_def agentSection_def
      otelRuntimeModifier_def sample_override filterByCapabilities_def Let_def)

lemma sample_generate:
  "generateComponentModel (sample_coord m) (Some (Dict [] None)) vs c = (None, c\<lparr>derivedConfig := [], componentModel := [coord_component m]\<rparr>)"
  by (simp add: generateComponentModel_def render_inputs_def derive_config_def clear_inputs_def render_outputs_def Lookup_def splitPath_def
      Find_def AST_Map_def children_def map_filter_simps map_of_entries_def coord_components Let_def)

lemma sample_change_fields [simp]:
  "injectErr sample_change = None" "persistedErr sample_change = None" "changeOTel sample_change = None" "changeMap sample_change = Inr []"
  "reloads sample_change = []"
  by (simp_all add: sample_change_def)

lemma sample_coord_fields [simp]:
  "PrepareWorkDir (sample_coord m) = (\<lambda>_. None)" "capi (sample_coord m) = sample_client"
  "caps (sample_coord m) = None" "varsDefaultProvider (sample_coord m) = []"
  by (simp_all add: sample_coord_def)

lemma sample_prepare:
  "prepare_model (sample_coord m) (Some (Dict [] None)) vs c = (Inr \<lparr>ModelComponents = [coord_component m], Signed = None\<rparr>,
     c\<lparr>derivedConfig := [], componentModel := [coord_component m]\<rparr>)"
  by (simp add: prepare_model_def sample_generate ensureComponentWorkDirs_def SignedFromPolicy_def)

definition sample_applied :: "RuntimeManager \<Rightarrow> nat Coordinator" where
  "sample_applied m = runLoopIteration (sample_coord m) 0 0 False (ConfigUpdate sample_change) sample_new"

lemma sample_applied_run: "P (ConfigUpdate sample_change) \<Longrightarrow> coord_run (sample_coord m) P (sample_applied m)"
  unfolding sample_applied_def by (intro coord_run.intros)

text \<open>What the policy of the sample leaves behind.\<close>

abbreviation sample_done :: "RuntimeManager \<Rightarrow> nat Coordinator \<Rightarrow> bool" where
  "sample_done m c \<equiv> componentModelErr c = None \<and> PolicyApplied (cstateOf c) \<and> componentModel c = [coord_component m]"

lemma update_cstate [simp]:
  "cstateOf (updateManagersWithConfig now md c) = cstateOf c" "componentModelErr (updateManagersWithConfig now md c) = componentModelErr c"
  using shown_update[of now md c] by (simp_all add: shown_def)

lemma sample_refresh:
  assumes "cast c = Some (Some (Dict [] None))" "cvars c = Some vs"
  shows "fst (refreshComponentModel (sample_coord m) 0 c) = None" "sample_done m (snd (refreshComponentModel (sample_coord m) 0 c))"
  using assms by (simp_all add: refreshComponentModel_def sample_prepare setComponentModelError_def)

lemma sample_process_ast:
  assumes "cast c = Some (Some (Dict [] None))" "\<not> standalone c" "Tags (cstateOf c) = []"
  shows "fst (process_ast (sample_coord m) 0 sample_change c) = None" "sample_done m (snd (process_ast (sample_coord m) 0 sample_change c))"
proof -
  have o: "observeASTVars (sample_coord m) sample_change c = (None, (emit (Observe []) c)\<lparr>cvars := Some [sample_vars]\<rparr>)"
    using assms by (simp add: observeASTVars_def ast_vars_def Lookup_def splitPath_def Find_def sample_change_def)
  have a: "apply_settings sample_settings x = x\<lparr>currentCfg := sample_settings\<rparr>" if "\<not> standalone x" "Tags (cstateOf x) = []" for x
    using that by (simp add: apply_settings_def sample_settings_def NormalizeTags_def)
  have "process_ast (sample_coord m) 0 sample_change c = refreshComponentModel (sample_coord m) 0
      (apply_settings sample_settings ((emit (Observe []) c)\<lparr>cvars := Some [sample_vars], protection := None\<rparr>))"
    by (simp add: process_ast_def o) (simp add: sample_change_def)
  then show "fst (process_ast (sample_coord m) 0 sample_change c) = None" "sample_done m (snd (process_ast (sample_coord m) 0 sample_change c))"
    using assms by (simp_all add: a emit_def sample_refresh)
qed

lemma sample_processed: "sample_done m (handle_event (sample_coord m) 0 False (ConfigUpdate sample_change) sample_new)"
proof -
  let ?c = "setConfigError None (setConfigError None (sample_new\<lparr>otelCfg := None, cast := Some (Some (Dict [] None)), renderCache := NewRenderCache\<rparr>))"
  have "\<not> standalone sample_new" "Tags (cstateOf sample_new) = []" by (simp_all add: New_def Let_def)
  then have p: "fst (process_ast (sample_coord m) 0 sample_change ?c) = None" "sample_done m (snd (process_ast (sample_coord m) 0 sample_change ?c))"
    by (simp_all add: sample_process_ast setConfigError_def)
  have "processConfig (sample_coord m) 0 sample_change sample_new = process_ast (sample_coord m) 0 sample_change ?c"
    by (simp add: processConfig_def generateAST_def NewAST_def Reset_def Let_def)
  with p obtain x where "processConfig (sample_coord m) 0 sample_change sample_new = (None, x)" "sample_done m x" by (metis prod.collapse)
  then show ?thesis by (simp add: handle_event_def processConfigChange_def setConfigManagerActionsError_def emit_def sample_change_def)
qed

lemma sample_applied_done: "sample_done m (sample_applied m)"
proof -
  let ?h = "handle_event (sample_coord m) 0 False (ConfigUpdate sample_change) sample_new"
  have f: "componentModel (force_expired 0 ?h) = componentModel ?h" "cstateOf (force_expired 0 ?h) = cstateOf ?h"
    "componentModelErr (force_expired 0 ?h) = componentModelErr ?h"
    using shown_force[of 0 ?h] by (simp_all add: force_expired_def shown_def)
  have "componentModel (broadcast_changes e x) = componentModel x" "cstateOf (broadcast_changes e x) = cstateOf x"
    "componentModelErr (broadcast_changes e x) = componentModelErr x" for e and x :: "nat Coordinator"
    by (simp_all add: broadcast_changes_def refreshState_def emit_def)
  with f sample_processed[of m] show ?thesis by (simp add: sample_applied_def runLoopIteration_def)
qed


theorem latest_model_is_delivered_witness:
  "delivered (forceApplyPendingTransitions 2 (forceApplyPendingTransitions 1 (sample_applied OtelRuntimeManager)))
   \<and> componentModel (sample_applied OtelRuntimeManager) = [coord_component OtelRuntimeManager]"
  using latest_model_is_delivered[OF sample_applied_run[of "\<lambda>_. True" OtelRuntimeManager], of 2 1] sample_applied_done[of OtelRuntimeManager]
  by simp

definition slow_component :: "nat model_component" where
  "slow_component = (coord_component ProcessRuntimeManager)\<lparr>CompInputSpec := zero_spec\<lparr>InputSpecOf := (InputSpecOf zero_spec)\<lparr>Command :=
     Some \<lparr>CommandSpecName = [], Args = [], Env = [], Timeouts = InitDefaults, RestartMonitoringPeriod = 0, MaxRestartsPerPeriod = 0\<rparr>\<rparr>\<rparr>\<rparr>"

theorem shutdown_timeout_is_bounded_witness:
  "stop_of slow_component = Some (30 * second_ns) \<and> managerShutdownTimeoutForComponents [slow_component] \<le> ProcessStopTimeout
   \<and> ProcessStopTimeout \<le> managerShutdownTimeoutForComponents [slow_component]"
  using shutdown_timeout_is_bounded[of "[slow_component]"]
  by (simp add: slow_component_def InitDefaults_def ShutdownBuffer_def KillReapTime_def second_ns_def ProcessStopTimeout_def)

end
