(* ===== verification/Spec2Isabelle.thy ===== *)
theory Spec2Isabelle
  imports Semver Eql Ast_Props Vars_Props Apply_Props Render_Dedup Dispatcher_Props Runtime_Props Acker Coordinator_Props
begin

text \<open>
  A verification development for the Elastic Agent.
\<close>

end
